(* ===== verification/Prelude.thy ===== *)
theory Prelude
  imports Main "HOL-Library.Word" "HOL-Library.Product_Lexorder"
begin

text \<open>
  Shared vocabulary of the development: Go's \<^verbatim>\<open>int64\<close> as a 64-bit word read as a
  signed number, the error values of the packages \<^verbatim>\<open>model\<close>, \<^verbatim>\<open>usecases\<close> and
  \<^verbatim>\<open>postgres\<close>, the sequencing of calls that may return an error, instants and UUIDs,
  and the few facts about tables (lists of rows) that the store proofs share.
\<close>

named_theorems go_int \<open>signed comparisons and exact signed arithmetic\<close>
named_theorems go_res \<open>inversion of sequenced calls\<close>

section \<open>Signed 64-bit integers\<close>

type_synonym int64 = "64 word"

definition max_int64 :: int64 where
  "max_int64 = 0x7FFFFFFFFFFFFFFF"

definition min_int64 :: int64 where
  "min_int64 = 0x8000000000000000"

lemma sint_max_int64 [simp]: "sint max_int64 = 9223372036854775807"
  by (simp add: max_int64_def)

lemma sint_min_int64 [simp]: "sint min_int64 = - 9223372036854775808"
  by (simp add: min_int64_def)

lemma sint64_lower: "- 9223372036854775808 \<le> sint (a :: int64)"
  using sint_ge [of a] by simp

lemma sint64_upper: "sint (a :: int64) \<le> 9223372036854775807"
  using sint_lt [of a] by simp

lemmas sint64_range = sint64_lower sint64_upper

lemma sless_sint [go_int]: "(a :: int64) <s b \<longleftrightarrow> sint a < sint b"
  by (simp add: word_sless_alt)

lemma sle_sint [go_int]: "(a :: int64) \<le>s b \<longleftrightarrow> sint a \<le> sint b"
  by (simp add: word_sle_eq)

definition fits64 :: "int \<Rightarrow> bool" where
  "fits64 i \<longleftrightarrow> - 9223372036854775808 \<le> i \<and> i \<le> 9223372036854775807"

lemma fits64_sint [simp]: "fits64 (sint (a :: int64))"
  by (simp add: fits64_def sint64_range)

lemma sint_of_int64: "fits64 i \<Longrightarrow> sint (word_of_int i :: int64) = i"
  unfolding fits64_def by (simp add: signed_of_int signed_take_bit_int_eq_self)

lemma sint_of_nat64: "n \<le> 9223372036854775807 \<Longrightarrow> sint (of_nat n :: int64) = int n"
  using sint_of_int64 [of "int n"] by (simp add: fits64_def)

lemma sint_add64 [go_int]:
  "fits64 (sint a + sint b) \<Longrightarrow> sint (a + b :: int64) = sint a + sint b"
  unfolding fits64_def by (simp add: sint_word_ariths signed_take_bit_int_eq_self)

lemma sint_sub64 [go_int]:
  "fits64 (sint a - sint b) \<Longrightarrow> sint (a - b :: int64) = sint a - sint b"
  unfolding fits64_def by (simp add: sint_word_ariths signed_take_bit_int_eq_self)

lemma sint_neg64 [go_int]:
  "fits64 (- sint a) \<Longrightarrow> sint (- a :: int64) = - sint a"
  unfolding fits64_def by (simp add: sint_word_ariths signed_take_bit_int_eq_self)

lemma sint_mult64 [go_int]:
  "fits64 (sint a * sint b) \<Longrightarrow> sint (a * b :: int64) = sint a * sint b"
  unfolding fits64_def by (simp add: sint_word_ariths signed_take_bit_int_eq_self)

lemma int64_eq_iff: "(a :: int64) = b \<longleftrightarrow> sint a = sint b"
  by (auto intro: signed_word_eqI)

section \<open>Errors, UUIDs and instants\<close>

text \<open>
  The sentinel errors of the packages, the classes of PostgreSQL errors the schema raises
  (\<^verbatim>\<open>23505\<close> is \<open>UniqueViolation\<close>), and \<open>ErrText\<close> for the errors the
  code makes in place with \<^verbatim>\<open>errors.New\<close> or \<^verbatim>\<open>fmt.Errorf\<close>.
\<close>

datatype pg_error =
    UniqueViolation
  | CheckViolation
  | ForeignKeyViolation
  | RaisedException
  | NumericOutOfRange
  | NullScan

datatype err =
    ErrInvalidMoney | ErrCurrencyMismatch | ErrOverflow
  | ErrInsufficientFunds | ErrInvalidWallet
  | ErrInvalidTransaction | ErrTerminalTransaction
  | ErrInvalidLedgerEntry
  | ErrInvalidInput | ErrConflict | ErrNotFound | ErrNoRows
  | ErrPg pg_error
  | ErrText string

text \<open>
  A UUID is an array of 16 bytes, read as a big-endian number, so that the byte order
  PostgreSQL sorts by is the order of the words; \<^verbatim>\<open>uuid.Nil\<close> is 0. An instant
  counts nanoseconds from Go's zero \<^verbatim>\<open>time.Time\<close>.
\<close>

type_synonym uuid = "128 word"
type_synonym time = int

abbreviation (input) uuid_nil :: uuid where
  "uuid_nil \<equiv> 0"

abbreviation (input) time_zero :: time where
  "time_zero \<equiv> 0"

definition second :: int64 where
  "second = 1000000000"

lemma sint_second [simp]: "sint second = 1000000000"
  by (simp add: second_def)

section \<open>Sequencing calls that return an error\<close>

text \<open>
  \<open>rbind r f\<close> is \<^verbatim>\<open>x, err := r; if err != nil { return err }\<close> followed by
  \<open>f x\<close>.
\<close>

definition rbind :: "'e + 'a \<Rightarrow> ('a \<Rightarrow> 'e + 'b) \<Rightarrow> 'e + 'b" where
  "rbind r f = (case r of Inl e \<Rightarrow> Inl e | Inr x \<Rightarrow> f x)"

lemma rbind_simps [simp]:
  "rbind (Inl e) f = Inl e"
  "rbind (Inr x) f = f x"
  by (simp_all add: rbind_def)

lemma rbind_Inr_iff [go_res]: "rbind r f = Inr y \<longleftrightarrow> (\<exists>x. r = Inr x \<and> f x = Inr y)"
  by (cases r) simp_all

lemma rbind_Inl_iff [go_res]:
  "rbind r f = Inl e \<longleftrightarrow> r = Inl e \<or> (\<exists>x. r = Inr x \<and> f x = Inl e)"
  by (cases r) auto

lemma rbind_assoc: "rbind (rbind r f) g = rbind r (\<lambda>x. rbind (f x) g)"
  by (cases r) simp_all

lemma if_Inr_iff [go_res]: "(if c then Inl e else r) = Inr y \<longleftrightarrow> \<not> c \<and> r = Inr y"
  by simp

section \<open>Byte strings\<close>

text \<open>
  A Go string is a sequence of bytes, so it is an Isabelle \<^typ>\<open>string\<close> (a list of
  8-bit characters). \<open>trim_space\<close> is \<^verbatim>\<open>strings.TrimSpace\<close>: it removes from both
  ends the UTF-8 encodings of the code points with the property White Space.
\<close>

definition byte_char :: "nat \<Rightarrow> char" where
  "byte_char n = char_of n"

definition space_runes :: "string list" where
  "space_runes =
     map (\<lambda>n. [byte_char n]) [9, 10, 11, 12, 13, 32] @
     map (map byte_char)
       ([[0xC2, 0x85], [0xC2, 0xA0], [0xE1, 0x9A, 0x80]] @
        map (\<lambda>n. [0xE2, 0x80, n]) [0x80 ..< 0x8B] @
        [[0xE2, 0x80, 0xA8], [0xE2, 0x80, 0xA9], [0xE2, 0x80, 0xAF],
         [0xE2, 0x81, 0x9F], [0xE3, 0x80, 0x80]])"

definition leading_space :: "string \<Rightarrow> string option" where
  "leading_space s = find (\<lambda>w. w \<noteq> [] \<and> take (length w) s = w) space_runes"

definition trailing_space :: "string \<Rightarrow> string option" where
  "trailing_space s =
     find (\<lambda>w. w \<noteq> [] \<and> take (length w) (rev s) = rev w) space_runes"

lemma leading_space_shorter:
  "leading_space s = Some w \<Longrightarrow> length (drop (length w) s) < length s"
  by (cases s) (auto simp: leading_space_def find_Some_iff)

lemma trailing_space_shorter:
  "trailing_space s = Some w \<Longrightarrow> length (take (length s - length w) s) < length s"
  by (cases s) (auto simp: trailing_space_def find_Some_iff)

function trim_left :: "string \<Rightarrow> string" where
  "trim_left s =
     (case leading_space s of None \<Rightarrow> s | Some w \<Rightarrow> trim_left (drop (length w) s))"
  by pat_completeness auto
termination
  by (relation "measure length") (auto dest: leading_space_shorter)

function trim_right :: "string \<Rightarrow> string" where
  "trim_right s =
     (case trailing_space s of
        None \<Rightarrow> s
      | Some w \<Rightarrow> trim_right (take (length s - length w) s))"
  by pat_completeness auto
termination
  by (relation "measure length") (auto dest: trailing_space_shorter)

declare trim_left.simps [simp del] trim_right.simps [simp del]

definition trim_space :: "string \<Rightarrow> string" where
  "trim_space s = trim_right (trim_left s)"

definition blank :: "string \<Rightarrow> bool" where
  "blank s \<longleftrightarrow> trim_space s = []"

lemma trim_left_nil [simp]: "trim_left [] = []"
  by (subst trim_left.simps) (auto simp: leading_space_def find_Some_iff split: option.splits)

lemma trim_right_nil [simp]: "trim_right [] = []"
  by (subst trim_right.simps) (auto simp: trailing_space_def find_Some_iff split: option.splits)

lemma blank_nil [simp]: "blank []"
  by (simp add: blank_def trim_space_def)

lemma not_blank_nonempty: "\<not> blank s \<Longrightarrow> s \<noteq> []"
  by auto

text \<open>A text of visible ASCII characters is not blank.\<close>

definition visible :: "char \<Rightarrow> bool" where
  "visible c \<longleftrightarrow> 33 \<le> (of_char c :: nat) \<and> (of_char c :: nat) \<le> 126"

lemma byte_char_value: "n < 256 \<Longrightarrow> (of_char (byte_char n) :: nat) = n"
  by (simp add: byte_char_def)

lemma space_runes_invisible:
  "w \<in> set space_runes \<Longrightarrow> w \<noteq> [] \<Longrightarrow> \<not> visible (hd w) \<and> \<not> visible (last w)"
  by (auto simp: space_runes_def visible_def byte_char_value upt_rec)

lemma visible_no_leading_space:
  assumes "visible c"
  shows "leading_space (c # s) = None"
  unfolding leading_space_def find_None_iff
proof
  assume "\<exists>w. w \<in> set space_runes \<and> w \<noteq> [] \<and> take (length w) (c # s) = w"
  then obtain w where w: "w \<in> set space_runes" "w \<noteq> []" "take (length w) (c # s) = w" by blast
  from w(2,3) have "hd w = c" by (cases w) auto
  with space_runes_invisible [OF w(1,2)] assms show False by simp
qed

lemma visible_no_trailing_space:
  assumes "visible c"
  shows "trailing_space (s @ [c]) = None"
  unfolding trailing_space_def find_None_iff
proof
  assume "\<exists>w. w \<in> set space_runes \<and> w \<noteq> [] \<and> take (length w) (rev (s @ [c])) = rev w"
  then obtain w where w: "w \<in> set space_runes" "w \<noteq> []" "take (length w) (c # rev s) = rev w"
    by auto
  from w(2) have "rev w = c # take (length w - 1) (rev s)"
    unfolding w(3) [symmetric] by (cases "length w") simp_all
  then have "last w = c" using w(2) by (metis hd_rev list.sel(1))
  with space_runes_invisible [OF w(1,2)] assms show False by simp
qed

lemma visible_trimmed: "list_all visible s \<Longrightarrow> trim_space s = s"
proof (cases s rule: rev_cases)
  case (snoc t c)
  assume v: "list_all visible s"
  then obtain d u where s: "s = d # u" "visible d" using snoc by (cases t) auto
  then have "trim_left s = s"
    by (subst trim_left.simps) (simp add: visible_no_leading_space)
  moreover have "trim_right s = s"
    using snoc v by (subst trim_right.simps) (simp add: visible_no_trailing_space)
  ultimately show ?thesis by (simp add: trim_space_def)
qed (simp add: trim_space_def)

lemma visible_not_blank: "list_all visible s \<Longrightarrow> blank s \<longleftrightarrow> s = []"
  by (simp add: blank_def visible_trimmed)

section \<open>Tables\<close>

text \<open>
  A table is the list of its rows in insertion order. \<open>update_where p f\<close> is
  \<^verbatim>\<open>UPDATE ... SET f WHERE p\<close>.
\<close>

definition update_where :: "('r \<Rightarrow> bool) \<Rightarrow> ('r \<Rightarrow> 'r) \<Rightarrow> 'r list \<Rightarrow> 'r list" where
  "update_where p f rs = map (\<lambda>r. if p r then f r else r) rs"

lemma update_where_nil [simp]: "update_where p f [] = []"
  by (simp add: update_where_def)

lemma update_where_append [simp]:
  "update_where p f (xs @ ys) = update_where p f xs @ update_where p f ys"
  by (simp add: update_where_def)

lemma set_update_where:
  "set (update_where p f rs) = (\<lambda>r. if p r then f r else r) ` set rs"
  by (simp add: update_where_def)

lemma update_where_keeps_key:
  "(\<And>r. p r \<Longrightarrow> k (f r) = k r) \<Longrightarrow> map k (update_where p f rs) = map k rs"
  by (simp add: update_where_def)

lemma length_update_where [simp]: "length (update_where p f rs) = length rs"
  by (simp add: update_where_def)

lemma find_key_unique:
  "distinct (map k rs) \<Longrightarrow> r \<in> set rs \<Longrightarrow> find (\<lambda>x. k x = k r) rs = Some r"
  by (induction rs) force+

lemma find_SomeD: "find p xs = Some x \<Longrightarrow> x \<in> set xs \<and> p x"
  by (auto simp: find_Some_iff)

lemma distinct_map_eqD:
  "distinct (map k rs) \<Longrightarrow> r \<in> set rs \<Longrightarrow> r' \<in> set rs \<Longrightarrow> k r = k r' \<Longrightarrow> r = r'"
  by (auto simp: distinct_map dest: inj_onD)

end
