(* ===== verification/GoStd.thy ===== *)
theory GoStd
  imports Prelude "HOL-Library.Signed_Division"
begin

text \<open>
  The parts of Go's standard library the program computes with: \<^verbatim>\<open>regexp\<close> on the
  two patterns of \<^verbatim>\<open>money.go\<close>, \<^verbatim>\<open>strconv.ParseInt\<close> and
  \<^verbatim>\<open>strconv.Atoi\<close>, the verbs \<^verbatim>\<open>%d\<close> and \<^verbatim>\<open>%02d\<close> of
  \<^verbatim>\<open>fmt\<close>, and the truncating operators \<^verbatim>\<open>/\<close> and \<^verbatim>\<open>%\<close> on
  \<^verbatim>\<open>int64\<close>.
\<close>

section \<open>Regular expressions\<close>

datatype rx =
    RNone
  | REps
  | RChar "char \<Rightarrow> bool"
  | RSeq rx rx
  | RAlt rx rx
  | RStar rx

definition ROpt :: "rx \<Rightarrow> rx" where
  "ROpt r = RAlt r REps"

fun rx_nullable :: "rx \<Rightarrow> bool" where
  "rx_nullable RNone = False"
| "rx_nullable REps = True"
| "rx_nullable (RChar p) = False"
| "rx_nullable (RSeq r q) = (rx_nullable r \<and> rx_nullable q)"
| "rx_nullable (RAlt r q) = (rx_nullable r \<or> rx_nullable q)"
| "rx_nullable (RStar r) = True"

fun deriv :: "char \<Rightarrow> rx \<Rightarrow> rx" where
  "deriv c RNone = RNone"
| "deriv c REps = RNone"
| "deriv c (RChar p) = (if p c then REps else RNone)"
| "deriv c (RSeq r q) =
     (if rx_nullable r then RAlt (RSeq (deriv c r) q) (deriv c q) else RSeq (deriv c r) q)"
| "deriv c (RAlt r q) = RAlt (deriv c r) (deriv c q)"
| "deriv c (RStar r) = RSeq (deriv c r) (RStar r)"

fun rx_match :: "rx \<Rightarrow> string \<Rightarrow> bool" where
  "rx_match r [] = rx_nullable r"
| "rx_match r (c # cs) = rx_match (deriv c r) cs"

lemma rx_match_none [simp]: "\<not> rx_match RNone s"
  by (induction s) simp_all

lemma rx_match_eps [simp]: "rx_match REps s \<longleftrightarrow> s = []"
  by (cases s) simp_all

lemma rx_match_char [simp]: "rx_match (RChar p) s \<longleftrightarrow> (\<exists>c. s = [c] \<and> p c)"
  by (cases s) auto

lemma rx_match_alt [simp]: "rx_match (RAlt r q) s \<longleftrightarrow> rx_match r s \<or> rx_match q s"
  by (induction s arbitrary: r q) simp_all

lemma split_Cons_iff:
  "(\<exists>u v. c # s = u @ v \<and> P u \<and> Q v) \<longleftrightarrow>
   (P [] \<and> Q (c # s)) \<or> (\<exists>u v. s = u @ v \<and> P (c # u) \<and> Q v)"
proof
  assume "\<exists>u v. c # s = u @ v \<and> P u \<and> Q v"
  then obtain u v where uv: "c # s = u @ v" "P u" "Q v" by blast
  then show "(P [] \<and> Q (c # s)) \<or> (\<exists>u v. s = u @ v \<and> P (c # u) \<and> Q v)"
    by (cases u) auto
next
  assume "(P [] \<and> Q (c # s)) \<or> (\<exists>u v. s = u @ v \<and> P (c # u) \<and> Q v)"
  then show "\<exists>u v. c # s = u @ v \<and> P u \<and> Q v"
    by (metis append_Cons append_Nil)
qed

lemma rx_match_seq:
  "rx_match (RSeq r q) s \<longleftrightarrow> (\<exists>u v. s = u @ v \<and> rx_match r u \<and> rx_match q v)"
proof (induction s arbitrary: r q)
  case Nil
  then show ?case by simp
next
  case (Cons c s)
  then show ?case by (auto simp: split_Cons_iff)
qed

lemma rx_match_char_seq [simp]:
  "rx_match (RSeq (RChar p) r) s \<longleftrightarrow> (\<exists>c t. s = c # t \<and> p c \<and> rx_match r t)"
  by (fastforce simp: rx_match_seq intro: exI [of _ "[_]"])

lemma rx_match_opt [simp]: "rx_match (ROpt r) s \<longleftrightarrow> rx_match r s \<or> s = []"
  by (simp add: ROpt_def)

lemma rx_match_star_char [simp]: "rx_match (RStar (RChar p)) s \<longleftrightarrow> list_all p s"
proof (induction s)
  case Nil
  then show ?case by simp
next
  case (Cons c s)
  then show ?case by (auto simp: rx_match_seq)
qed

section \<open>Decimal numerals\<close>

definition is_digit :: "char \<Rightarrow> bool" where
  "is_digit c \<longleftrightarrow> 48 \<le> (of_char c :: nat) \<and> (of_char c :: nat) \<le> 57"

definition digit_val :: "char \<Rightarrow> nat" where
  "digit_val c = of_char c - 48"

definition digit_char :: "nat \<Rightarrow> char" where
  "digit_char d = char_of (48 + d)"

fun digits_of :: "nat \<Rightarrow> string" where
  "digits_of n =
     (if n < 10 then [digit_char n] else digits_of (n div 10) @ [digit_char (n mod 10)])"

declare digits_of.simps [simp del]

definition dec_value :: "string \<Rightarrow> nat" where
  "dec_value s = foldl (\<lambda>n c. n * 10 + digit_val c) 0 s"

lemma digit_char_val [simp]: "d < 10 \<Longrightarrow> digit_val (digit_char d) = d"
  by (simp add: digit_val_def digit_char_def)

lemma is_digit_digit_char [simp]: "d < 10 \<Longrightarrow> is_digit (digit_char d)"
  by (simp add: is_digit_def digit_char_def)

lemma digit_val_less: "is_digit c \<Longrightarrow> digit_val c < 10"
  by (auto simp: is_digit_def digit_val_def)

lemma digit_char_digit_val [simp]: "is_digit c \<Longrightarrow> digit_char (digit_val c) = c"
  by (simp add: is_digit_def digit_val_def digit_char_def)

lemma digits_of_small: "n < 10 \<Longrightarrow> digits_of n = [digit_char n]"
  by (simp add: digits_of.simps)

lemma digits_of_big:
  "10 \<le> n \<Longrightarrow> digits_of n = digits_of (n div 10) @ [digit_char (n mod 10)]"
  by (subst digits_of.simps) simp

lemma digits_of_all: "list_all is_digit (digits_of n)"
proof (induction n rule: digits_of.induct)
  case (1 n)
  then show ?case by (cases "n < 10") (simp_all add: digits_of_small digits_of_big)
qed

lemma digits_of_nonempty [simp]: "digits_of n \<noteq> []"
  by (subst digits_of.simps) simp

lemma dec_value_snoc [simp]: "dec_value (s @ [c]) = dec_value s * 10 + digit_val c"
  by (simp add: dec_value_def)

lemma dec_value_nil [simp]: "dec_value [] = 0"
  by (simp add: dec_value_def)

lemma dec_value_digits_of [simp]: "dec_value (digits_of n) = n"
proof (induction n rule: digits_of.induct)
  case (1 n)
  then show ?case
    by (cases "n < 10") (simp_all add: digits_of_small digits_of_big dec_value_def)
qed

text \<open>A numeral without a superfluous leading zero.\<close>

definition plain_numeral :: "string \<Rightarrow> bool" where
  "plain_numeral s \<longleftrightarrow>
     s = [digit_char 0] \<or> (\<exists>c ds. s = c # ds \<and> is_digit c \<and> digit_val c \<noteq> 0 \<and> list_all is_digit ds)"

lemma plain_numeral_digits: "plain_numeral s \<Longrightarrow> list_all is_digit s \<and> s \<noteq> []"
  by (auto simp: plain_numeral_def)

lemma plain_numeral_pos:
  "c # ds = s \<Longrightarrow> is_digit c \<Longrightarrow> digit_val c \<noteq> 0 \<Longrightarrow> list_all is_digit ds \<Longrightarrow> 0 < dec_value s"
proof (induction ds arbitrary: s rule: rev_induct)
  case Nil
  then show ?case by (auto simp: dec_value_def)
next
  case (snoc d ds)
  then have "0 < dec_value (c # ds)" by simp
  moreover have "s = (c # ds) @ [d]" using snoc.prems by simp
  ultimately show ?case by (simp only: dec_value_snoc)
qed

lemma digits_of_dec_value_pos:
  "c # ds = s \<Longrightarrow> is_digit c \<Longrightarrow> digit_val c \<noteq> 0 \<Longrightarrow> list_all is_digit ds \<Longrightarrow>
   digits_of (dec_value s) = s"
proof (induction ds arbitrary: s rule: rev_induct)
  case Nil
  then show ?case by (auto simp: dec_value_def digits_of_small digit_val_less)
next
  case (snoc d ds)
  then have IH: "digits_of (dec_value (c # ds)) = c # ds" and d: "is_digit d" by simp_all
  have pos: "0 < dec_value (c # ds)"
    using snoc.prems by (intro plain_numeral_pos [OF refl]) simp_all
  have s: "s = (c # ds) @ [d]" using snoc.prems by simp
  have val: "dec_value s = dec_value (c # ds) * 10 + digit_val d"
    unfolding s by (rule dec_value_snoc)
  have "digits_of (dec_value s) = digits_of (dec_value (c # ds)) @ [d]"
    using pos digit_val_less [OF d] d by (subst digits_of_big) (simp_all add: val)
  then show ?case by (simp add: IH s)
qed

lemma digits_of_dec_value: "plain_numeral s \<Longrightarrow> digits_of (dec_value s) = s"
  unfolding plain_numeral_def
  using digits_of_dec_value_pos [OF refl] by (auto simp: dec_value_def digits_of_small)

lemma plain_numeral_digits_of: "plain_numeral (digits_of n)"
proof (induction n rule: digits_of.induct)
  case (1 n)
  show ?case
  proof (cases "n < 10")
    case True
    then show ?thesis
      by (cases "n = 0") (auto simp: digits_of_small plain_numeral_def)
  next
    case False
    then have "plain_numeral (digits_of (n div 10))" and "digits_of (n div 10) \<noteq> [digit_char 0]"
      using 1 dec_value_digits_of [of "n div 10"]
      by (auto simp: dec_value_def simp del: dec_value_digits_of)
    with False show ?thesis by (auto simp: plain_numeral_def digits_of_big)
  qed
qed

section \<open>strconv and fmt\<close>

datatype num_error = ErrSyntax | ErrRange

text \<open>
  \<open>parse_uint\<close> is the digit loop of \<^verbatim>\<open>ParseUint(s, 10, 64)\<close>, which reports the
  first problem it meets; \<open>parse_int64\<close> is \<^verbatim>\<open>ParseInt(s, 10, 64)\<close> with both of
  its results (the value is clipped on \<^verbatim>\<open>ErrRange\<close> and 0 on
  \<^verbatim>\<open>ErrSyntax\<close>).
\<close>

fun parse_uint :: "nat \<Rightarrow> string \<Rightarrow> num_error + nat" where
  "parse_uint n [] = Inr n"
| "parse_uint n (c # cs) =
     (if \<not> is_digit c then Inl ErrSyntax
      else if n * 10 + digit_val c > 18446744073709551615 then Inl ErrRange
      else parse_uint (n * 10 + digit_val c) cs)"

definition parse_int64 :: "string \<Rightarrow> int64 \<times> num_error option" where
  "parse_int64 s =
     (let neg = (take 1 s = ''-'');
          body = (if take 1 s = ''-'' \<or> take 1 s = ''+'' then drop 1 s else s)
      in if body = [] then (0, Some ErrSyntax)
         else case parse_uint 0 body of
           Inl ErrSyntax \<Rightarrow> (0, Some ErrSyntax)
         | Inl ErrRange \<Rightarrow> (if neg then min_int64 else max_int64, Some ErrRange)
         | Inr n \<Rightarrow>
             if \<not> neg \<and> n \<ge> 9223372036854775808 then (max_int64, Some ErrRange)
             else if neg \<and> n > 9223372036854775808 then (min_int64, Some ErrRange)
             else (word_of_int (if neg then - int n else int n), None))"

definition fmt_d :: "int64 \<Rightarrow> string" where
  "fmt_d v = (if sint v < 0 then CHR ''-'' # digits_of (nat (- sint v)) else digits_of (nat (sint v)))"

definition fmt_02d :: "int64 \<Rightarrow> string" where
  "fmt_02d v = (if length (fmt_d v) < 2 then CHR ''0'' # fmt_d v else fmt_d v)"

definition go_quot :: "int64 \<Rightarrow> int64 \<Rightarrow> int64" where
  "go_quot a b = word_of_int (sint a sdiv sint b)"

definition go_rem :: "int64 \<Rightarrow> int64 \<Rightarrow> int64" where
  "go_rem a b = word_of_int (sint a smod sint b)"

lemma parse_uint_value:
  "parse_uint n s = Inr m \<Longrightarrow>
   m = foldl (\<lambda>n c. n * 10 + digit_val c) n s \<and> list_all is_digit s"
  by (induction n s rule: parse_uint.induct) (auto split: if_splits)

lemma foldl_digits_ge: "n \<le> foldl (\<lambda>n c. n * 10 + digit_val c) (n :: nat) s"
proof (induction s arbitrary: n)
  case Nil
  then show ?case by simp
next
  case (Cons c s)
  have "n \<le> n * 10 + digit_val c" by simp
  also have "\<dots> \<le> foldl (\<lambda>n c. n * 10 + digit_val c) (n * 10 + digit_val c) s" by (rule Cons)
  finally show ?case by simp
qed

lemma parse_uint_ok:
  "list_all is_digit s \<Longrightarrow> foldl (\<lambda>n c. n * 10 + digit_val c) n s \<le> 18446744073709551615 \<Longrightarrow>
   parse_uint n s = Inr (foldl (\<lambda>n c. n * 10 + digit_val c) n s)"
proof (induction s arbitrary: n)
  case Nil
  then show ?case by simp
next
  case (Cons c s)
  have "n * 10 + digit_val c \<le> 18446744073709551615"
    using foldl_digits_ge [of "n * 10 + digit_val c" s] Cons.prems by simp
  with Cons show ?case by simp
qed

lemma parse_uint_range:
  "list_all is_digit s \<Longrightarrow> foldl (\<lambda>n c. n * 10 + digit_val c) n s > 18446744073709551615 \<Longrightarrow>
   n \<le> 18446744073709551615 \<Longrightarrow> parse_uint n s = Inl ErrRange"
  by (induction s arbitrary: n) auto

lemma digit_not_sign: "is_digit c \<Longrightarrow> c \<noteq> CHR ''-'' \<and> c \<noteq> CHR ''+'' \<and> c \<noteq> CHR ''.''"
  by (auto simp: is_digit_def)

lemma parse_int64_digits:
  assumes "list_all is_digit s" and "s \<noteq> []"
  shows "parse_int64 s =
    (if dec_value s \<le> 9223372036854775807 then (word_of_int (int (dec_value s)), None)
     else (max_int64, Some ErrRange))"
proof -
  from assms obtain c cs where s: "s = c # cs" "is_digit c" by (cases s) auto
  show ?thesis
  proof (cases "dec_value s \<le> 18446744073709551615")
    case True
    then have "parse_uint 0 s = Inr (dec_value s)"
      using assms parse_uint_ok [of s 0] by (simp add: dec_value_def)
    with s digit_not_sign [OF s(2)] show ?thesis
      by (auto simp: parse_int64_def)
  next
    case False
    then have "parse_uint 0 s = Inl ErrRange"
      using assms parse_uint_range [of s 0] by (simp add: dec_value_def)
    with False s digit_not_sign [OF s(2)] show ?thesis
      by (auto simp: parse_int64_def)
  qed
qed

end
