(* ===== verification/Money.thy ===== *)
theory Money
  imports GoStd
begin

text \<open>
  \<^verbatim>\<open>internal/model/money.go\<close>: an amount in minor units (\<^verbatim>\<open>int64\<close>) with an
  ISO 4217 code. The table of codes belongs to \<^verbatim>\<open>golang.org/x/text/currency\<close>; it is
  the parameter \<open>known\<close>, true of the codes that \<^verbatim>\<open>currency.ParseISO\<close> accepts.
\<close>

section \<open>The value and its validity\<close>

record money =
  minor :: int64
  currency :: string

definition no_money :: money where
  "no_money = \<lparr>minor = 0, currency = ''''\<rparr>"

definition amount_pattern :: rx where
  "amount_pattern =
     RSeq (RAlt (RChar (\<lambda>c. c = CHR ''0''))
                (RSeq (RChar (\<lambda>c. is_digit c \<and> c \<noteq> CHR ''0'')) (RStar (RChar is_digit))))
          (ROpt (RSeq (RChar (\<lambda>c. c = CHR ''.''))
                      (RSeq (RChar is_digit) (ROpt (RChar is_digit)))))"

definition is_upper_letter :: "char \<Rightarrow> bool" where
  "is_upper_letter c \<longleftrightarrow> 65 \<le> (of_char c :: nat) \<and> (of_char c :: nat) \<le> 90"

definition currency_pattern :: rx where
  "currency_pattern =
     RSeq (RChar is_upper_letter) (RSeq (RChar is_upper_letter) (RChar is_upper_letter))"

definition valid_currency :: "(string \<Rightarrow> bool) \<Rightarrow> string \<Rightarrow> bool" where
  "valid_currency known code =
     (if \<not> rx_match currency_pattern code then False else known code)"

definition money_valid :: "(string \<Rightarrow> bool) \<Rightarrow> money \<Rightarrow> bool" where
  "money_valid known m = valid_currency known (currency m)"

definition is_positive :: "(string \<Rightarrow> bool) \<Rightarrow> money \<Rightarrow> bool" where
  "is_positive known m \<longleftrightarrow> money_valid known m \<and> 0 <s minor m"

definition is_zero :: "(string \<Rightarrow> bool) \<Rightarrow> money \<Rightarrow> bool" where
  "is_zero known m \<longleftrightarrow> money_valid known m \<and> minor m = 0"

section \<open>Construction\<close>

definition split_amount :: "string \<Rightarrow> string \<times> string" where
  "split_amount amount =
     (let (whole, fraction) =
        (if CHR ''.'' \<in> set amount
         then (takeWhile (\<lambda>c. c \<noteq> CHR ''.'') amount,
               drop 1 (dropWhile (\<lambda>c. c \<noteq> CHR ''.'') amount))
         else ([], []))
      in (if whole = [] then amount else whole,
          if length fraction = 1 then fraction @ ''0'' else fraction))"

definition parse_money :: "(string \<Rightarrow> bool) \<Rightarrow> string \<Rightarrow> string \<Rightarrow> err + money" where
  "parse_money known amount code =
     (if \<not> valid_currency known code \<or> \<not> rx_match amount_pattern amount then Inl ErrInvalidMoney
      else
        let (whole, fraction) = split_amount amount;
            (w, e) = parse_int64 whole
        in if e \<noteq> None \<or> go_quot max_int64 100 <s w then Inl ErrOverflow
           else
             let f = (if fraction \<noteq> [] then fst (parse_int64 fraction) else 0)
             in if w = go_quot max_int64 100 \<and> go_rem max_int64 100 <s f then Inl ErrOverflow
                else Inr \<lparr>minor = w * 100 + f, currency = code\<rparr>)"

definition money_from_minor :: "(string \<Rightarrow> bool) \<Rightarrow> int64 \<Rightarrow> string \<Rightarrow> err + money" where
  "money_from_minor known n code =
     (if \<not> valid_currency known code then Inl ErrInvalidMoney
      else Inr \<lparr>minor = n, currency = code\<rparr>)"

definition money_zero :: "(string \<Rightarrow> bool) \<Rightarrow> string \<Rightarrow> err + money" where
  "money_zero known code = money_from_minor known 0 code"

section \<open>Checked arithmetic and comparison\<close>

definition money_add :: "(string \<Rightarrow> bool) \<Rightarrow> money \<Rightarrow> money \<Rightarrow> err + money" where
  "money_add known m n =
     (if \<not> money_valid known m \<or> \<not> money_valid known n \<or> currency m \<noteq> currency n
      then Inl ErrCurrencyMismatch
      else if (0 <s minor n \<and> max_int64 - minor n <s minor m) \<or>
              (minor n <s 0 \<and> minor m <s min_int64 - minor n)
      then Inl ErrOverflow
      else Inr \<lparr>minor = minor m + minor n, currency = currency m\<rparr>)"

definition money_negate :: "(string \<Rightarrow> bool) \<Rightarrow> money \<Rightarrow> err + money" where
  "money_negate known m =
     (if \<not> money_valid known m then Inl ErrInvalidMoney
      else if minor m = min_int64 then Inl ErrOverflow
      else Inr \<lparr>minor = - minor m, currency = currency m\<rparr>)"

definition money_sub :: "(string \<Rightarrow> bool) \<Rightarrow> money \<Rightarrow> money \<Rightarrow> err + money" where
  "money_sub known m n =
     (if \<not> money_valid known m \<or> \<not> money_valid known n \<or> currency m \<noteq> currency n
      then Inl ErrCurrencyMismatch
      else if (0 <s minor n \<and> minor m <s min_int64 + minor n) \<or>
              (minor n <s 0 \<and> max_int64 + minor n <s minor m)
      then Inl ErrOverflow
      else Inr \<lparr>minor = minor m - minor n, currency = currency m\<rparr>)"

definition money_compare :: "(string \<Rightarrow> bool) \<Rightarrow> money \<Rightarrow> money \<Rightarrow> err + int" where
  "money_compare known m n =
     (if \<not> money_valid known m \<or> \<not> money_valid known n \<or> currency m \<noteq> currency n
      then Inl ErrCurrencyMismatch
      else if minor m <s minor n then Inr (- 1)
      else if minor n <s minor m then Inr 1
      else Inr 0)"

definition money_amount :: "(string \<Rightarrow> bool) \<Rightarrow> money \<Rightarrow> err + string" where
  "money_amount known m =
     (if \<not> money_valid known m then Inl ErrInvalidMoney
      else if minor m <s 0
      then Inr (''-'' @ fmt_d (- go_quot (minor m) 100) @ ''.'' @ fmt_02d (- go_rem (minor m) 100))
      else Inr (fmt_d (go_quot (minor m) 100) @ ''.'' @ fmt_02d (go_rem (minor m) 100)))"

section \<open>Facts of the checked arithmetic\<close>

lemma not_valid_no_money [simp]: "\<not> money_valid known no_money"
  by (simp add: money_valid_def valid_currency_def no_money_def currency_pattern_def)

lemma is_positive_sint: "is_positive known m \<longleftrightarrow> money_valid known m \<and> 0 < sint (minor m)"
  by (simp add: is_positive_def go_int)

lemma is_positive_valid: "is_positive known m \<Longrightarrow> money_valid known m"
  by (simp add: is_positive_def)

lemma money_from_minor_Inr [go_res]:
  "money_from_minor known n c = Inr m \<longleftrightarrow>
   valid_currency known c \<and> m = \<lparr>minor = n, currency = c\<rparr>"
  by (auto simp: money_from_minor_def)

lemma money_from_minor_valid: "money_from_minor known n c = Inr m \<Longrightarrow> money_valid known m"
  by (auto simp: go_res money_valid_def)

lemma add_guard:
  fixes a b :: int64
  shows "(0 < sint b \<and> sint (max_int64 - b) < sint a) \<or> (sint b < 0 \<and> sint a < sint (min_int64 - b))
   \<longleftrightarrow> \<not> fits64 (sint a + sint b)"
  using sint64_range [of a] sint64_range [of b]
  by (cases "0 < sint b"; cases "sint b < 0")
     (auto simp: fits64_def sint_sub64)

lemma sub_guard:
  fixes a b :: int64
  shows "(0 < sint b \<and> sint a < sint (min_int64 + b)) \<or> (sint b < 0 \<and> sint (max_int64 + b) < sint a)
   \<longleftrightarrow> \<not> fits64 (sint a - sint b)"
  using sint64_range [of a] sint64_range [of b]
  by (cases "0 < sint b"; cases "sint b < 0")
     (auto simp: fits64_def sint_add64)

lemma money_add_eq:
  "money_add known m n =
     (if \<not> money_valid known m \<or> \<not> money_valid known n \<or> currency m \<noteq> currency n
      then Inl ErrCurrencyMismatch
      else if \<not> fits64 (sint (minor m) + sint (minor n)) then Inl ErrOverflow
      else Inr \<lparr>minor = minor m + minor n, currency = currency m\<rparr>)"
  unfolding money_add_def by (simp add: add_guard [symmetric] sless_sint)

lemma money_sub_eq:
  "money_sub known m n =
     (if \<not> money_valid known m \<or> \<not> money_valid known n \<or> currency m \<noteq> currency n
      then Inl ErrCurrencyMismatch
      else if \<not> fits64 (sint (minor m) - sint (minor n)) then Inl ErrOverflow
      else Inr \<lparr>minor = minor m - minor n, currency = currency m\<rparr>)"
  unfolding money_sub_def by (simp add: sub_guard [symmetric] sless_sint)

lemma money_add_Inr:
  "money_add known m n = Inr r \<Longrightarrow>
   money_valid known r \<and> currency r = currency m \<and> currency n = currency m \<and>
   sint (minor r) = sint (minor m) + sint (minor n)"
  by (auto simp: money_add_eq money_valid_def sint_add64 split: if_splits)

lemma money_sub_Inr:
  "money_sub known m n = Inr r \<Longrightarrow>
   money_valid known r \<and> currency r = currency m \<and> currency n = currency m \<and>
   sint (minor r) = sint (minor m) - sint (minor n)"
  by (auto simp: money_sub_eq money_valid_def sint_sub64 split: if_splits)

lemma money_eqI:
  "currency m = currency n \<Longrightarrow> sint (minor m) = sint (minor n) \<Longrightarrow> m = (n :: money)"
  by (simp add: int64_eq_iff)

lemma money_add_iff [go_res]:
  "money_add known m n = Inr r \<longleftrightarrow>
   money_valid known m \<and> money_valid known n \<and> currency n = currency m \<and>
   currency r = currency m \<and> sint (minor r) = sint (minor m) + sint (minor n)"
  (is "?L \<longleftrightarrow> ?R")
proof
  assume ?L
  then have "money_valid known m \<and> money_valid known n"
    by (simp add: money_add_eq split: if_splits)
  with money_add_Inr [OF \<open>?L\<close>] show ?R by blast
next
  assume R: ?R
  then have fit: "fits64 (sint (minor m) + sint (minor n))" by (metis fits64_sint)
  have "r = \<lparr>minor = minor m + minor n, currency = currency m\<rparr>"
    by (rule money_eqI) (simp_all add: R sint_add64 [OF fit])
  with R fit show ?L by (simp add: money_add_eq)
qed

lemma money_sub_iff [go_res]:
  "money_sub known m n = Inr r \<longleftrightarrow>
   money_valid known m \<and> money_valid known n \<and> currency n = currency m \<and>
   currency r = currency m \<and> sint (minor r) = sint (minor m) - sint (minor n)"
  (is "?L \<longleftrightarrow> ?R")
proof
  assume ?L
  then have "money_valid known m \<and> money_valid known n"
    by (simp add: money_sub_eq split: if_splits)
  with money_sub_Inr [OF \<open>?L\<close>] show ?R by blast
next
  assume R: ?R
  then have fit: "fits64 (sint (minor m) - sint (minor n))" by (metis fits64_sint)
  have "r = \<lparr>minor = minor m - minor n, currency = currency m\<rparr>"
    by (rule money_eqI) (simp_all add: R sint_sub64 [OF fit])
  with R fit show ?L by (simp add: money_sub_eq)
qed

section \<open>The language of amounts\<close>

definition decimal :: "string \<Rightarrow> string \<Rightarrow> string" where
  "decimal w f = (if f = [] then w else w @ ''.'' @ f)"

definition pad2 :: "string \<Rightarrow> string" where
  "pad2 f = (if length f = 1 then f @ ''0'' else f)"

definition amount_cents :: "string \<Rightarrow> string \<Rightarrow> nat" where
  "amount_cents w f = dec_value w * 100 + dec_value (pad2 f)"

lemma digit_char_0 [simp]: "digit_char 0 = CHR ''0''"
proof -
  have "char_of (of_char CHR ''0'' :: nat) = CHR ''0''" by (rule char_of_char)
  then show ?thesis by (simp add: digit_char_def)
qed

lemma digit_val_0_iff: "is_digit c \<Longrightarrow> digit_val c = 0 \<longleftrightarrow> c = CHR ''0''"
  by (metis digit_char_0 digit_char_digit_val digit_char_val zero_less_numeral)

lemma digit_val_0 [simp]: "digit_val CHR ''0'' = 0"
  by (simp add: digit_val_def)

lemma is_digit_0 [simp]: "is_digit CHR ''0''"
  by (simp add: is_digit_def)

lemma match_whole:
  "rx_match (RAlt (RChar (\<lambda>c. c = CHR ''0''))
      (RSeq (RChar (\<lambda>c. is_digit c \<and> c \<noteq> CHR ''0'')) (RStar (RChar is_digit)))) w
   \<longleftrightarrow> plain_numeral w"
  by (auto simp: plain_numeral_def digit_val_0_iff)

lemma short_digits_iff:
  "f \<noteq> [] \<and> length f \<le> 2 \<and> list_all is_digit f \<longleftrightarrow>
   (\<exists>d. is_digit d \<and> (f = [d] \<or> (\<exists>e. is_digit e \<and> f = [d, e])))"
  by (cases f rule: remdups_adj.cases) (auto simp: Suc_le_eq)

lemma match_fraction:
  "rx_match (ROpt (RSeq (RChar (\<lambda>c. c = CHR ''.''))
      (RSeq (RChar is_digit) (ROpt (RChar is_digit))))) t
   \<longleftrightarrow> t = [] \<or> (\<exists>f. t = CHR ''.'' # f \<and> f \<noteq> [] \<and> length f \<le> 2 \<and> list_all is_digit f)"
  unfolding short_digits_iff by auto

lemma match_amount:
  "rx_match amount_pattern s \<longleftrightarrow>
   (\<exists>w f. s = decimal w f \<and> plain_numeral w \<and> list_all is_digit f \<and> length f \<le> 2)"
  unfolding amount_pattern_def rx_match_seq match_whole match_fraction decimal_def
proof
  assume "\<exists>u v. s = u @ v \<and> plain_numeral u \<and>
    (v = [] \<or> (\<exists>f. v = CHR ''.'' # f \<and> f \<noteq> [] \<and> length f \<le> 2 \<and> list_all is_digit f))"
  then obtain u v where uv: "s = u @ v" "plain_numeral u"
    "v = [] \<or> (\<exists>f. v = CHR ''.'' # f \<and> f \<noteq> [] \<and> length f \<le> 2 \<and> list_all is_digit f)" by blast
  from uv(3) show "\<exists>w f. s = (if f = [] then w else w @ ''.'' @ f) \<and> plain_numeral w \<and>
    list_all is_digit f \<and> length f \<le> 2"
  proof
    assume "v = []"
    with uv show ?thesis by (intro exI [of _ u] exI [of _ "[]"]) simp
  next
    assume "\<exists>f. v = CHR ''.'' # f \<and> f \<noteq> [] \<and> length f \<le> 2 \<and> list_all is_digit f"
    then obtain f where "v = CHR ''.'' # f" "f \<noteq> []" "length f \<le> 2" "list_all is_digit f" by blast
    with uv show ?thesis by (intro exI [of _ u] exI [of _ f]) simp
  qed
next
  assume "\<exists>w f. s = (if f = [] then w else w @ ''.'' @ f) \<and> plain_numeral w \<and>
    list_all is_digit f \<and> length f \<le> 2"
  then obtain w f where wf: "s = (if f = [] then w else w @ ''.'' @ f)" "plain_numeral w"
    "list_all is_digit f" "length f \<le> 2" by blast
  then show "\<exists>u v. s = u @ v \<and> plain_numeral u \<and>
    (v = [] \<or> (\<exists>f. v = CHR ''.'' # f \<and> f \<noteq> [] \<and> length f \<le> 2 \<and> list_all is_digit f))"
    by (cases "f = []") (auto intro: exI [of _ w])
qed

lemma digits_no_point: "list_all is_digit w \<Longrightarrow> CHR ''.'' \<notin> set w"
  by (auto simp: list_all_iff dest: digit_not_sign)

lemma split_decimal:
  assumes "plain_numeral w"
  shows "split_amount (decimal w f) = (w, pad2 f)"
proof -
  have w: "CHR ''.'' \<notin> set w" "w \<noteq> []"
    using plain_numeral_digits [OF assms] digits_no_point by auto
  have tw: "takeWhile (\<lambda>c. c \<noteq> CHR ''.'') (w @ CHR ''.'' # f) = w"
    using w(1) by (subst takeWhile_append2) auto
  have dw: "dropWhile (\<lambda>c. c \<noteq> CHR ''.'') (w @ CHR ''.'' # f) = CHR ''.'' # f"
    using w(1) by (subst dropWhile_append2) auto
  show ?thesis
    using w by (auto simp: split_amount_def decimal_def pad2_def tw dw)
qed

lemma dec_value_two: "dec_value [d, e] = digit_val d * 10 + digit_val e"
  by (simp add: dec_value_def)

lemma pad2_digits:
  assumes "list_all is_digit f" and "length f \<le> 2"
  shows "list_all is_digit (pad2 f)" "dec_value (pad2 f) < 100"
proof -
  show "list_all is_digit (pad2 f)" using assms(1) by (simp add: pad2_def)
  consider "f = []" | d where "f = [d]" | d e where "f = [d, e]"
    using assms(2) by (cases f rule: remdups_adj.cases) auto
  then show "dec_value (pad2 f) < 100"
  proof cases
    case 1
    then show ?thesis by (simp add: pad2_def)
  next
    case (2 d)
    with assms(1) show ?thesis
      using digit_val_less [of d] by (simp add: pad2_def dec_value_two digit_val_0_iff digit_val_def)
  next
    case (3 d e)
    with assms(1) show ?thesis
      using digit_val_less [of d] digit_val_less [of e] by (simp add: pad2_def dec_value_two)
  qed
qed

lemma quot_max_100: "sint (go_quot max_int64 100) = 92233720368547758"
  by (simp add: go_quot_def signed_divide_int_def)

lemma rem_max_100: "sint (go_rem max_int64 100) = 7"
  by (simp add: go_rem_def signed_modulo_int_def signed_divide_int_def)

lemma parse_fraction:
  assumes "list_all is_digit f" and "length f \<le> 2"
  shows "sint (if pad2 f \<noteq> [] then fst (parse_int64 (pad2 f)) else 0) = int (dec_value (pad2 f))"
proof (cases "pad2 f = []")
  case True
  then show ?thesis by simp
next
  case False
  with pad2_digits [OF assms] show ?thesis
    by (simp add: parse_int64_digits sint_of_nat64)
qed

lemma parse_money_decimal:
  assumes w: "plain_numeral w" and f: "list_all is_digit f" "length f \<le> 2"
    and c: "valid_currency known c"
  shows "parse_money known (decimal w f) c =
    (if amount_cents w f \<le> 9223372036854775807
     then Inr \<lparr>minor = word_of_int (int (amount_cents w f)), currency = c\<rparr>
     else Inl ErrOverflow)"
proof -
  let ?f = "if pad2 f \<noteq> [] then fst (parse_int64 (pad2 f)) else 0"
  have m: "rx_match amount_pattern (decimal w f)"
    unfolding match_amount using w f by blast
  have fr: "sint ?f = int (dec_value (pad2 f))" by (rule parse_fraction [OF f])
  have f100: "dec_value (pad2 f) < 100" by (rule pad2_digits [OF f])
  note pw = parse_int64_digits [OF plain_numeral_digits [OF w, THEN conjunct1]
    plain_numeral_digits [OF w, THEN conjunct2]]
  show ?thesis
  proof (cases "dec_value w \<le> 92233720368547758")
    case False
    then show ?thesis
      using c m by (auto simp: parse_money_def split_decimal [OF w] pw go_int quot_max_100
          sint_of_nat64 amount_cents_def Let_def)
  next
    case True
    let ?w = "of_nat (dec_value w) :: int64"
    have sw: "sint ?w = int (dec_value w)" using True by (simp add: sint_of_nat64)
    have "?w = go_quot max_int64 100 \<longleftrightarrow> dec_value w = 92233720368547758"
      by (simp add: int64_eq_iff sw quot_max_100)
    moreover have "?w * 100 + ?f = of_nat (amount_cents w f)"
      if le: "amount_cents w f \<le> 9223372036854775807"
    proof -
      have w100: "sint (?w * 100) = int (dec_value w) * 100"
        using True by (subst sint_mult64) (simp_all add: sw fits64_def)
      have "sint (?w * 100 + ?f) = sint (?w * 100) + sint ?f"
        using le unfolding amount_cents_def
        by (intro sint_add64) (simp add: w100 fr fits64_def del: if_split)
      then show ?thesis
        using sint_of_nat64 [OF le] by (simp add: int64_eq_iff w100 fr amount_cents_def del: if_split)
    qed
    moreover have "amount_cents w f \<le> 9223372036854775807 \<longleftrightarrow>
        \<not> (dec_value w = 92233720368547758 \<and> 7 < dec_value (pad2 f))"
      using True f100 by (auto simp: amount_cents_def)
    ultimately show ?thesis
      using c m True by (simp add: parse_money_def split_decimal [OF w] pw go_int quot_max_100
          rem_max_100 sw fr del: if_split cong: if_cong)
  qed
qed

section \<open>Rendering\<close>

definition two_digits :: "nat \<Rightarrow> string" where
  "two_digits n = [digit_char (n div 10), digit_char (n mod 10)]"

lemma two_digits_value [simp]: "n < 100 \<Longrightarrow> dec_value (two_digits n) = n"
  by (simp add: two_digits_def dec_value_two)

lemma two_digits_facts:
  "n < 100 \<Longrightarrow> list_all is_digit (two_digits n) \<and> length (two_digits n) = 2 \<and>
   pad2 (two_digits n) = two_digits n \<and> two_digits n \<noteq> []"
  by (simp add: two_digits_def pad2_def)

lemma fmt_02d_two_digits:
  assumes "sint v = int n" and "n < 100"
  shows "fmt_02d v = two_digits n"
proof (cases "n < 10")
  case True
  with assms show ?thesis
    by (simp add: fmt_02d_def fmt_d_def two_digits_def digits_of_small)
next
  case False
  with assms show ?thesis
    by (simp add: fmt_02d_def fmt_d_def two_digits_def digits_of_big digits_of_small)
qed

lemma sint_quot_100: "sint (go_quot v 100) = sgn (sint v) * (\<bar>sint v\<bar> div 100)"
proof -
  have "fits64 (sgn (sint v) * (\<bar>sint v\<bar> div 100))"
    using sint64_range [of v] by (auto simp: fits64_def sgn_if)
  from sint_of_int64 [OF this] show ?thesis
    by (simp add: go_quot_def signed_divide_int_def del: of_int_mult)
qed

lemma sint_rem_100: "sint (go_rem v 100) = sgn (sint v) * (\<bar>sint v\<bar> mod 100)"
proof -
  have "sint v smod 100 = sgn (sint v) * (\<bar>sint v\<bar> mod 100)"
    using div_mult_mod_eq [of "\<bar>sint v\<bar>" 100]
    by (auto simp: signed_modulo_int_def signed_divide_int_def sgn_if)
  moreover have "fits64 (sgn (sint v) * (\<bar>sint v\<bar> mod 100))"
    by (auto simp: fits64_def sgn_if)
  ultimately show ?thesis
    using sint_of_int64 [of "sgn (sint v) * (\<bar>sint v\<bar> mod 100)"]
    by (simp add: go_rem_def del: of_int_mult)
qed

lemma sint_neg_small:
  fixes v :: int64
  assumes "- 9223372036854775808 < sint v"
  shows "sint (- v) = - sint v"
  using assms sint64_range [of v] by (intro sint_neg64) (simp add: fits64_def)

lemma money_amount_text:
  assumes "money_valid known m"
  shows "money_amount known m =
    Inr ((if sint (minor m) < 0 then ''-'' else []) @
         decimal (digits_of (nat \<bar>sint (minor m)\<bar> div 100))
                 (two_digits (nat \<bar>sint (minor m)\<bar> mod 100)))"
proof -
  let ?v = "sint (minor m)"
  let ?n = "nat \<bar>?v\<bar>"
  have dm: "nat (\<bar>?v\<bar> div 100) = ?n div 100" "nat (\<bar>?v\<bar> mod 100) = ?n mod 100"
    by (simp_all add: nat_div_distrib nat_mod_distrib)
  show ?thesis
  proof (cases "?v < 0")
    case True
    have q: "sint (- go_quot (minor m) 100) = \<bar>?v\<bar> div 100"
      using True sint64_range [of "minor m"]
      by (subst sint_neg_small) (auto simp: sint_quot_100)
    have r: "sint (- go_rem (minor m) 100) = int (?n mod 100)"
      using True by (subst sint_neg_small) (auto simp: sint_rem_100 nat_mod_distrib zmod_int)
    have "fmt_d (- go_quot (minor m) 100) = digits_of (?n div 100)"
      using q by (simp add: fmt_d_def dm pos_imp_zdiv_neg_iff)
    moreover have "fmt_02d (- go_rem (minor m) 100) = two_digits (?n mod 100)"
      using r by (rule fmt_02d_two_digits) simp
    ultimately show ?thesis
      using assms True by (simp add: money_amount_def go_int decimal_def two_digits_def)
  next
    case False
    have q: "sint (go_quot (minor m) 100) = \<bar>?v\<bar> div 100"
      using False by (auto simp: sint_quot_100 sgn_if)
    have r: "sint (go_rem (minor m) 100) = int (?n mod 100)"
      using False by (auto simp: sint_rem_100 sgn_if zmod_int)
    have "fmt_d (go_quot (minor m) 100) = digits_of (?n div 100)"
      using q by (simp add: fmt_d_def dm pos_imp_zdiv_neg_iff)
    moreover have "fmt_02d (go_rem (minor m) 100) = two_digits (?n mod 100)"
      using r by (rule fmt_02d_two_digits) simp
    ultimately show ?thesis
      using assms False by (simp add: money_amount_def go_int decimal_def two_digits_def)
  qed
qed

lemma amount_cents_digits: "amount_cents (digits_of (n div 100)) (two_digits (n mod 100)) = n"
  by (simp add: amount_cents_def two_digits_facts)

section \<open>Properties\<close>

text \<open>
  C32: \<^verbatim>\<open>ParseMoney\<close> accepts exactly the numerals of the documented grammar (a whole part
  without superfluous zeros and at most two decimals) in a known currency whose value in cents
  fits \<^verbatim>\<open>int64\<close>, and the result is that value: no branch of the
  \<^verbatim>\<open>int64\<close> arithmetic wraps or truncates.
\<close>

theorem parse_money_exact:
  "parse_money known s c = Inr m \<longleftrightarrow>
   valid_currency known c \<and> currency m = c \<and>
   (\<exists>w f. s = decimal w f \<and> plain_numeral w \<and> list_all is_digit f \<and> length f \<le> 2 \<and>
          amount_cents w f \<le> 9223372036854775807 \<and> sint (minor m) = int (amount_cents w f))"
proof (cases "valid_currency known c \<and> rx_match amount_pattern s")
  case True
  then obtain w f where wf: "s = decimal w f" "plain_numeral w" "list_all is_digit f" "length f \<le> 2"
    unfolding match_amount by blast
  have cents: "amount_cents w' f' = amount_cents w f"
    if "s = decimal w' f'" "plain_numeral w'" for w' f'
    using split_decimal [OF wf(2), of f] split_decimal [OF that(2), of f'] wf(1) that(1)
    by (simp add: amount_cents_def)
  have "parse_money known s c = Inr m \<longleftrightarrow>
     amount_cents w f \<le> 9223372036854775807 \<and> currency m = c \<and>
     sint (minor m) = int (amount_cents w f)"
    using parse_money_decimal [of w f known c] wf True
    by (auto simp: sint_of_nat64 intro!: money_eqI)
  also have "\<dots> \<longleftrightarrow> valid_currency known c \<and> currency m = c \<and>
   (\<exists>w f. s = decimal w f \<and> plain_numeral w \<and> list_all is_digit f \<and> length f \<le> 2 \<and>
          amount_cents w f \<le> 9223372036854775807 \<and> sint (minor m) = int (amount_cents w f))"
    (is "?L \<longleftrightarrow> ?R")
  proof
    assume ?L
    with True wf show ?R by blast
  next
    assume ?R
    then obtain w' f' where R: "s = decimal w' f'" "plain_numeral w'" "currency m = c"
      "amount_cents w' f' \<le> 9223372036854775807" "sint (minor m) = int (amount_cents w' f')"
      by blast
    with cents [OF R(1,2)] show ?L by simp
  qed
  finally show ?thesis .
next
  case False
  then show ?thesis by (auto simp: parse_money_def match_amount)
qed

text \<open>
  C33: Money survives its text form: the amount printed for a valid non-negative value parses
  back to the same value, up to the largest \<^verbatim>\<open>int64\<close>.
\<close>

theorem money_text_roundtrip:
  assumes "money_valid known m" and "0 \<le> sint (minor m)"
  shows "rbind (money_amount known m) (\<lambda>a. parse_money known a (currency m)) = Inr m"
proof -
  let ?n = "nat (sint (minor m))"
  have n: "nat \<bar>sint (minor m)\<bar> = ?n" "?n \<le> 9223372036854775807"
    using assms sint64_range [of "minor m"] by simp_all
  have "parse_money known (decimal (digits_of (?n div 100)) (two_digits (?n mod 100))) (currency m)
      = Inr \<lparr>minor = word_of_int (int ?n), currency = currency m\<rparr>"
    using assms(1) n two_digits_facts [of "?n mod 100"]
    by (subst parse_money_decimal)
       (auto simp: amount_cents_digits plain_numeral_digits_of money_valid_def)
  then show ?thesis
    using assms n by (simp add: money_amount_text)
qed

lemma money_text_roundtrip_witness:
  "rbind (money_amount (\<lambda>c. c = ''BRL'') \<lparr>minor = 2505, currency = ''BRL''\<rparr>)
     (\<lambda>a. parse_money (\<lambda>c. c = ''BRL'') a ''BRL'') = Inr \<lparr>minor = 2505, currency = ''BRL''\<rparr>"
  using money_text_roundtrip [of "\<lambda>c. c = ''BRL''" "\<lparr>minor = 2505, currency = ''BRL''\<rparr>"]
  by (simp add: money_valid_def valid_currency_def currency_pattern_def is_upper_letter_def)

text \<open>
  C34: \<^verbatim>\<open>Add\<close> and \<^verbatim>\<open>Sub\<close> compute the exact sum and difference whenever it is
  representable, and answer \<^verbatim>\<open>ErrOverflow\<close> exactly when it is not; operands that are
  invalid or of different currencies give \<^verbatim>\<open>ErrCurrencyMismatch\<close>.
\<close>

theorem money_arithmetic_exact:
  "money_add known m n =
     (if money_valid known m \<and> money_valid known n \<and> currency m = currency n
      then if fits64 (sint (minor m) + sint (minor n))
           then Inr \<lparr>minor = word_of_int (sint (minor m) + sint (minor n)), currency = currency m\<rparr>
           else Inl ErrOverflow
      else Inl ErrCurrencyMismatch) \<and>
   money_sub known m n =
     (if money_valid known m \<and> money_valid known n \<and> currency m = currency n
      then if fits64 (sint (minor m) - sint (minor n))
           then Inr \<lparr>minor = word_of_int (sint (minor m) - sint (minor n)), currency = currency m\<rparr>
           else Inl ErrOverflow
      else Inl ErrCurrencyMismatch)"
  by (simp add: money_add_eq money_sub_eq)

end
