(* ===== verification/Wallet.thy ===== *)
theory Wallet
  imports Money
begin

text \<open>
  \<^verbatim>\<open>internal/model/wallet.go\<close>: the wallet aggregate. \<^verbatim>\<open>Credit\<close> and
  \<^verbatim>\<open>Debit\<close> have a pointer receiver; their models return the result together with
  the wallet as it is afterwards. The contract the two share is the locale
  \<open>wallet_movement\<close>, interpreted below for each.
\<close>

record wallet =
  w_id :: uuid
  w_player :: uuid
  w_balance :: money
  w_version :: int64
  w_created :: time
  w_updated :: time

definition wallet_valid :: "(string \<Rightarrow> bool) \<Rightarrow> wallet \<Rightarrow> bool" where
  "wallet_valid known w \<longleftrightarrow>
     w_id w \<noteq> uuid_nil \<and> w_player w \<noteq> uuid_nil \<and> money_valid known (w_balance w) \<and>
     0 \<le>s minor (w_balance w) \<and> 1 \<le>s w_version w \<and> w_created w \<noteq> time_zero \<and>
     w_updated w \<noteq> time_zero \<and> \<not> w_updated w < w_created w"

definition new_wallet ::
    "(string \<Rightarrow> bool) \<Rightarrow> uuid \<Rightarrow> uuid \<Rightarrow> money \<Rightarrow> time \<Rightarrow> err + wallet" where
  "new_wallet known wid player initial now =
     (let w = \<lparr>w_id = wid, w_player = player, w_balance = initial, w_version = 1,
               w_created = now, w_updated = now\<rparr>
      in if \<not> wallet_valid known w then Inl ErrInvalidWallet else Inr w)"

definition rehydrate_wallet ::
    "(string \<Rightarrow> bool) \<Rightarrow> uuid \<Rightarrow> uuid \<Rightarrow> money \<Rightarrow> int64 \<Rightarrow> time \<Rightarrow> time \<Rightarrow> err + wallet" where
  "rehydrate_wallet known wid player balance version created updated =
     (let w = \<lparr>w_id = wid, w_player = player, w_balance = balance, w_version = version,
               w_created = created, w_updated = updated\<rparr>
      in if \<not> wallet_valid known w then Inl ErrInvalidWallet else Inr w)"

definition wallet_credit ::
    "(string \<Rightarrow> bool) \<Rightarrow> wallet \<Rightarrow> money \<Rightarrow> time \<Rightarrow> (err + money) \<times> wallet" where
  "wallet_credit known w amount now =
     (if \<not> wallet_valid known w \<or> now < w_updated w then (Inl ErrInvalidWallet, w)
      else if \<not> is_positive known amount \<or> now = time_zero then (Inl ErrInvalidMoney, w)
      else if w_version w = max_int64 then (Inl ErrOverflow, w)
      else if currency (w_balance w) \<noteq> currency amount then (Inl ErrCurrencyMismatch, w)
      else case money_add known (w_balance w) amount of
        Inl e \<Rightarrow> (Inl e, w)
      | Inr nxt \<Rightarrow>
          (Inr (w_balance w), w\<lparr>w_balance := nxt, w_version := w_version w + 1, w_updated := now\<rparr>))"

definition wallet_debit ::
    "(string \<Rightarrow> bool) \<Rightarrow> wallet \<Rightarrow> money \<Rightarrow> time \<Rightarrow> (err + money) \<times> wallet" where
  "wallet_debit known w amount now =
     (if \<not> wallet_valid known w \<or> now < w_updated w then (Inl ErrInvalidWallet, w)
      else if \<not> is_positive known amount \<or> now = time_zero then (Inl ErrInvalidMoney, w)
      else if w_version w = max_int64 then (Inl ErrOverflow, w)
      else if currency (w_balance w) \<noteq> currency amount then (Inl ErrCurrencyMismatch, w)
      else if minor (w_balance w) <s minor amount then (Inl ErrInsufficientFunds, w)
      else case money_sub known (w_balance w) amount of
        Inl e \<Rightarrow> (Inl e, w)
      | Inr nxt \<Rightarrow>
          (Inr (w_balance w), w\<lparr>w_balance := nxt, w_version := w_version w + 1, w_updated := now\<rparr>))"

section \<open>What a movement promises\<close>

lemma rehydrate_wallet_Inr [go_res]:
  "rehydrate_wallet known wid p b v c u = Inr w \<longleftrightarrow>
   wallet_valid known w \<and>
   w = \<lparr>w_id = wid, w_player = p, w_balance = b, w_version = v, w_created = c, w_updated = u\<rparr>"
  by (auto simp: rehydrate_wallet_def Let_def)

lemma new_wallet_Inr [go_res]:
  "new_wallet known wid p b t = Inr w \<longleftrightarrow>
   wallet_valid known w \<and>
   w = \<lparr>w_id = wid, w_player = p, w_balance = b, w_version = 1, w_created = t, w_updated = t\<rparr>"
  by (auto simp: new_wallet_def Let_def)

lemma wallet_validD:
  assumes "wallet_valid known w"
  shows "money_valid known (w_balance w)" and "0 \<le> sint (minor (w_balance w))"
    and "1 \<le> sint (w_version w)" and "w_id w \<noteq> 0"
  using assms by (auto simp: wallet_valid_def go_int)

lemma version_next:
  fixes v :: int64
  assumes "v \<noteq> max_int64"
  shows "sint (v + 1) = sint v + 1"
proof -
  have "sint v < 9223372036854775807"
    using assms sint64_range [of v] by (auto simp: int64_eq_iff)
  with sint64_range [of v] show ?thesis
    by (subst sint_add64) (auto simp: fits64_def)
qed

text \<open>
  A movement either fails and leaves the wallet alone, or returns the previous balance and
  moves it by \<open>delta\<close> of the amount, raising the version by one.
\<close>

locale wallet_movement =
  fixes known :: "string \<Rightarrow> bool"
    and move :: "wallet \<Rightarrow> money \<Rightarrow> time \<Rightarrow> (err + money) \<times> wallet"
    and delta :: "money \<Rightarrow> int"
  assumes move_error: "fst (move w a t) = Inl e \<Longrightarrow> snd (move w a t) = w"
    and move_guard: "fst (move w a t) = Inr b \<Longrightarrow>
      wallet_valid known w \<and> is_positive known a \<and> currency a = currency (w_balance w) \<and>
      w_updated w \<le> t \<and> t \<noteq> 0 \<and> w_version w \<noteq> max_int64"
    and move_effect: "fst (move w a t) = Inr b \<Longrightarrow>
      b = w_balance w \<and>
      (\<exists>nxt. snd (move w a t) =
              w\<lparr>w_balance := nxt, w_version := w_version w + 1, w_updated := t\<rparr> \<and>
            money_valid known nxt \<and> currency nxt = currency (w_balance w) \<and>
            sint (minor nxt) = sint (minor (w_balance w)) + delta a \<and> 0 \<le> sint (minor nxt))"
begin

lemma move_valid:
  assumes "fst (move w a t) = Inr b"
  shows "wallet_valid known (snd (move w a t))"
proof -
  from move_guard [OF assms] have g: "wallet_valid known w" "w_updated w \<le> t" "t \<noteq> 0"
    "w_version w \<noteq> max_int64" by simp_all
  moreover obtain nxt where
    "snd (move w a t) = w\<lparr>w_balance := nxt, w_version := w_version w + 1, w_updated := t\<rparr>"
    "money_valid known nxt" "0 \<le> sint (minor nxt)"
    using move_effect [OF assms] by blast
  ultimately show ?thesis
    using version_next [OF g(4)] by (auto simp: wallet_valid_def go_int)
qed

lemma move_balance:
  "fst (move w a t) = Inr b \<Longrightarrow>
   sint (minor (w_balance (snd (move w a t)))) = sint (minor b) + delta a"
  using move_effect by fastforce

lemma move_version:
  "fst (move w a t) = Inr b \<Longrightarrow> sint (w_version (snd (move w a t))) = sint (w_version w) + 1"
  using move_effect [of w a t b] move_guard [of w a t b] by (auto simp: version_next)

lemma move_version_ne:
  "fst (move w a t) = Inr b \<Longrightarrow> w_version (snd (move w a t)) = w_version w + 1"
  using move_effect [of w a t b] by auto

lemma move_identity:
  assumes "fst (move w a t) = Inr b"
  shows "w_id (snd (move w a t)) = w_id w" and "w_player (snd (move w a t)) = w_player w"
    and "currency (w_balance (snd (move w a t))) = currency (w_balance w)"
    and "w_created (snd (move w a t)) = w_created w" and "w_updated (snd (move w a t)) = t"
    and "b = w_balance w"
  using move_effect [OF assms] by auto

lemma move_keeps_valid: "wallet_valid known w \<Longrightarrow> wallet_valid known (snd (move w a t))"
  using move_valid move_error by (cases "fst (move w a t)") auto

end

interpretation crd: wallet_movement known "wallet_credit known" "\<lambda>a. sint (minor a)"
  for known
proof unfold_locales
  fix w a t e
  show "fst (wallet_credit known w a t) = Inl e \<Longrightarrow> snd (wallet_credit known w a t) = w"
    by (auto simp: wallet_credit_def split: if_splits sum.splits)
next
  fix w a t b
  assume ok: "fst (wallet_credit known w a t) = Inr b"
  then show "wallet_valid known w \<and> is_positive known a \<and> currency a = currency (w_balance w) \<and>
      w_updated w \<le> t \<and> t \<noteq> 0 \<and> w_version w \<noteq> max_int64"
    by (auto simp: wallet_credit_def split: if_splits sum.splits)
  from ok show "b = w_balance w \<and>
      (\<exists>nxt. snd (wallet_credit known w a t) =
              w\<lparr>w_balance := nxt, w_version := w_version w + 1, w_updated := t\<rparr> \<and>
            money_valid known nxt \<and> currency nxt = currency (w_balance w) \<and>
            sint (minor nxt) = sint (minor (w_balance w)) + sint (minor a) \<and> 0 \<le> sint (minor nxt))"
    using wallet_validD(2) [of known w]
    by (auto simp: wallet_credit_def is_positive_sint dest!: money_add_Inr
        split: if_splits sum.splits)
qed

interpretation deb: wallet_movement known "wallet_debit known" "\<lambda>a. - sint (minor a)"
  for known
proof unfold_locales
  fix w a t e
  show "fst (wallet_debit known w a t) = Inl e \<Longrightarrow> snd (wallet_debit known w a t) = w"
    by (auto simp: wallet_debit_def split: if_splits sum.splits)
next
  fix w a t b
  assume ok: "fst (wallet_debit known w a t) = Inr b"
  then show "wallet_valid known w \<and> is_positive known a \<and> currency a = currency (w_balance w) \<and>
      w_updated w \<le> t \<and> t \<noteq> 0 \<and> w_version w \<noteq> max_int64"
    by (auto simp: wallet_debit_def split: if_splits sum.splits)
  from ok show "b = w_balance w \<and>
      (\<exists>nxt. snd (wallet_debit known w a t) =
              w\<lparr>w_balance := nxt, w_version := w_version w + 1, w_updated := t\<rparr> \<and>
            money_valid known nxt \<and> currency nxt = currency (w_balance w) \<and>
            sint (minor nxt) = sint (minor (w_balance w)) + - sint (minor a) \<and> 0 \<le> sint (minor nxt))"
    by (auto simp: wallet_debit_def go_int dest!: money_sub_Inr split: if_splits sum.splits)
qed

section \<open>Sequences of movements\<close>

datatype movement = MCredit money time | MDebit money time

fun apply_movement :: "(string \<Rightarrow> bool) \<Rightarrow> movement \<Rightarrow> wallet \<Rightarrow> (err + money) \<times> wallet" where
  "apply_movement known (MCredit a t) w = wallet_credit known w a t"
| "apply_movement known (MDebit a t) w = wallet_debit known w a t"

fun movement_delta :: "movement \<Rightarrow> int" where
  "movement_delta (MCredit a t) = sint (minor a)"
| "movement_delta (MDebit a t) = - sint (minor a)"

text \<open>The wallet after a list of attempts, with the amounts of those that succeeded.\<close>

fun run_movements :: "(string \<Rightarrow> bool) \<Rightarrow> movement list \<Rightarrow> wallet \<Rightarrow> wallet \<times> int list" where
  "run_movements known [] w = (w, [])"
| "run_movements known (m # ms) w =
     (case apply_movement known m w of
        (Inl e, w') \<Rightarrow> run_movements known ms w'
      | (Inr b, w') \<Rightarrow>
          (let (w'', ds) = run_movements known ms w' in (w'', movement_delta m # ds)))"

lemma apply_movement_effect:
  assumes "wallet_valid known w" and "apply_movement known m w = (r, w')"
  shows "wallet_valid known w' \<and> w_id w' = w_id w \<and> w_player w' = w_player w \<and>
    (case r of
       Inl e \<Rightarrow> w' = w
     | Inr b \<Rightarrow> b = w_balance w \<and> movement_delta m \<noteq> 0 \<and>
         sint (minor (w_balance w')) = sint (minor (w_balance w)) + movement_delta m \<and>
         sint (w_version w') = sint (w_version w) + 1)"
proof (cases m)
  case (MCredit a t)
  with assms have r: "fst (wallet_credit known w a t) = r" "snd (wallet_credit known w a t) = w'"
    by simp_all
  show ?thesis
  proof (cases r)
    case (Inl e)
    then show ?thesis using r assms(1) crd.move_error [of known w a t e] by simp
  next
    case (Inr b)
    then show ?thesis
      using r MCredit crd.move_valid [of known w a t b] crd.move_balance [of known w a t b]
        crd.move_version [of known w a t b] crd.move_identity [of known w a t b]
        crd.move_guard [of known w a t b]
      by (simp add: is_positive_sint)
  qed
next
  case (MDebit a t)
  with assms have r: "fst (wallet_debit known w a t) = r" "snd (wallet_debit known w a t) = w'"
    by simp_all
  show ?thesis
  proof (cases r)
    case (Inl e)
    then show ?thesis using r assms(1) deb.move_error [of known w a t e] by simp
  next
    case (Inr b)
    then show ?thesis
      using r MDebit deb.move_valid [of known w a t b] deb.move_balance [of known w a t b]
        deb.move_version [of known w a t b] deb.move_identity [of known w a t b]
        deb.move_guard [of known w a t b]
      by (simp add: is_positive_sint)
  qed
qed

section \<open>Properties\<close>

text \<open>
  C28: Whatever sequence of credits and debits is attempted on a valid wallet, it stays valid
  (its balance never goes below zero), a failed attempt changes nothing, its balance is the
  initial one plus the successful movements, and its version counts them.
\<close>

theorem wallet_movements_accounted:
  assumes "wallet_valid known w" and "run_movements known ms w = (w', ds)"
  shows "wallet_valid known w' \<and> 0 \<le> sint (minor (w_balance w')) \<and>
    sint (minor (w_balance w')) = sint (minor (w_balance w)) + sum_list ds \<and>
    sint (w_version w') = sint (w_version w) + int (length ds) \<and>
    w_id w' = w_id w \<and> w_player w' = w_player w"
  using assms
proof (induction ms arbitrary: w ds)
  case Nil
  then show ?case by (auto dest: wallet_validD)
next
  case (Cons m ms)
  obtain r w1 where step: "apply_movement known m w = (r, w1)" by fastforce
  note eff = apply_movement_effect [OF Cons.prems(1) step]
  from Cons.prems(2) step obtain ds2 where rest: "run_movements known ms w1 = (w', ds2)"
    by (auto split: sum.splits prod.splits)
  from eff have "wallet_valid known w1" by simp
  from Cons.IH [OF this rest] eff Cons.prems(2) step rest show ?case
    by (cases r) auto
qed

lemma wallet_movements_accounted_witness:
  "let brl = (\<lambda>n. \<lparr>minor = n, currency = ''BRL''\<rparr>);
       w = \<lparr>w_id = 1, w_player = 2, w_balance = brl 100, w_version = 1, w_created = 5, w_updated = 5\<rparr>;
       known = (\<lambda>c. c = ''BRL'');
       (w', ds) = run_movements known [MDebit (brl 80) 6, MDebit (brl 80) 7, MCredit (brl 5) 8] w
   in wallet_valid known w \<and> ds = [- 80, 5] \<and> minor (w_balance w') = 25 \<and>
      sint (w_version w') = sint (w_version w) + int (length ds)"
proof -
  let ?brl = "\<lambda>n :: int64. \<lparr>minor = n, currency = ''BRL''\<rparr>"
  let ?w = "\<lparr>w_id = 1, w_player = 2, w_balance = ?brl 100, w_version = 1, w_created = 5, w_updated = 5\<rparr>"
  let ?known = "\<lambda>c. c = ''BRL''"
  let ?ms = "[MDebit (?brl 80) 6, MDebit (?brl 80) 7, MCredit (?brl 5) 8]"
  have valid: "wallet_valid ?known ?w"
    by (simp add: wallet_valid_def money_valid_def valid_currency_def currency_pattern_def
        is_upper_letter_def go_int)
  have run: "run_movements ?known ?ms ?w =
    (\<lparr>w_id = 1, w_player = 2, w_balance = ?brl 25, w_version = 3, w_created = 5, w_updated = 8\<rparr>,
     [- 80, 5])"
    by (simp add: wallet_debit_def wallet_credit_def money_sub_def money_add_def is_positive_def
        wallet_valid_def money_valid_def valid_currency_def currency_pattern_def
        is_upper_letter_def max_int64_def min_int64_def go_int)
  show ?thesis
    using valid wallet_movements_accounted [OF valid run] unfolding Let_def run by simp
qed



end
