(* ===== verification/Transaction.thy ===== *)
theory Transaction
  imports Money
begin

text \<open>
  \<^verbatim>\<open>internal/model/transaction.go\<close>: the kinds and statuses of a wager transaction, the
  validation of an operation by kind and the status machine. \<^verbatim>\<open>Kind\<close> and
  \<^verbatim>\<open>Status\<close> are Go strings; the constructors \<open>OtherKind\<close> and
  \<open>OtherStatus\<close> stand for every string that is not one of the constants (the zero value
  among them).
\<close>

datatype kind = Opening | Bet | Win | Loss | Refund | Rollback | OtherKind string

datatype status = Pending | PendingReference | Processed | Rejected | Failed | OtherStatus string

definition validate_operation :: "(string \<Rightarrow> bool) \<Rightarrow> kind \<Rightarrow> money \<Rightarrow> string \<Rightarrow> err + unit" where
  "validate_operation known k m reference =
     (if \<not> money_valid known m \<or> minor m <s 0 then Inl ErrInvalidTransaction
      else case k of
        Bet \<Rightarrow>
          if \<not> is_positive known m \<or> (k = Bet \<and> reference \<noteq> []) then Inl ErrInvalidTransaction
          else Inr ()
      | Win \<Rightarrow>
          if \<not> is_positive known m \<or> (k = Bet \<and> reference \<noteq> []) then Inl ErrInvalidTransaction
          else Inr ()
      | Loss \<Rightarrow>
          if \<not> is_zero known m \<or> reference \<noteq> [] then Inl ErrInvalidTransaction else Inr ()
      | Refund \<Rightarrow>
          if \<not> is_positive known m \<or> reference = [] then Inl ErrInvalidTransaction else Inr ()
      | Rollback \<Rightarrow>
          if \<not> is_positive known m \<or> reference = [] then Inl ErrInvalidTransaction else Inr ()
      | _ \<Rightarrow> Inl ErrInvalidTransaction)"

record transaction_state =
  ts_status :: status

definition new_transaction_state :: transaction_state where
  "new_transaction_state = \<lparr>ts_status = Pending\<rparr>"

definition rehydrate_transaction_state :: "status \<Rightarrow> err + transaction_state" where
  "rehydrate_transaction_state s =
     (case s of
        Pending \<Rightarrow> Inr \<lparr>ts_status = s\<rparr>
      | PendingReference \<Rightarrow> Inr \<lparr>ts_status = s\<rparr>
      | Processed \<Rightarrow> Inr \<lparr>ts_status = s\<rparr>
      | Rejected \<Rightarrow> Inr \<lparr>ts_status = s\<rparr>
      | Failed \<Rightarrow> Inr \<lparr>ts_status = s\<rparr>
      | OtherStatus x \<Rightarrow> Inl ErrInvalidTransaction)"

definition transaction_state_valid :: "transaction_state \<Rightarrow> bool" where
  "transaction_state_valid s =
     (case ts_status s of
        Pending \<Rightarrow> True | PendingReference \<Rightarrow> True | Processed \<Rightarrow> True
      | Rejected \<Rightarrow> True | Failed \<Rightarrow> True | OtherStatus x \<Rightarrow> False)"

text \<open>\<^verbatim>\<open>Transition\<close> on a pointer receiver: an error leaves the state as it is.\<close>

definition state_transition :: "transaction_state \<Rightarrow> status \<Rightarrow> err + transaction_state" where
  "state_transition s nxt =
     (if \<not> transaction_state_valid s then Inl ErrInvalidTransaction
      else if ts_status s = Processed \<or> ts_status s = Rejected \<or> ts_status s = Failed
      then Inl ErrTerminalTransaction
      else if nxt \<noteq> PendingReference \<and> nxt \<noteq> Processed \<and> nxt \<noteq> Rejected \<and> nxt \<noteq> Failed
      then Inl ErrInvalidTransaction
      else Inr (s\<lparr>ts_status := nxt\<rparr>))"

definition terminal :: "status \<Rightarrow> bool" where
  "terminal s \<longleftrightarrow> s = Processed \<or> s = Rejected \<or> s = Failed"

definition known_status :: "status \<Rightarrow> bool" where
  "known_status s \<longleftrightarrow> (\<forall>x. s \<noteq> OtherStatus x)"

section \<open>Facts\<close>

lemma rehydrate_state_Inr [go_res]:
  "rehydrate_transaction_state s = Inr st \<longleftrightarrow> known_status s \<and> st = \<lparr>ts_status = s\<rparr>"
  by (cases s) (auto simp: rehydrate_transaction_state_def known_status_def)

lemma rehydrate_state_Inl:
  "rehydrate_transaction_state s = Inl e \<longleftrightarrow> \<not> known_status s \<and> e = ErrInvalidTransaction"
  by (cases s) (auto simp: rehydrate_transaction_state_def known_status_def)

lemma known_status_simps [simp]:
  "known_status Pending" "known_status PendingReference" "known_status Processed"
  "known_status Rejected" "known_status Failed" "\<not> known_status (OtherStatus x)"
  by (simp_all add: known_status_def)

lemma terminal_simps [simp]:
  "\<not> terminal Pending" "\<not> terminal PendingReference" "terminal Processed"
  "terminal Rejected" "terminal Failed" "\<not> terminal (OtherStatus x)"
  by (simp_all add: terminal_def)

lemma state_transition_Inr [go_res]:
  "state_transition s nxt = Inr s' \<longleftrightarrow>
   (ts_status s = Pending \<or> ts_status s = PendingReference) \<and>
   (nxt = PendingReference \<or> terminal nxt) \<and> s' = s\<lparr>ts_status := nxt\<rparr>"
  by (cases "ts_status s"; cases nxt)
     (auto simp: state_transition_def transaction_state_valid_def)

lemma state_transition_leaves_pending:
  "state_transition s nxt = Inr s' \<Longrightarrow> known_status (ts_status s') \<and> ts_status s' \<noteq> Pending"
  by (auto simp: go_res terminal_def)

lemma validate_operation_ok [go_res]:
  "validate_operation known k m ref = Inr u \<longleftrightarrow>
   money_valid known m \<and> 0 \<le> sint (minor m) \<and>
   (k \<in> {Bet, Win, Refund, Rollback} \<and> 0 < sint (minor m) \<and>
      (k = Bet \<longrightarrow> ref = []) \<and> (k \<in> {Refund, Rollback} \<longrightarrow> ref \<noteq> []) \<or>
    k = Loss \<and> minor m = 0 \<and> ref = [])"
  by (cases k)
     (auto simp: validate_operation_def is_positive_sint is_zero_def go_int int64_eq_iff)

lemma validate_operation_money:
  "validate_operation known k m ref = Inr u \<Longrightarrow>
   money_valid known m \<and> 0 \<le> sint (minor m) \<and> k \<in> {Bet, Win, Loss, Refund, Rollback}"
  by (auto simp: go_res)

section \<open>Runs of the status machine\<close>

fun run_transitions :: "transaction_state \<Rightarrow> status list \<Rightarrow> transaction_state" where
  "run_transitions s [] = s"
| "run_transitions s (n # ns) =
     (case state_transition s n of Inl e \<Rightarrow> run_transitions s ns | Inr s' \<Rightarrow> run_transitions s' ns)"

lemma run_transitions_terminal:
  "terminal (ts_status s) \<Longrightarrow> run_transitions s ns = s"
  by (induction ns) (auto simp: go_res split: sum.splits)

section \<open>Properties\<close>

text \<open>
  C31: The status machine: from \<^verbatim>\<open>NewTransactionState\<close>, whatever transitions are
  attempted, the status stays one of the five constants; the first terminal status reached is
  final, and \<^verbatim>\<open>PENDING\<close> is never re-entered once left.
\<close>

theorem status_machine_runs:
  "let s = run_transitions new_transaction_state before;
       s' = run_transitions s after
   in known_status (ts_status s') \<and>
      (terminal (ts_status s) \<longrightarrow> s' = s) \<and>
      (ts_status s' = Pending \<longrightarrow> ts_status s = Pending)"
proof -
  have inv: "known_status (ts_status (run_transitions s ns)) \<and>
      (ts_status (run_transitions s ns) = Pending \<longrightarrow> ts_status s = Pending)"
    if "known_status (ts_status s)" for s ns
    using that
  proof (induction ns arbitrary: s)
    case Nil
    then show ?case by simp
  next
    case (Cons n ns)
    show ?case
    proof (cases "state_transition s n")
      case (Inl e)
      with Cons show ?thesis by simp
    next
      case (Inr s1)
      with Cons.IH [of s1] state_transition_leaves_pending [OF Inr] show ?thesis by simp
    qed
  qed
  have "known_status (ts_status (run_transitions new_transaction_state before))"
    by (rule inv [THEN conjunct1]) (simp add: new_transaction_state_def)
  then show ?thesis
    unfolding Let_def using inv run_transitions_terminal by blast
qed

lemma status_machine_runs_witness:
  "terminal (ts_status (run_transitions new_transaction_state [PendingReference, Processed])) \<and>
   run_transitions (run_transitions new_transaction_state [PendingReference, Processed]) [Rejected]
     = run_transitions new_transaction_state [PendingReference, Processed]"
  using status_machine_runs [of "[PendingReference, Processed]" "[Rejected]"]
  by (simp add: new_transaction_state_def state_transition_def transaction_state_valid_def)

text \<open>
  \<^verbatim>\<open>ValidateOperation\<close> accepts exactly the documented table: BET without and REFUND
  and ROLLBACK with a reference, WIN with or without one, each of a positive amount, and LOSS of
  zero without a reference; OPENING and unknown kinds never.
\<close>

lemma validate_operation_table:
  "validate_operation known k m reference = Inr () \<longleftrightarrow>
   valid_currency known (currency m) \<and>
   (case k of
      Bet \<Rightarrow> 0 < sint (minor m) \<and> reference = []
    | Win \<Rightarrow> 0 < sint (minor m)
    | Loss \<Rightarrow> sint (minor m) = 0 \<and> reference = []
    | Refund \<Rightarrow> 0 < sint (minor m) \<and> reference \<noteq> []
    | Rollback \<Rightarrow> 0 < sint (minor m) \<and> reference \<noteq> []
    | Opening \<Rightarrow> False
    | OtherKind x \<Rightarrow> False)"
  by (cases k) (auto simp: go_res money_valid_def int64_eq_iff)

end
