(* ===== verification/Ledger.thy ===== *)
theory Ledger
  imports Money
begin

text \<open>
  \<^verbatim>\<open>internal/model/ledger.go\<close>: one immutable entry of a wallet's ledger and the checks
  its constructor makes. \<^verbatim>\<open>LedgerDirection\<close> is a Go string; \<open>OtherDirection\<close> stands
  for every string but the two constants, and \<open>no_direction\<close> is the empty one.
\<close>

datatype direction = Debit | Credit | OtherDirection string

definition no_direction :: direction where
  "no_direction = OtherDirection []"

record ledger_entry =
  le_id :: uuid
  le_wallet :: uuid
  le_transaction :: uuid
  le_direction :: direction
  le_money :: money
  le_before :: money
  le_after :: money
  le_created :: time

definition new_wallet_ledger_entry ::
    "(string \<Rightarrow> bool) \<Rightarrow> uuid \<Rightarrow> uuid \<Rightarrow> uuid \<Rightarrow> direction \<Rightarrow> money \<Rightarrow> money \<Rightarrow> money \<Rightarrow> time
     \<Rightarrow> err + ledger_entry" where
  "new_wallet_ledger_entry known eid wid tid dir m before after created =
     (if eid = uuid_nil \<or> wid = uuid_nil \<or> tid = uuid_nil \<or> \<not> is_positive known m \<or>
         \<not> money_valid known before \<or> \<not> money_valid known after \<or>
         minor before <s 0 \<or> minor after <s 0 \<or> created = time_zero
      then Inl ErrInvalidLedgerEntry
      else if currency before \<noteq> currency m \<or> currency after \<noteq> currency m
      then Inl ErrCurrencyMismatch
      else
        rbind (case dir of
                 Credit \<Rightarrow> money_add known before m
               | Debit \<Rightarrow> money_sub known before m
               | OtherDirection x \<Rightarrow> Inl ErrInvalidLedgerEntry)
          (\<lambda>expected.
             if expected \<noteq> after then Inl ErrInvalidLedgerEntry
             else Inr \<lparr>le_id = eid, le_wallet = wid, le_transaction = tid, le_direction = dir,
                       le_money = m, le_before = before, le_after = after, le_created = created\<rparr>))"

text \<open>The signed effect of an entry on the balance.\<close>

definition signed_amount :: "direction \<Rightarrow> int \<Rightarrow> int" where
  "signed_amount dir n = (case dir of Credit \<Rightarrow> n | Debit \<Rightarrow> - n | OtherDirection x \<Rightarrow> 0)"

definition known_direction :: "direction \<Rightarrow> bool" where
  "known_direction dir \<longleftrightarrow> dir = Debit \<or> dir = Credit"

lemma known_direction_simps [simp]:
  "known_direction Debit" "known_direction Credit" "\<not> known_direction (OtherDirection x)"
  "\<not> known_direction no_direction"
  by (simp_all add: known_direction_def no_direction_def)

lemma signed_amount_simps [simp]:
  "signed_amount Credit n = n" "signed_amount Debit n = - n"
  by (simp_all add: signed_amount_def)

lemma new_ledger_entry_Inr:
  "new_wallet_ledger_entry known eid wid tid dir m before after created = Inr e \<longleftrightarrow>
   eid \<noteq> 0 \<and> wid \<noteq> 0 \<and> tid \<noteq> 0 \<and> is_positive known m \<and> money_valid known before \<and>
   money_valid known after \<and> 0 \<le> sint (minor before) \<and> 0 \<le> sint (minor after) \<and> created \<noteq> 0 \<and>
   currency before = currency m \<and> currency after = currency m \<and> known_direction dir \<and>
   sint (minor after) = sint (minor before) + signed_amount dir (sint (minor m)) \<and>
   e = \<lparr>le_id = eid, le_wallet = wid, le_transaction = tid, le_direction = dir,
        le_money = m, le_before = before, le_after = after, le_created = created\<rparr>"
    (is "?L \<longleftrightarrow> ?R")
proof (cases dir)
  case Credit
  then show ?thesis
    by (auto simp: new_wallet_ledger_entry_def go_int go_res is_positive_sint split: if_splits)
next
  case Debit
  then show ?thesis
    by (auto simp: new_wallet_ledger_entry_def go_int go_res is_positive_sint split: if_splits)
next
  case (OtherDirection x)
  then show ?thesis
    by (auto simp: new_wallet_ledger_entry_def go_res split: if_splits)
qed

section \<open>The balance equation\<close>

text \<open>
  A ledger entry can be constructed exactly when its identifiers are set, its amount is
  positive, its balances are valid, non-negative and of the amount's currency, and
  \<open>after = before + amount\<close> for a credit or \<open>after = before - amount\<close> for a debit,
  as integers; the entry then records exactly the arguments.
\<close>

lemma ledger_entry_equation:
  "new_wallet_ledger_entry known eid wid tid dir m before after created = Inr e \<longleftrightarrow>
   eid \<noteq> 0 \<and> wid \<noteq> 0 \<and> tid \<noteq> 0 \<and> created \<noteq> 0 \<and> is_positive known m \<and>
   money_valid known before \<and> money_valid known after \<and>
   0 \<le> sint (minor before) \<and> 0 \<le> sint (minor after) \<and>
   currency before = currency m \<and> currency after = currency m \<and>
   (dir = Credit \<and> sint (minor after) = sint (minor before) + sint (minor m) \<or>
    dir = Debit \<and> sint (minor after) = sint (minor before) - sint (minor m)) \<and>
   e = \<lparr>le_id = eid, le_wallet = wid, le_transaction = tid, le_direction = dir,
        le_money = m, le_before = before, le_after = after, le_created = created\<rparr>"
  unfolding new_ledger_entry_Inr by (cases dir) auto

end
