(* ===== verification/Decision.thy ===== *)
theory Decision
  imports Wallet Transaction Ledger
begin

text \<open>
  The financial decision of \<^verbatim>\<open>internal/usecases/wager.go\<close>: the operation a provider
  sends, what the store found of its reference, and \<^verbatim>\<open>Decide\<close>, which moves the wallet
  it is given and says what to record. The contract the store relies on when it calls back into
  a decision function is the locale \<open>decider\<close>, interpreted for \<^verbatim>\<open>Decide\<close> and for
  the callback of \<^verbatim>\<open>Fail\<close>.
\<close>

record operation =
  op_provider :: string
  op_external :: string
  op_key :: string
  op_player :: uuid
  op_wallet :: uuid
  op_round :: string
  op_game :: string
  op_kind :: kind
  op_money :: money
  op_reference :: string

record reference =
  ref_id :: uuid
  ref_kind :: kind
  ref_status :: status
  ref_wallet :: uuid
  ref_player :: uuid
  ref_round :: string
  ref_money :: money
  ref_reversed :: bool

record decision =
  d_status :: status
  d_failure :: string
  d_direction :: direction
  d_before :: money
  d_reference :: uuid

text \<open>A composite literal \<^verbatim>\<open>Decision{Status: s, FailureCode: c}\<close>.\<close>

definition plain_decision :: "status \<Rightarrow> string \<Rightarrow> decision" where
  "plain_decision s c =
     \<lparr>d_status = s, d_failure = c, d_direction = no_direction, d_before = no_money,
      d_reference = uuid_nil\<rparr>"

text \<open>
  The checks \<^verbatim>\<open>Decide\<close> makes before it touches the wallet, in its order; \<open>None\<close>
  lets it go on to the movement.
\<close>

definition decide_checks :: "operation \<Rightarrow> wallet \<Rightarrow> reference option \<Rightarrow> decision option" where
  "decide_checks op w ref =
     (if w_player w \<noteq> op_player op \<or> currency (w_balance w) \<noteq> currency (op_money op)
      then Some (plain_decision Rejected ''WALLET_MISMATCH'')
      else if op_kind op = Loss then Some (plain_decision Processed [])
      else if op_kind op = Win \<and> op_reference op \<noteq> []
      then (case ref of
              None \<Rightarrow> Some (plain_decision PendingReference [])
            | Some r \<Rightarrow>
                if ref_status r = Pending \<or> ref_status r = PendingReference
                then Some (plain_decision PendingReference [])
                else if ref_status r \<noteq> Processed \<or> ref_kind r \<noteq> Bet \<or>
                        ref_player r \<noteq> op_player op \<or> ref_wallet r \<noteq> op_wallet op \<or>
                        ref_round r \<noteq> op_round op \<or>
                        currency (ref_money r) \<noteq> currency (op_money op)
                then Some (plain_decision Rejected ''INVALID_REFERENCE'')
                else None)
      else if op_kind op = Refund \<or> op_kind op = Rollback
      then (case ref of
              None \<Rightarrow> Some (plain_decision PendingReference [])
            | Some r \<Rightarrow>
                if ref_status r = Pending \<or> ref_status r = PendingReference
                then Some (plain_decision PendingReference [])
                else if ref_status r \<noteq> Processed \<or> ref_player r \<noteq> op_player op \<or>
                        ref_wallet r \<noteq> op_wallet op \<or> ref_round r \<noteq> op_round op \<or>
                        ref_money r \<noteq> op_money op \<or> ref_reversed r
                then Some (plain_decision Rejected ''INVALID_REFERENCE'')
                else if op_kind op = Refund \<and> ref_kind r \<noteq> Bet
                then Some (plain_decision Rejected ''INVALID_REFERENCE'')
                else if op_kind op = Rollback \<and> ref_kind r \<noteq> Bet \<and> ref_kind r \<noteq> Win \<and>
                        ref_kind r \<noteq> Refund
                then Some (plain_decision Rejected ''INVALID_REFERENCE'')
                else None)
      else None)"

definition is_debit :: "operation \<Rightarrow> reference option \<Rightarrow> bool" where
  "is_debit op ref \<longleftrightarrow>
     op_kind op = Bet \<or>
     (op_kind op = Rollback \<and>
      (case ref of None \<Rightarrow> False | Some r \<Rightarrow> ref_kind r = Win \<or> ref_kind r = Refund))"

definition decide ::
    "(string \<Rightarrow> bool) \<Rightarrow> operation \<Rightarrow> wallet \<Rightarrow> reference option \<Rightarrow> time \<Rightarrow> decision \<times> wallet" where
  "decide known op w ref now =
     (case decide_checks op w ref of
        Some d \<Rightarrow> (d, w)
      | None \<Rightarrow>
          let debit = is_debit op ref;
              (before, w') =
                (if debit then wallet_debit known w (op_money op) now
                 else wallet_credit known w (op_money op) now)
          in (case before of
                Inl e \<Rightarrow>
                  if e = ErrInsufficientFunds
                  then (plain_decision Rejected
                          (if op_kind op = Rollback then ''REVERSAL_INSUFFICIENT_FUNDS''
                           else ''INSUFFICIENT_FUNDS''), w')
                  else (plain_decision Rejected ''AMOUNT_OVERFLOW'', w')
              | Inr b \<Rightarrow>
                  (\<lparr>d_status = Processed, d_failure = [],
                    d_direction = (if debit then Debit else Credit), d_before = b,
                    d_reference = (case ref of None \<Rightarrow> uuid_nil | Some r \<Rightarrow> ref_id r)\<rparr>, w')))"

text \<open>The callback that \<^verbatim>\<open>Wager.Fail\<close> gives to the store.\<close>

definition fail_decision ::
    "string \<Rightarrow> wallet \<Rightarrow> reference option \<Rightarrow> time \<Rightarrow> decision \<times> wallet" where
  "fail_decision code w ref now = (plain_decision Failed code, w)"

lemma plain_decision_sel [simp]:
  "d_status (plain_decision s c) = s" "d_failure (plain_decision s c) = c"
  "d_direction (plain_decision s c) = no_direction" "d_before (plain_decision s c) = no_money"
  "d_reference (plain_decision s c) = 0"
  by (simp_all add: plain_decision_def)

lemma plain_decision_eq [simp]:
  "plain_decision s c = plain_decision s' c' \<longleftrightarrow> s = s' \<and> c = c'"
  by (auto simp: plain_decision_def)

section \<open>The contract of a decision function\<close>

text \<open>
  What the store relies on when it calls \<^verbatim>\<open>decide(&wallet, ref, now)\<close> for an operation
  whose kind an external caller may use: without a direction the wallet is untouched and only a
  LOSS may be processed; with a direction the wallet has made exactly that movement of the
  operation's amount, and a reversal has a processed reference that was not reversed before.
\<close>

definition external_kind :: "kind \<Rightarrow> bool" where
  "external_kind k \<longleftrightarrow> k \<in> {Bet, Win, Loss, Refund, Rollback}"

definition reversal_kind :: "kind \<Rightarrow> bool" where
  "reversal_kind k \<longleftrightarrow> k = Refund \<or> k = Rollback"

locale decider =
  fixes known :: "string \<Rightarrow> bool"
    and op :: operation
    and dec :: "wallet \<Rightarrow> reference option \<Rightarrow> time \<Rightarrow> decision \<times> wallet"
  assumes dec_still: "dec w ref now = (d, w') \<Longrightarrow> external_kind (op_kind op) \<Longrightarrow>
      d_direction d = no_direction \<Longrightarrow>
      w' = w \<and> (d_status d = Processed \<longrightarrow> op_kind op = Loss) \<and> d_reference d = 0"
    and dec_moves: "dec w ref now = (d, w') \<Longrightarrow> external_kind (op_kind op) \<Longrightarrow>
      d_direction d \<noteq> no_direction \<Longrightarrow>
      d_status d = Processed \<and> d_failure d = [] \<and> op_kind op \<noteq> Loss \<and> d_before d = w_balance w \<and>
      d_direction d = (if is_debit op ref then Debit else Credit) \<and>
      (if is_debit op ref then wallet_debit known w (op_money op) now
       else wallet_credit known w (op_money op) now) = (Inr (w_balance w), w') \<and>
      d_reference d = (case ref of None \<Rightarrow> 0 | Some r \<Rightarrow> ref_id r)"
    and dec_reversal: "dec w ref now = (d, w') \<Longrightarrow> reversal_kind (op_kind op) \<Longrightarrow>
      d_direction d \<noteq> no_direction \<Longrightarrow>
      \<exists>r. ref = Some r \<and> ref_status r = Processed \<and> \<not> ref_reversed r \<and>
          ref_wallet r = op_wallet op \<and> ref_money r = op_money op \<and>
          (op_kind op = Refund \<longrightarrow> ref_kind r = Bet) \<and>
          (op_kind op = Rollback \<longrightarrow> ref_kind r \<in> {Bet, Win, Refund})"
    and dec_pending: "dec w ref now = (d, w') \<Longrightarrow> d_status d = PendingReference \<Longrightarrow>
      op_kind op \<in> {Win, Refund, Rollback} \<and> (op_kind op = Win \<longrightarrow> op_reference op \<noteq> [])"
begin

text \<open>The movement in terms of the wallet's fields.\<close>

lemma dec_movement:
  assumes "dec w ref now = (d, w')" and "external_kind (op_kind op)"
    and "d_direction d \<noteq> no_direction"
  shows "wallet_valid known w \<and> wallet_valid known w' \<and> is_positive known (op_money op) \<and>
    known_direction (d_direction d) \<and>
    currency (op_money op) = currency (w_balance w) \<and>
    currency (w_balance w') = currency (w_balance w) \<and>
    sint (minor (w_balance w')) =
      sint (minor (w_balance w)) + signed_amount (d_direction d) (sint (minor (op_money op))) \<and>
    w_version w' = w_version w + 1 \<and> sint (w_version w') = sint (w_version w) + 1 \<and>
    w_id w' = w_id w \<and> w_player w' = w_player w \<and> w_created w' = w_created w \<and>
    w_updated w' = now \<and> now \<noteq> 0"
proof (cases "is_debit op ref")
  case True
  with dec_moves [OF assms] have m: "fst (wallet_debit known w (op_money op) now) = Inr (w_balance w)"
    "snd (wallet_debit known w (op_money op) now) = w'" and dir: "d_direction d = Debit" by simp_all
  show ?thesis
    using m deb.move_guard [OF m(1)] deb.move_valid [OF m(1)] deb.move_balance [OF m(1)]
      deb.move_version [OF m(1)] deb.move_version_ne [OF m(1)] deb.move_identity [OF m(1)]
    by (simp add: dir)
next
  case False
  with dec_moves [OF assms] have m: "fst (wallet_credit known w (op_money op) now) = Inr (w_balance w)"
    "snd (wallet_credit known w (op_money op) now) = w'" and dir: "d_direction d = Credit" by simp_all
  show ?thesis
    using m crd.move_guard [OF m(1)] crd.move_valid [OF m(1)] crd.move_balance [OF m(1)]
      crd.move_version [OF m(1)] crd.move_version_ne [OF m(1)] crd.move_identity [OF m(1)]
    by (simp add: dir)
qed

lemma dec_balance_valid:
  assumes "dec w ref now = (d, w')" and "external_kind (op_kind op)" and "wallet_valid known w"
  shows "wallet_valid known w' \<and> w_id w' = w_id w"
proof (cases "d_direction d = no_direction")
  case True
  with dec_still [OF assms(1,2)] assms(3) show ?thesis by simp
next
  case False
  with dec_movement [OF assms(1,2)] show ?thesis by simp
qed

end

lemma decide_checks_plain:
  "decide_checks op w ref = Some d \<Longrightarrow>
   (\<exists>s c. d = plain_decision s c \<and> (s = Processed \<longrightarrow> op_kind op = Loss))"
  by (auto simp: decide_checks_def split: if_splits option.splits)

lemma decide_cases:
  assumes "decide known op w ref now = (d, w')"
  obtains (checks) "decide_checks op w ref = Some d" "w' = w"
  | (refused) e c where "decide_checks op w ref = None" "w' = w" "d = plain_decision Rejected c"
      "(if is_debit op ref then wallet_debit known w (op_money op) now
        else wallet_credit known w (op_money op) now) = (Inl e, w)"
      "c = (if e = ErrInsufficientFunds
            then if op_kind op = Rollback then ''REVERSAL_INSUFFICIENT_FUNDS'' else ''INSUFFICIENT_FUNDS''
            else ''AMOUNT_OVERFLOW'')"
  | (moved) "decide_checks op w ref = None"
      "(if is_debit op ref then wallet_debit known w (op_money op) now
        else wallet_credit known w (op_money op) now) = (Inr (w_balance w), w')"
      "d = \<lparr>d_status = Processed, d_failure = [],
           d_direction = (if is_debit op ref then Debit else Credit), d_before = w_balance w,
           d_reference = (case ref of None \<Rightarrow> 0 | Some r \<Rightarrow> ref_id r)\<rparr>"
proof -
  let ?m = "if is_debit op ref then wallet_debit known w (op_money op) now
        else wallet_credit known w (op_money op) now"
  obtain b w1 where m: "?m = (b, w1)" by fastforce
  have still: "w1 = w" if "b = Inl e" for e
    using m that deb.move_error [of known w "op_money op" now e]
      crd.move_error [of known w "op_money op" now e] by (auto split: if_splits)
  have before: "x = w_balance w" if "b = Inr x" for x
    using m that deb.move_identity(6) [of known w "op_money op" now x]
      crd.move_identity(6) [of known w "op_money op" now x] by (auto split: if_splits)
  show thesis
  proof (cases "decide_checks op w ref")
    case (Some d')
    with assms show thesis by (intro checks) (simp_all add: decide_def)
  next
    case None
    note n = None
    show thesis
    proof (cases b)
      case (Inl e)
      then show thesis
        using assms n m still [OF Inl]
        by (intro refused [of "d_failure d" e]) (auto simp: decide_def Let_def split: if_splits)
    next
      case (Inr x)
      then show thesis
        using assms n m before [OF Inr]
        by (intro moved) (auto simp: decide_def Let_def split: if_splits)
    qed
  qed
qed

lemma checks_none_reversal:
  "decide_checks op w ref = None \<Longrightarrow> reversal_kind (op_kind op) \<Longrightarrow>
   \<exists>r. ref = Some r \<and> ref_status r = Processed \<and> \<not> ref_reversed r \<and>
       ref_wallet r = op_wallet op \<and> ref_money r = op_money op \<and>
       (op_kind op = Refund \<longrightarrow> ref_kind r = Bet) \<and>
       (op_kind op = Rollback \<longrightarrow> ref_kind r \<in> {Bet, Win, Refund})"
  by (auto simp: decide_checks_def reversal_kind_def split: if_splits option.splits)

lemma checks_pending_kind:
  "decide_checks op w ref = Some d \<Longrightarrow> d_status d = PendingReference \<Longrightarrow>
   op_kind op \<in> {Win, Refund, Rollback} \<and> (op_kind op = Win \<longrightarrow> op_reference op \<noteq> [])"
  unfolding decide_checks_def
  by (cases ref) (simp split: if_split_asm; fastforce)+

lemma checks_none_not_loss: "decide_checks op w ref = None \<Longrightarrow> op_kind op \<noteq> Loss"
  by (auto simp: decide_checks_def split: if_splits)

lemma decide_still:
  assumes "decide known op w ref now = (d, w')" and "d_direction d = no_direction"
  shows "w' = w \<and> (d_status d = Processed \<longrightarrow> op_kind op = Loss) \<and> d_reference d = 0"
  using assms(1)
proof (cases rule: decide_cases)
  case checks
  then show ?thesis using decide_checks_plain by fastforce
next
  case moved
  then show ?thesis using assms(2) by (auto simp: no_direction_def split: if_splits)
qed simp

text \<open>Only a decision whose checks pass, and whose movement succeeds, has a direction.\<close>

lemma decide_moves:
  assumes "decide known op w ref now = (d, w')" and "d_direction d \<noteq> no_direction"
  shows "decide_checks op w ref = None \<and>
    d_status d = Processed \<and> d_failure d = [] \<and> op_kind op \<noteq> Loss \<and> d_before d = w_balance w \<and>
    d_direction d = (if is_debit op ref then Debit else Credit) \<and>
    (if is_debit op ref then wallet_debit known w (op_money op) now
     else wallet_credit known w (op_money op) now) = (Inr (w_balance w), w') \<and>
    d_reference d = (case ref of None \<Rightarrow> 0 | Some r \<Rightarrow> ref_id r)"
  using assms(1)
proof (cases rule: decide_cases)
  case checks
  then show ?thesis using assms(2) decide_checks_plain by fastforce
next
  case moved
  then show ?thesis using checks_none_not_loss by simp
qed (use assms(2) in simp)

lemma decide_waits:
  assumes "decide known op w ref now = (d, w')" and "d_status d = PendingReference"
  shows "op_kind op \<in> {Win, Refund, Rollback} \<and> (op_kind op = Win \<longrightarrow> op_reference op \<noteq> [])"
  using assms(1)
proof (cases rule: decide_cases)
  case checks
  then show ?thesis using assms(2) checks_pending_kind by blast
qed (use assms(2) in simp_all)

interpretation dcd: decider known op "decide known op"
  for known op
proof
  fix w ref now d w'
  assume dec: "decide known op w ref now = (d, w')"
  show "w' = w \<and> (d_status d = Processed \<longrightarrow> op_kind op = Loss) \<and> d_reference d = 0"
    if "d_direction d = no_direction"
    using decide_still [OF dec that] .
  show "d_status d = Processed \<and> d_failure d = [] \<and> op_kind op \<noteq> Loss \<and> d_before d = w_balance w \<and>
      d_direction d = (if is_debit op ref then Debit else Credit) \<and>
      (if is_debit op ref then wallet_debit known w (op_money op) now
       else wallet_credit known w (op_money op) now) = (Inr (w_balance w), w') \<and>
      d_reference d = (case ref of None \<Rightarrow> 0 | Some r \<Rightarrow> ref_id r)"
    if "d_direction d \<noteq> no_direction"
    using decide_moves [OF dec that] by blast
  show "\<exists>r. ref = Some r \<and> ref_status r = Processed \<and> \<not> ref_reversed r \<and>
          ref_wallet r = op_wallet op \<and> ref_money r = op_money op \<and>
          (op_kind op = Refund \<longrightarrow> ref_kind r = Bet) \<and>
          (op_kind op = Rollback \<longrightarrow> ref_kind r \<in> {Bet, Win, Refund})"
    if "reversal_kind (op_kind op)" and "d_direction d \<noteq> no_direction"
    using decide_moves [OF dec that(2)] checks_none_reversal that(1) by blast
  show "op_kind op \<in> {Win, Refund, Rollback} \<and> (op_kind op = Win \<longrightarrow> op_reference op \<noteq> [])"
    if "d_status d = PendingReference"
    using decide_waits [OF dec that] .
qed

interpretation fld: decider known op "fail_decision code"
  for known op code
  by unfold_locales (auto simp: fail_decision_def)

section \<open>Properties\<close>

lemma decide_checks_match:
  "decide_checks op w ref = None \<Longrightarrow>
   w_player w = op_player op \<and> currency (w_balance w) = currency (op_money op)"
  by (auto simp: decide_checks_def split: if_splits)

text \<open>
  C16: \<^verbatim>\<open>Decide\<close> moves the wallet exactly as it reports: with no direction the wallet is
  untouched; with a direction the operation is processed without a failure code, belongs to the
  wallet's player and currency, and the balance moved by exactly the operation's amount in that
  direction, from the reported previous balance, with the next version.
\<close>

theorem decide_moves_as_reported:
  assumes "decide known op w ref now = (d, w')" and "external_kind (op_kind op)"
  shows "(d_direction d = no_direction \<longrightarrow> w' = w) \<and>
    (d_direction d \<noteq> no_direction \<longrightarrow>
       d_status d = Processed \<and> d_failure d = [] \<and> d_before d = w_balance w \<and>
       w_player w = op_player op \<and> currency (w_balance w) = currency (op_money op) \<and>
       d_direction d = (if is_debit op ref then Debit else Credit) \<and>
       sint (minor (w_balance w')) =
         sint (minor (w_balance w)) + signed_amount (d_direction d) (sint (minor (op_money op))) \<and>
       0 \<le> sint (minor (w_balance w')) \<and> sint (w_version w') = sint (w_version w) + 1)"
proof (cases "d_direction d = no_direction")
  case True
  with dcd.dec_still [OF assms] show ?thesis by simp
next
  case False
  have none: "decide_checks op w ref = None"
    using assms(1)
  proof (cases rule: decide_cases)
    case checks
    then show ?thesis using False decide_checks_plain by fastforce
  qed simp_all
  have moved: "wallet_valid known w'"
    "sint (minor (w_balance w')) =
       sint (minor (w_balance w)) + signed_amount (d_direction d) (sint (minor (op_money op)))"
    "sint (w_version w') = sint (w_version w) + 1"
    using dcd.dec_movement [OF assms False] by blast+
  have funded: "0 \<le> sint (minor (w_balance w'))"
    using moved(1) by (simp add: wallet_valid_def go_int)
  show ?thesis
    using False dcd.dec_moves [OF assms False] decide_checks_match [OF none] moved(2,3) funded
    by simp
qed

definition brl :: "int64 \<Rightarrow> money" where
  "brl n = \<lparr>minor = n, currency = ''BRL''\<rparr>"

definition brl_only :: "string \<Rightarrow> bool" where
  "brl_only c \<longleftrightarrow> c = ''BRL''"

lemma brl_simps [simp]: "minor (brl n) = n" "currency (brl n) = ''BRL''"
  by (simp_all add: brl_def)

lemma brl_eq [simp]: "brl m = brl n \<longleftrightarrow> m = n"
  by (simp add: brl_def)

lemma brl_valid [simp]: "money_valid brl_only (brl n)"
  by (simp add: money_valid_def valid_currency_def currency_pattern_def is_upper_letter_def
      brl_only_def)

definition sample_wallet :: wallet where
  "sample_wallet = \<lparr>w_id = 10, w_player = 20, w_balance = brl 100, w_version = 1,
     w_created = 1000, w_updated = 1000\<rparr>"

definition sample_bet :: operation where
  "sample_bet = \<lparr>op_provider = ''p'', op_external = ''e1'', op_key = ''k1'', op_player = 20,
     op_wallet = 10, op_round = ''r'', op_game = ''g'', op_kind = Bet, op_money = brl 80,
     op_reference = []\<rparr>"

lemma sample_bet_decision:
  "decide brl_only sample_bet sample_wallet None 2000 =
   (\<lparr>d_status = Processed, d_failure = [], d_direction = Debit, d_before = brl 100,
     d_reference = 0\<rparr>,
    sample_wallet\<lparr>w_balance := brl 20, w_version := 2, w_updated := 2000\<rparr>)"
  by (simp add: decide_def decide_checks_def is_debit_def sample_bet_def sample_wallet_def
      wallet_debit_def wallet_valid_def money_sub_def is_positive_def go_int min_int64_def
      max_int64_def)

lemma decide_moves_as_reported_witness:
  "sint (minor (w_balance (snd (decide brl_only sample_bet sample_wallet None 2000)))) =
   sint (minor (w_balance sample_wallet)) - 80"
  using decide_moves_as_reported [OF sample_bet_decision]
  unfolding sample_bet_decision
  by (simp add: external_kind_def sample_bet_def no_direction_def sample_wallet_def)

text \<open>
  C17: A REFUND or ROLLBACK is processed only against a reference that is itself processed, not
  yet reversed, of the same wallet, player, round, amount and currency; a REFUND only against a
  BET, which it credits; a ROLLBACK against a BET, which it credits, or a WIN or REFUND, which
  it debits. The reference is recorded in the decision.
\<close>

theorem decide_reversal_safe:
  assumes "decide known op w ref now = (d, w')" and "reversal_kind (op_kind op)"
    and "d_status d = Processed"
  shows "\<exists>r. ref = Some r \<and> d_reference d = ref_id r \<and> ref_status r = Processed \<and>
    \<not> ref_reversed r \<and> ref_wallet r = op_wallet op \<and> ref_player r = op_player op \<and>
    ref_round r = op_round op \<and> ref_money r = op_money op \<and>
    (op_kind op = Refund \<longrightarrow> ref_kind r = Bet \<and> d_direction d = Credit) \<and>
    (op_kind op = Rollback \<longrightarrow>
       ref_kind r = Bet \<and> d_direction d = Credit \<or>
       ref_kind r \<in> {Win, Refund} \<and> d_direction d = Debit)"
  using assms(1)
proof (cases rule: decide_cases)
  case checks
  then show ?thesis
    using assms(2,3) decide_checks_plain [of op w ref d] by (auto simp: reversal_kind_def)
next
  case refused
  then show ?thesis using assms(3) by simp
next
  case moved
  from moved(1) assms(2) show ?thesis
    unfolding moved(3)
    by (auto simp: decide_checks_def reversal_kind_def is_debit_def split: if_splits option.splits)
qed

definition sample_reference :: reference where
  "sample_reference = \<lparr>ref_id = 77, ref_kind = Bet, ref_status = Processed, ref_wallet = 10,
     ref_player = 20, ref_round = ''r'', ref_money = brl 80, ref_reversed = False\<rparr>"

definition sample_refund :: operation where
  "sample_refund = sample_bet\<lparr>op_external := ''e2'', op_key := ''k2'', op_kind := Refund,
     op_reference := ''e1''\<rparr>"

lemma sample_refund_decision:
  "decide brl_only sample_refund sample_wallet (Some sample_reference) 2000 =
   (\<lparr>d_status = Processed, d_failure = [], d_direction = Credit, d_before = brl 100,
     d_reference = 77\<rparr>,
    sample_wallet\<lparr>w_balance := brl 180, w_version := 2, w_updated := 2000\<rparr>)"
  by (simp add: decide_def decide_checks_def is_debit_def sample_refund_def sample_bet_def
      sample_wallet_def sample_reference_def wallet_credit_def wallet_valid_def money_add_def
      is_positive_def go_int max_int64_def min_int64_def)

lemma decide_reversal_safe_witness:
  "\<exists>r. Some sample_reference = Some r \<and>
     d_reference (fst (decide brl_only sample_refund sample_wallet (Some sample_reference) 2000))
       = ref_id r"
  using decide_reversal_safe [OF sample_refund_decision]
  unfolding sample_refund_decision
  by (auto simp: reversal_kind_def sample_refund_def)

lemma decide_checks_outcome:
  "decide_checks op w ref = Some d \<Longrightarrow>
   (d_status d = Processed \<and> d_failure d = []) \<or>
   (d_status d = PendingReference \<and> d_failure d = [] \<and>
      (op_kind op = Win \<and> op_reference op \<noteq> [] \<or> reversal_kind (op_kind op)) \<and>
      (case ref of None \<Rightarrow> True
       | Some r \<Rightarrow> ref_status r = Pending \<or> ref_status r = PendingReference)) \<or>
   (d_status d = Rejected \<and> d_failure d \<in> {''WALLET_MISMATCH'', ''INVALID_REFERENCE''})"
  unfolding decide_checks_def reversal_kind_def
  by (cases ref) (simp split: if_split_asm; fastforce)+

lemma insufficient_debit:
  "wallet_debit known w m now = (Inl ErrInsufficientFunds, w') \<Longrightarrow>
   sint (minor (w_balance w)) < sint (minor m)"
  by (auto simp: wallet_debit_def money_sub_def go_int split: if_splits sum.splits)

lemma no_insufficient_credit:
  "wallet_credit known w m now \<noteq> (Inl ErrInsufficientFunds, w')"
  by (auto simp: wallet_credit_def money_add_def split: if_splits sum.splits)



text \<open>
  C39: \<^verbatim>\<open>AMOUNT_OVERFLOW\<close> is also what a perfectly representable movement is rejected
  with when the clock reading is older than the wallet's last update, as after a backward clock
  step or between hosts whose clocks differ: a BET the balance covers is then terminally
  rejected for an overflow that never happened.
\<close>

theorem stale_clock_rejects_as_overflow:
  assumes "wallet_valid known w" and "op_kind op = Bet"
    and "w_player w = op_player op" and "currency (w_balance w) = currency (op_money op)"
    and "now < w_updated w"
  shows "decide known op w ref now = (plain_decision Rejected ''AMOUNT_OVERFLOW'', w)"
  using assms
  by (simp add: decide_def decide_checks_def is_debit_def wallet_debit_def)

lemma stale_clock_rejects_as_overflow_witness:
  "decide brl_only sample_bet sample_wallet None 999 =
     (plain_decision Rejected ''AMOUNT_OVERFLOW'', sample_wallet) \<and>
   decide brl_only sample_bet sample_wallet None 1000 \<noteq>
     (plain_decision Rejected ''AMOUNT_OVERFLOW'', sample_wallet)"
proof
  show "decide brl_only sample_bet sample_wallet None 999 =
     (plain_decision Rejected ''AMOUNT_OVERFLOW'', sample_wallet)"
    by (rule stale_clock_rejects_as_overflow)
       (simp_all add: sample_wallet_def sample_bet_def wallet_valid_def go_int)
  show "decide brl_only sample_bet sample_wallet None 1000 \<noteq>
     (plain_decision Rejected ''AMOUNT_OVERFLOW'', sample_wallet)"
    by (simp add: decide_def decide_checks_def is_debit_def sample_bet_def sample_wallet_def
      wallet_debit_def wallet_valid_def money_sub_def is_positive_def go_int max_int64_def
      min_int64_def plain_decision_def)
qed

end
