(* ===== verification/Json.thy ===== *)
theory Json
  imports GoStd "HOL-Library.List_Lexorder" "HOL-Library.Char_ord"
begin

text \<open>
  The encoder of \<^verbatim>\<open>encoding/json\<close> as the program uses it: values as trees (a number
  as its literal), the text
  \<^verbatim>\<open>json.Marshal\<close> writes for them (object fields in the order given, map keys sorted,
  strings escaped with HTML escaping on), on bytes. A string that is valid UTF-8 can be read
  back from its text: \<open>json_quote_inj\<close>.
\<close>

datatype json =
    JNull
  | JBool bool
  | JNum string
  | JStr string
  | JArr "json list"
  | JObj "(string \<times> json) list"

section \<open>UTF-8\<close>

definition code :: "char \<Rightarrow> nat" where
  "code c = of_char c"

definition byte_in :: "string \<Rightarrow> nat \<Rightarrow> nat \<Rightarrow> nat \<Rightarrow> bool" where
  "byte_in s i lo hi \<longleftrightarrow> i < length s \<and> lo \<le> code (s ! i) \<and> code (s ! i) \<le> hi"

definition lead_width :: "nat \<Rightarrow> nat" where
  "lead_width b =
     (if b < 0x80 then 1
      else if 0xC2 \<le> b \<and> b \<le> 0xDF then 2
      else if 0xE0 \<le> b \<and> b \<le> 0xEF then 3
      else if 0xF0 \<le> b \<and> b \<le> 0xF4 then 4
      else 0)"

text \<open>
  \<open>utf8_width s\<close> is the size \<^verbatim>\<open>utf8.DecodeRune\<close> gives for the first rune, or 0 when
  the first byte starts no valid encoding.
\<close>

definition utf8_width :: "string \<Rightarrow> nat" where
  "utf8_width s =
     (if s = [] then 0
      else
        let b = code (hd s); w = lead_width b
        in if w = 1 then 1
           else if w = 2 then (if byte_in s 1 0x80 0xBF then 2 else 0)
           else if w = 3 then
             (if byte_in s 1 (if b = 0xE0 then 0xA0 else 0x80) (if b = 0xED then 0x9F else 0xBF) \<and>
                 byte_in s 2 0x80 0xBF then 3 else 0)
           else if w = 4 then
             (if byte_in s 1 (if b = 0xF0 then 0x90 else 0x80) (if b = 0xF4 then 0x8F else 0xBF) \<and>
                 byte_in s 2 0x80 0xBF \<and> byte_in s 3 0x80 0xBF then 4 else 0)
           else 0)"

section \<open>Strings\<close>

definition hex_digit :: "nat \<Rightarrow> char" where
  "hex_digit n = char_of (if n < 10 then 48 + n else 87 + n)"

definition backslash :: char where
  "backslash = char_of (92 :: nat)"

definition quote_char :: char where
  "quote_char = char_of (34 :: nat)"

definition escape_ascii :: "char \<Rightarrow> string" where
  "escape_ascii c =
     (let b = code c
      in if b = 92 \<or> b = 34 then [backslash, c]
         else if b = 8 then [backslash, CHR ''b'']
         else if b = 12 then [backslash, CHR ''f'']
         else if b = 10 then [backslash, CHR ''n'']
         else if b = 13 then [backslash, CHR ''r'']
         else if b = 9 then [backslash, CHR ''t'']
         else if b < 32 \<or> b = 60 \<or> b = 62 \<or> b = 38
         then [backslash, CHR ''u'', CHR ''0'', CHR ''0'', hex_digit (b div 16), hex_digit (b mod 16)]
         else [c])"

definition line_separator :: "nat \<Rightarrow> string" where
  "line_separator k = [byte_char 0xE2, byte_char 0x80, byte_char (0xA8 + k)]"

definition escape_rune :: "string \<Rightarrow> string" where
  "escape_rune r =
     (if length r = 1 then escape_ascii (hd r)
      else if r = line_separator 0 then backslash # ''u2028''
      else if r = line_separator 1 then backslash # ''u2029''
      else r)"

function runes :: "string \<Rightarrow> string list" where
  "runes s =
     (if s = [] then []
      else if utf8_width s = 0 then [hd s] # runes (tl s)
      else take (utf8_width s) s # runes (drop (utf8_width s) s))"
  by pat_completeness auto
termination
  by (relation "measure length") auto

declare runes.simps [simp del]

lemma runes_Nil [simp]: "runes [] = []"
  by (subst runes.simps) simp

text \<open>An invalid byte is a segment of one byte from 0x80 on; it is written as U+FFFD.\<close>

definition escape_segment :: "string \<Rightarrow> string" where
  "escape_segment r =
     (if length r = 1 \<and> 0x80 \<le> code (hd r) then backslash # ''ufffd'' else escape_rune r)"

definition json_quote :: "string \<Rightarrow> string" where
  "json_quote s = [quote_char] @ concat (map escape_segment (runes s)) @ [quote_char]"

section \<open>Values\<close>

definition int_text :: "int \<Rightarrow> string" where
  "int_text i = (if i < 0 then CHR ''-'' # digits_of (nat (- i)) else digits_of (nat i))"

fun json_text :: "json \<Rightarrow> string"
  and json_items :: "json list \<Rightarrow> string"
  and json_fields :: "(string \<times> json) list \<Rightarrow> string" where
  "json_text JNull = ''null''"
| "json_text (JBool b) = (if b then ''true'' else ''false'')"
| "json_text (JNum s) = s"
| "json_text (JStr s) = json_quote s"
| "json_text (JArr xs) = ''['' @ json_items xs @ '']''"
| "json_text (JObj kvs) = ''{'' @ json_fields kvs @ ''}''"
| "json_items [] = []"
| "json_items [x] = json_text x"
| "json_items (x # y # xs) = json_text x @ '','' @ json_items (y # xs)"
| "json_fields [] = []"
| "json_fields [(k, v)] = json_quote k @ '':'' @ json_text v"
| "json_fields ((k, v) # kv # kvs) = json_quote k @ '':'' @ json_text v @ '','' @ json_fields (kv # kvs)"

text \<open>A \<^verbatim>\<open>map[string]any\<close> is written with its keys sorted bytewise.\<close>

definition json_map :: "(string \<times> json) list \<Rightarrow> json" where
  "json_map kvs = JObj (sort_key fst kvs)"

section \<open>Reading a string back\<close>

definition utf8_valid :: "string \<Rightarrow> bool" where
  "utf8_valid s \<longleftrightarrow> list_all (\<lambda>r. length r = 1 \<longrightarrow> code (hd r) < 0x80) (runes s)"

definition hex_val :: "char \<Rightarrow> nat" where
  "hex_val c = (if code c \<le> 57 then code c - 48 else code c - 87)"

text \<open>The rune an escaped text starts with.\<close>

definition first_rune :: "string \<Rightarrow> string" where
  "first_rune t =
     (if hd t = backslash
      then (let d = t ! 1
            in if d = CHR ''u''
               then (if t ! 2 = CHR ''2'' then line_separator (if t ! 5 = CHR ''8'' then 0 else 1)
                     else [byte_char (16 * hex_val (t ! 4) + hex_val (t ! 5))])
               else if d = CHR ''b'' then [byte_char 8]
               else if d = CHR ''f'' then [byte_char 12]
               else if d = CHR ''n'' then [byte_char 10]
               else if d = CHR ''r'' then [byte_char 13]
               else if d = CHR ''t'' then [byte_char 9]
               else [d])
      else take (lead_width (code (hd t))) t)"

lemma code_less [simp]: "code c < 256"
  by (simp add: code_def)

lemma byte_char_code [simp]: "byte_char (code c) = c"
  by (simp add: byte_char_def code_def)

lemma code_byte_char [simp]: "n < 256 \<Longrightarrow> code (byte_char n) = n"
  by (simp add: code_def byte_char_def)

lemma code_eq_iff: "c = d \<longleftrightarrow> code c = code d"
  by (auto simp: code_def)

lemma hex_val_digit [simp]: "n < 16 \<Longrightarrow> hex_val (hex_digit n) = n"
  by (auto simp: hex_val_def hex_digit_def code_def)

lemma code_marks [simp]: "code backslash = 92" "code quote_char = 34"
  by (simp_all add: code_def backslash_def quote_char_def)

lemma hd_escape_ascii: "hd (escape_ascii c) = backslash \<or> escape_ascii c = [c]"
  by (simp add: escape_ascii_def Let_def)

lemma first_rune_ascii:
  assumes "code c < 128"
  shows "first_rune (escape_ascii c @ x) = [c]"
proof -
  have letters: "code (CHR ''u'') = 117" "code (CHR ''b'') = 98" "code (CHR ''f'') = 102"
    "code (CHR ''n'') = 110" "code (CHR ''r'') = 114" "code (CHR ''t'') = 116"
    "code (CHR ''0'') = 48" "code (CHR ''2'') = 50"
    by (simp_all add: code_def)
  consider "code c \<in> {92, 34}" | "code c \<in> {8, 12, 10, 13, 9}"
    | "code c \<notin> {92, 34, 8, 12, 10, 13, 9}" "code c < 32 \<or> code c \<in> {60, 62, 38}"
    | "code c \<notin> {92, 34, 60, 62, 38}" "32 \<le> code c" by (cases "code c < 32") auto
  then show ?thesis
  proof cases
    case 1
    then have "escape_ascii c = [backslash, c]"
      by (auto simp: escape_ascii_def Let_def)
    moreover have "c \<noteq> CHR ''u''" "c \<noteq> CHR ''b''" "c \<noteq> CHR ''f''" "c \<noteq> CHR ''n''"
      "c \<noteq> CHR ''r''" "c \<noteq> CHR ''t''"
      using 1 letters by auto
    ultimately show ?thesis by (simp add: first_rune_def Let_def)
  next
    case 2
    then consider "c = byte_char 8" | "c = byte_char 12" | "c = byte_char 10"
      | "c = byte_char 13" | "c = byte_char 9"
      by (auto simp: code_eq_iff)
    then show ?thesis
      by cases (simp_all add: escape_ascii_def first_rune_def Let_def)
  next
    case 3
    have small: "code c div 16 < 16" "code c mod 16 < 16" using assms by auto
    have val: "16 * hex_val (hex_digit (code c div 16)) + hex_val (hex_digit (code c mod 16)) = code c"
      using small by simp
    have "escape_ascii c = [backslash, CHR ''u'', CHR ''0'', CHR ''0'',
        hex_digit (code c div 16), hex_digit (code c mod 16)]"
      using 3 by (auto simp: escape_ascii_def Let_def)
    then show ?thesis
      using val by (simp add: first_rune_def Let_def)
  next
    case 4
    then have "escape_ascii c = [c]" "c \<noteq> backslash"
      by (auto simp: escape_ascii_def Let_def code_eq_iff)
    then show ?thesis
      using assms by (simp add: first_rune_def lead_width_def)
  qed
qed

definition rune_ok :: "string \<Rightarrow> bool" where
  "rune_ok r \<longleftrightarrow> r \<noteq> [] \<and> length r = lead_width (code (hd r))"

lemma lead_width_1_iff: "lead_width b = Suc 0 \<longleftrightarrow> b < 128"
  by (auto simp: lead_width_def)

lemma rune_ok_single [simp]: "rune_ok [c] \<longleftrightarrow> code c < 128"
  by (simp add: rune_ok_def eq_commute [of "Suc 0"] lead_width_1_iff)

lemma first_rune_segment:
  assumes "rune_ok r"
  shows "first_rune (escape_segment r @ x) = r"
proof (cases "length r = 1")
  case True
  then obtain c where r: "r = [c]" by (cases r) auto
  with assms have "code c < 128" by simp
  then show ?thesis
    using first_rune_ascii by (simp add: escape_segment_def escape_rune_def r)
next
  case False
  have big: "128 \<le> code (hd r)"
    using assms False lead_width_1_iff [of "code (hd r)"] by (auto simp: rune_ok_def)
  then have hd: "hd (r @ x) \<noteq> backslash" "hd (r @ x) = hd r"
    using assms by (auto simp: rune_ok_def code_eq_iff)
  have "CHR ''8'' \<noteq> CHR ''9''" by simp
  then show ?thesis
    using assms False hd
    by (auto simp: escape_segment_def escape_rune_def first_rune_def rune_ok_def Let_def)
qed

lemma utf8_width_lead:
  assumes "utf8_width s \<noteq> 0"
  shows "s \<noteq> [] \<and> utf8_width s = lead_width (code (hd s)) \<and> utf8_width s \<le> length s"
proof -
  have ne: "s \<noteq> []" using assms by (auto simp: utf8_width_def)
  then have "1 \<le> length s" by (cases s) simp_all
  moreover have "lead_width (code (hd s)) \<in> {0, 1, 2, 3, 4}" by (simp add: lead_width_def)
  ultimately show ?thesis
    using assms ne unfolding utf8_width_def Let_def byte_in_def by (elim insertE) (simp_all split: if_split_asm)
qed

lemma runes_ok: "utf8_valid s \<Longrightarrow> list_all rune_ok (runes s)"
proof (induction s rule: runes.induct)
  case (1 s)
  show ?case
  proof (cases "s = []")
    case True
    then show ?thesis by (simp add: runes.simps)
  next
    case ne: False
    show ?thesis
    proof (cases "utf8_width s = 0")
      case True
      with ne have eq: "runes s = [hd s] # runes (tl s)" by (simp add: runes.simps [of s])
      with "1.prems" have "code (hd s) < 128" by (simp add: utf8_valid_def)
      with True ne have False by (simp add: utf8_width_def lead_width_def)
      then show ?thesis ..
    next
      case False
      with ne have eq: "runes s = take (utf8_width s) s # runes (drop (utf8_width s) s)"
        by (simp add: runes.simps [of s])
      with "1.prems" have "utf8_valid (drop (utf8_width s) s)" by (simp add: utf8_valid_def)
      with "1.IH"(2) [OF ne False] have "list_all rune_ok (runes (drop (utf8_width s) s))" by simp
      moreover have "rune_ok (take (utf8_width s) s)"
        using utf8_width_lead [OF False] False ne by (auto simp: rune_ok_def hd_take)
      ultimately show ?thesis by (simp add: eq)
    qed
  qed
qed

lemma concat_runes [simp]: "concat (runes s) = s"
proof (induction s rule: runes.induct)
  case (1 s)
  show ?case
  proof (cases "s = []")
    case False
    with 1 show ?thesis by (cases "utf8_width s = 0") (simp_all add: runes.simps [of s])
  qed simp
qed

lemma segment_starts:
  assumes "rune_ok r"
  shows "escape_segment r \<noteq> [] \<and> hd (escape_segment r) \<noteq> quote_char"
proof (cases "length r = 1")
  case True
  then obtain c where r: "r = [c]" by (cases r) auto
  with assms have "code c < 128" by simp
  then show ?thesis
    by (auto simp: escape_segment_def escape_rune_def r escape_ascii_def Let_def code_eq_iff)
next
  case False
  then have "128 \<le> code (hd r)"
    using assms lead_width_1_iff [of "code (hd r)"] by (auto simp: rune_ok_def)
  then show ?thesis
    using assms False
    by (auto simp: escape_segment_def escape_rune_def rune_ok_def code_eq_iff)
qed

lemma segments_inj:
  assumes "list_all rune_ok rs" and "list_all rune_ok rs'"
    and "concat (map escape_segment rs) @ quote_char # x =
         concat (map escape_segment rs') @ quote_char # y"
  shows "rs = rs' \<and> x = y"
  using assms
proof (induction rs arbitrary: rs')
  case Nil
  then show ?case
  proof (cases rs')
    case (Cons r' rest)
    with Nil segment_starts [of r'] show ?thesis by (cases "escape_segment r'") auto
  qed simp
next
  case (Cons r rs)
  show ?case
  proof (cases rs')
    case Nil
    with Cons.prems segment_starts [of r] show ?thesis by (cases "escape_segment r") auto
  next
    case c: (Cons r' rest)
    let ?u = "concat (map escape_segment rs) @ quote_char # x"
    let ?v = "concat (map escape_segment rest) @ quote_char # y"
    have eq: "escape_segment r @ ?u = escape_segment r' @ ?v"
      using Cons.prems(3) c by simp
    have "r = r'"
      using first_rune_segment [of r ?u] first_rune_segment [of r' ?v] Cons.prems(1,2) c
      unfolding eq by simp
    moreover from this eq have "?u = ?v" by simp
    ultimately show ?thesis
      using Cons.IH [of rest] Cons.prems(1,2) c by simp
  qed
qed

lemma json_quote_inj:
  assumes "utf8_valid s" and "utf8_valid s'" and "json_quote s @ x = json_quote s' @ y"
  shows "s = s' \<and> x = y"
proof -
  have "runes s = runes s' \<and> x = y"
    using assms by (intro segments_inj runes_ok) (simp_all add: json_quote_def)
  then show ?thesis by (metis concat_runes)
qed

text \<open>Every ASCII text is valid UTF-8.\<close>

lemma ascii_valid: "list_all (\<lambda>c. code c < 128) s \<Longrightarrow> utf8_valid s"
proof (induction s)
  case Nil
  then show ?case by (simp add: utf8_valid_def)
next
  case (Cons c s)
  then have "utf8_width (c # s) = 1" by (simp add: utf8_width_def lead_width_def)
  then have "runes (c # s) = [c] # runes s" by (simp add: runes.simps [of "c # s"])
  with Cons show ?case by (simp add: utf8_valid_def)
qed

end
