(* ===== verification/JsonDecode.thy ===== *)
theory JsonDecode
  imports Json
begin

text \<open>
  The decoder of \<^verbatim>\<open>encoding/json\<close>: the scanner's grammar (white space, literals, numbers,
  strings with their escapes, at most 10000 nested values), \<^verbatim>\<open>unquote\<close>, which repairs
  invalid UTF-8 and lone surrogates with U+FFFD, and the way the fields of a struct are found by
  name. What the encoder writes is read back: \<open>parse_document_text\<close>.
\<close>

section \<open>Strings\<close>

definition hex_nibble :: "char \<Rightarrow> nat option" where
  "hex_nibble c =
     (let b = code c
      in if 48 \<le> b \<and> b \<le> 57 then Some (b - 48)
         else if 97 \<le> b \<and> b \<le> 102 then Some (b - 87)
         else if 65 \<le> b \<and> b \<le> 70 then Some (b - 55)
         else None)"

text \<open>\<^verbatim>\<open>getu4\<close> after its \<^verbatim>\<open>\u\<close>.\<close>

definition hex4 :: "string \<Rightarrow> nat option" where
  "hex4 s =
     (case s of
        a # b # c # d # _ \<Rightarrow>
          (case (hex_nibble a, hex_nibble b, hex_nibble c, hex_nibble d) of
             (Some a, Some b, Some c, Some d) \<Rightarrow> Some (4096 * a + 256 * b + 16 * c + d)
           | _ \<Rightarrow> None)
      | _ \<Rightarrow> None)"

definition utf8_encode :: "nat \<Rightarrow> string" where
  "utf8_encode r =
     map byte_char
       (if r < 0x80 then [r]
        else if r < 0x800 then [0xC0 + r div 64, 0x80 + r mod 64]
        else if r < 0x10000 then [0xE0 + r div 4096, 0x80 + r div 64 mod 64, 0x80 + r mod 64]
        else [0xF0 + r div 262144, 0x80 + r div 4096 mod 64, 0x80 + r div 64 mod 64, 0x80 + r mod 64])"

definition replacement :: string where
  "replacement = map byte_char [0xEF, 0xBF, 0xBD]"

text \<open>The rune of \<^verbatim>\<open>\uXXXX\<close> and the rest of the input; \<open>s\<close> starts at the digits.\<close>

definition unquote_u :: "string \<Rightarrow> (string \<times> string) option" where
  "unquote_u s =
     (case hex4 s of
        None \<Rightarrow> None
      | Some u \<Rightarrow>
          let rest = drop 4 s
          in if 0xD800 \<le> u \<and> u < 0xE000
             then (case (if take 2 rest = [backslash, CHR ''u''] then hex4 (drop 2 rest) else None) of
                     Some l \<Rightarrow>
                       if u < 0xDC00 \<and> 0xDC00 \<le> l \<and> l < 0xE000
                       then Some (utf8_encode (0x10000 + (u - 0xD800) * 1024 + (l - 0xDC00)), drop 6 rest)
                       else Some (replacement, rest)
                   | None \<Rightarrow> Some (replacement, rest))
             else Some (utf8_encode u, rest))"

text \<open>One character of a string literal; the input is not empty and not at the closing quote.\<close>

definition unquote_char :: "string \<Rightarrow> (string \<times> string) option" where
  "unquote_char s =
     (let c = hd s; r = tl s
      in if code c < 32 then None
         else if c = backslash
         then (if r = [] then None
               else
                 let e = hd r
                 in if e = backslash \<or> e = quote_char \<or> e = CHR ''/'' then Some ([e], tl r)
                    else if e = CHR ''b'' then Some ([byte_char 8], tl r)
                    else if e = CHR ''f'' then Some ([byte_char 12], tl r)
                    else if e = CHR ''n'' then Some ([byte_char 10], tl r)
                    else if e = CHR ''r'' then Some ([byte_char 13], tl r)
                    else if e = CHR ''t'' then Some ([byte_char 9], tl r)
                    else if e = CHR ''u'' then unquote_u (tl r)
                    else None)
         else if code c < 128 then Some ([c], r)
         else if utf8_width s = 0 then Some (replacement, r)
         else Some (take (utf8_width s) s, drop (utf8_width s) s))"

text \<open>The string after its opening quote. The comparison of lengths never fails.\<close>

function unquote :: "string \<Rightarrow> (string \<times> string) option" where
  "unquote s =
     (if s = [] then None
      else if hd s = quote_char then Some ([], tl s)
      else case unquote_char s of
        None \<Rightarrow> None
      | Some (c, r) \<Rightarrow>
          if length s \<le> length r then None
          else (case unquote r of None \<Rightarrow> None | Some (t, r') \<Rightarrow> Some (c @ t, r')))"
  by pat_completeness auto
termination
  by (relation "measure length") auto

declare unquote.simps [simp del]

section \<open>Numbers\<close>

definition span_digits :: "string \<Rightarrow> string \<times> string" where
  "span_digits s = (takeWhile is_digit s, dropWhile is_digit s)"

definition number_int :: "string \<Rightarrow> (string \<times> string) option" where
  "number_int s =
     (case s of
        [] \<Rightarrow> None
      | c # r \<Rightarrow>
          if c = CHR ''0'' then Some ([c], r)
          else if is_digit c then Some (span_digits s)
          else None)"

definition number_frac :: "string \<Rightarrow> (string \<times> string) option" where
  "number_frac s =
     (case s of
        [] \<Rightarrow> Some ([], [])
      | c # r \<Rightarrow>
          if c = CHR ''.''
          then (case span_digits r of (ds, r') \<Rightarrow> if ds = [] then None else Some (c # ds, r'))
          else Some ([], s))"

definition number_exp :: "string \<Rightarrow> (string \<times> string) option" where
  "number_exp s =
     (case s of
        [] \<Rightarrow> Some ([], [])
      | c # r \<Rightarrow>
          if c = CHR ''e'' \<or> c = CHR ''E''
          then (let sign = takeWhile (\<lambda>x. x = CHR ''+'' \<or> x = CHR ''-'') (take 1 r)
                in case span_digits (drop (length sign) r) of
                     (ds, r') \<Rightarrow> if ds = [] then None else Some (c # sign @ ds, r'))
          else Some ([], s))"

definition parse_number :: "string \<Rightarrow> (string \<times> string) option" where
  "parse_number s =
     (let sign = takeWhile (\<lambda>x. x = CHR ''-'') (take 1 s)
      in case number_int (drop (length sign) s) of
           None \<Rightarrow> None
         | Some (i, r) \<Rightarrow>
             (case number_frac r of
                None \<Rightarrow> None
              | Some (f, r') \<Rightarrow>
                  (case number_exp r' of
                     None \<Rightarrow> None
                   | Some (e, r'') \<Rightarrow> Some (sign @ i @ f @ e, r''))))"

section \<open>Values\<close>

definition json_space :: "char \<Rightarrow> bool" where
  "json_space c \<longleftrightarrow> c = CHR '' '' \<or> code c = 9 \<or> code c = 10 \<or> code c = 13"

definition skip_space :: "string \<Rightarrow> string" where
  "skip_space s = dropWhile json_space s"

definition starts_with :: "string \<Rightarrow> string \<Rightarrow> bool" where
  "starts_with w s \<longleftrightarrow> take (length w) s = w"

text \<open>
  \<open>d\<close> is how many more values may be nested. As above, the comparisons of lengths only make
  the recursion visibly finite.
\<close>

function parse_value :: "nat \<Rightarrow> string \<Rightarrow> (json \<times> string) option"
  and parse_items :: "nat \<Rightarrow> string \<Rightarrow> (json list \<times> string) option"
  and parse_members :: "nat \<Rightarrow> string \<Rightarrow> ((string \<times> json) list \<times> string) option" where
  "parse_value d s =
     (case skip_space s of
        [] \<Rightarrow> None
      | c # r \<Rightarrow>
          if length s \<le> length r then None
          else if c = CHR ''{''
          then (if d = 0 then None
                else if starts_with ''}'' (skip_space r) then Some (JObj [], tl (skip_space r))
                else map_option (\<lambda>(kvs, r'). (JObj kvs, r')) (parse_members (d - 1) r))
          else if c = CHR ''[''
          then (if d = 0 then None
                else if starts_with '']'' (skip_space r) then Some (JArr [], tl (skip_space r))
                else map_option (\<lambda>(vs, r'). (JArr vs, r')) (parse_items (d - 1) r))
          else if c = quote_char then map_option (\<lambda>(t, r'). (JStr t, r')) (unquote r)
          else if starts_with ''true'' (c # r) then Some (JBool True, drop 4 (c # r))
          else if starts_with ''false'' (c # r) then Some (JBool False, drop 5 (c # r))
          else if starts_with ''null'' (c # r) then Some (JNull, drop 4 (c # r))
          else map_option (\<lambda>(n, r'). (JNum n, r')) (parse_number (c # r)))"
| "parse_items d s =
     (case parse_value d s of
        None \<Rightarrow> None
      | Some (v, r) \<Rightarrow>
          (case skip_space r of
             [] \<Rightarrow> None
           | c # r' \<Rightarrow>
               if length s \<le> length r' then None
               else if c = CHR '','' then map_option (\<lambda>(vs, t). (v # vs, t)) (parse_items d r')
               else if c = CHR '']'' then Some ([v], r')
               else None))"
| "parse_members d s =
     (if \<not> starts_with [quote_char] (skip_space s) then None
      else case unquote (tl (skip_space s)) of
        None \<Rightarrow> None
      | Some (k, r1) \<Rightarrow>
          (case skip_space r1 of
             [] \<Rightarrow> None
           | c1 # r2 \<Rightarrow>
               if c1 \<noteq> CHR '':'' \<or> length s \<le> length r2 then None
               else (case parse_value d r2 of
                  None \<Rightarrow> None
                | Some (v, r3) \<Rightarrow>
                    (case skip_space r3 of
                       [] \<Rightarrow> None
                     | c # r4 \<Rightarrow>
                         if length s \<le> length r4 then None
                         else if c = CHR '',''
                         then map_option (\<lambda>(kvs, t). ((k, v) # kvs, t)) (parse_members d r4)
                         else if c = CHR ''}'' then Some ([(k, v)], r4)
                         else None))))"
  by pat_completeness auto
termination
  by (relation "measure (\<lambda>a. case a of Inl (d, s) \<Rightarrow> 2 * length s
        | Inr (Inl (d, s)) \<Rightarrow> Suc (2 * length s) | Inr (Inr (d, s)) \<Rightarrow> Suc (2 * length s))") auto

declare parse_value.simps [simp del] parse_items.simps [simp del] parse_members.simps [simp del]

definition max_nesting :: nat where
  "max_nesting = 10000"

definition parse_document :: "string \<Rightarrow> json option" where
  "parse_document s =
     (case parse_value max_nesting s of
        None \<Rightarrow> None
      | Some (v, r) \<Rightarrow> if skip_space r = [] then Some v else None)"

section \<open>Reading what the encoder wrote\<close>

definition rune_valid :: "string \<Rightarrow> bool" where
  "rune_valid r \<longleftrightarrow> r \<noteq> [] \<and> utf8_width r = length r"

lemma byte_in_append: "i < length r \<Longrightarrow> byte_in (r @ x) i lo hi = byte_in r i lo hi"
  by (simp add: byte_in_def nth_append)

lemma byte_in_length: "byte_in r i lo hi \<Longrightarrow> i < length r"
  by (simp add: byte_in_def)

lemma rune_valid_lead:
  assumes "rune_valid r"
  shows "length r = lead_width (code (hd r))"
  using utf8_width_lead [of r] assms by (auto simp: rune_valid_def)

lemma utf8_width_cong:
  assumes "s \<noteq> []" and "s' \<noteq> []" and h: "hd s' = hd s"
    and same: "\<And>i lo hi. i < lead_width (code (hd s)) \<Longrightarrow> byte_in s' i lo hi = byte_in s i lo hi"
  shows "utf8_width s' = utf8_width s"
proof -
  have lead: "lead_width (code (hd s)) \<in> {0, 1, 2, 3, 4}" by (simp add: lead_width_def)
  consider "lead_width (code (hd s)) = 0" | "lead_width (code (hd s)) = 1"
    | "lead_width (code (hd s)) = 2" | "lead_width (code (hd s)) = 3" | "lead_width (code (hd s)) = 4"
    using lead by auto
  then show ?thesis
    by cases (simp_all add: utf8_width_def Let_def assms(1,2) h same)
qed

lemma utf8_width_append:
  assumes "rune_valid r"
  shows "utf8_width (r @ x) = length r"
proof -
  have "utf8_width (r @ x) = utf8_width r"
    using assms rune_valid_lead [OF assms]
    by (intro utf8_width_cong) (simp_all add: rune_valid_def byte_in_append)
  with assms show ?thesis by (simp add: rune_valid_def)
qed

lemma utf8_width_take:
  assumes "utf8_width s \<noteq> 0"
  shows "rune_valid (take (utf8_width s) s)"
proof -
  note l = utf8_width_lead [OF assms]
  have "utf8_width (take (utf8_width s) s) = utf8_width s"
  proof (rule utf8_width_cong)
    show "byte_in (take (utf8_width s) s) i lo hi = byte_in s i lo hi"
      if "i < lead_width (code (hd s))" for i lo hi
      using that l by (auto simp: byte_in_def)
  qed (use l assms in \<open>simp_all add: hd_take\<close>)
  with l assms show ?thesis by (simp add: rune_valid_def)
qed

lemma runes_valid: "utf8_valid s \<Longrightarrow> list_all rune_valid (runes s)"
proof (induction s rule: runes.induct)
  case (1 s)
  show ?case
  proof (cases "s = []")
    case ne: False
    show ?thesis
    proof (cases "utf8_width s = 0")
      case True
      with ne have "runes s = [hd s] # runes (tl s)" by (simp add: runes.simps [of s])
      with "1.prems" have "code (hd s) < 128" by (simp add: utf8_valid_def)
      with True ne have False by (simp add: utf8_width_def lead_width_def)
      then show ?thesis ..
    next
      case False
      with ne have eq: "runes s = take (utf8_width s) s # runes (drop (utf8_width s) s)"
        by (simp add: runes.simps [of s])
      with "1.prems" have "utf8_valid (drop (utf8_width s) s)" by (simp add: utf8_valid_def)
      with "1.IH"(2) [OF ne False] utf8_width_take [OF False] show ?thesis by (simp add: eq)
    qed
  qed simp
qed

lemma letter_codes:
  "code (CHR ''u'') = 117" "code (CHR ''b'') = 98" "code (CHR ''f'') = 102" "code (CHR ''n'') = 110"
  "code (CHR ''r'') = 114" "code (CHR ''t'') = 116" "code (CHR ''/'') = 47" "code (CHR ''0'') = 48"
  "code (CHR ''2'') = 50" "code (CHR ''8'') = 56" "code (CHR ''9'') = 57"
  by (simp_all add: code_def)

lemma hex_nibble_digit [simp]: "n < 16 \<Longrightarrow> hex_nibble (hex_digit n) = Some n"
  by (auto simp: hex_nibble_def hex_digit_def code_def)

lemma hex_nibble_numerals [simp]:
  "hex_nibble (CHR ''0'') = Some 0" "hex_nibble (CHR ''2'') = Some 2"
  "hex_nibble (CHR ''8'') = Some 8" "hex_nibble (CHR ''9'') = Some 9"
  by (simp_all add: hex_nibble_def letter_codes)

lemma escape_mark: "escape_ascii backslash = [backslash, backslash]"
  "escape_ascii quote_char = [backslash, quote_char]"
  by (simp_all add: escape_ascii_def)

lemma unquote_mark: "unquote_char (backslash # backslash # x) = Some ([backslash], x)"
  "unquote_char (backslash # quote_char # x) = Some ([quote_char], x)"
  by (simp_all add: unquote_char_def)

lemma unquote_char_ascii:
  assumes "code c < 128"
  shows "unquote_char (escape_ascii c @ x) = Some ([c], x)"
proof -
  consider "code c \<in> {92, 34}" | "code c = 8" | "code c = 12" | "code c = 10" | "code c = 13"
    | "code c = 9" | "code c \<notin> {92, 34, 8, 12, 10, 13, 9}" "code c < 32 \<or> code c \<in> {60, 62, 38}"
    | "code c \<notin> {92, 34, 60, 62, 38}" "32 \<le> code c" by (cases "code c < 32") auto
  then show ?thesis
  proof cases
    case 1
    then have "c = backslash \<or> c = quote_char" by (auto simp: code_eq_iff)
    then show ?thesis
      by (elim disjE) (simp_all only: unquote_mark escape_mark append.simps)
  next
    case 7
    have small: "code c div 16 < 16" "code c mod 16 < 16" using assms by auto
    have "escape_ascii c = [backslash, CHR ''u'', CHR ''0'', CHR ''0'',
        hex_digit (code c div 16), hex_digit (code c mod 16)]"
      using 7 by (auto simp: escape_ascii_def Let_def)
    then show ?thesis
      using small assms
      by (simp add: unquote_char_def Let_def unquote_u_def hex4_def utf8_encode_def code_eq_iff
          letter_codes)
  next
    case 8
    then have "escape_ascii c = [c]" "c \<noteq> backslash"
      by (auto simp: escape_ascii_def Let_def code_eq_iff)
    then show ?thesis using 8 assms by (simp add: unquote_char_def)
  qed (simp_all add: escape_ascii_def unquote_char_def Let_def code_eq_iff letter_codes)
qed

lemma unquote_char_segment:
  assumes "rune_valid r"
  shows "unquote_char (escape_segment r @ x) = Some (r, x)"
proof (cases "length r = 1")
  case True
  then obtain c where r: "r = [c]" by (cases r) auto
  have "code c < 128"
    using rune_valid_lead [OF assms] by (simp add: r eq_commute [of "Suc 0"] lead_width_1_iff)
  then show ?thesis
    using unquote_char_ascii by (simp add: escape_segment_def escape_rune_def r)
next
  case False
  have big: "128 \<le> code (hd r)"
    using rune_valid_lead [OF assms] False lead_width_1_iff [of "code (hd r)"] by auto
  have ne: "r \<noteq> []" using assms by (simp add: rune_valid_def)
  have hd: "hd (r @ x) \<noteq> backslash" "hd (r @ x) = hd r"
    using big ne by (auto simp: code_eq_iff)
  have sep: "utf8_encode 8232 = line_separator 0" "utf8_encode 8233 = line_separator 1"
    by (simp_all add: utf8_encode_def line_separator_def)
  have "unquote_char (r @ x) = Some (r, x)"
    using big hd utf8_width_append [OF assms, of x] ne by (simp add: unquote_char_def Let_def)
  moreover have "unquote_char (backslash # ''u2028'' @ x) = Some (line_separator 0, x)"
    "unquote_char (backslash # ''u2029'' @ x) = Some (line_separator 1, x)"
    by (simp_all add: unquote_char_def unquote_u_def hex4_def sep code_eq_iff letter_codes)
  ultimately show ?thesis
    using False by (simp add: escape_segment_def escape_rune_def)
qed

lemma unquote_segments:
  assumes "list_all rune_valid rs"
  shows "unquote (concat (map escape_segment rs) @ quote_char # x) = Some (concat rs, x)"
  using assms
proof (induction rs)
  case Nil
  then show ?case by (simp add: unquote.simps)
next
  case (Cons r rs)
  let ?t = "concat (map escape_segment rs) @ quote_char # x"
  have "rune_ok r"
    using Cons.prems rune_valid_lead by (simp add: rune_ok_def rune_valid_def)
  with segment_starts have s: "escape_segment r \<noteq> []" "hd (escape_segment r) \<noteq> quote_char" by auto
  with Cons unquote_char_segment [of r ?t] show ?case
    by (subst unquote.simps) simp
qed

text \<open>A valid UTF-8 string is read back, whatever follows it.\<close>

lemma unquote_quote:
  assumes "utf8_valid s"
  shows "json_quote s @ x = quote_char # tl (json_quote s) @ x \<and>
    unquote (tl (json_quote s) @ x) = Some (s, x)"
  using unquote_segments [OF runes_valid [OF assms], of x] by (simp add: json_quote_def)

text \<open>
  The trees the program writes: strings are valid UTF-8, numbers are decimal integers. Nesting is
  counted as the scanner does.
\<close>

definition integer_literal :: "string \<Rightarrow> bool" where
  "integer_literal n \<longleftrightarrow> plain_numeral (if take 1 n = ''-'' then tl n else n)"

fun json_ok :: "nat \<Rightarrow> json \<Rightarrow> bool" where
  "json_ok d JNull = True"
| "json_ok d (JBool b) = True"
| "json_ok d (JNum n) = integer_literal n"
| "json_ok d (JStr t) = utf8_valid t"
| "json_ok d (JArr vs) = (d \<noteq> 0 \<and> (\<forall>v\<in>set vs. json_ok (d - 1) v))"
| "json_ok d (JObj kvs) = (d \<noteq> 0 \<and> (\<forall>kv\<in>set kvs. utf8_valid (fst kv) \<and> json_ok (d - 1) (snd kv)))"

definition ends_value :: "string \<Rightarrow> bool" where
  "ends_value x \<longleftrightarrow> x = [] \<or> hd x \<in> {CHR '','', CHR '']'', CHR ''}''}"

lemma starts_with_Cons [simp]:
  "starts_with (c # w) (d # s) \<longleftrightarrow> d = c \<and> starts_with w s" "starts_with [] s"
  "\<not> starts_with (c # w) []"
  by (auto simp: starts_with_def)

lemma skip_space_Cons: "\<not> json_space c \<Longrightarrow> skip_space (c # s) = c # s"
  by (simp add: skip_space_def)

lemma quote_char_other [simp]:
  "quote_char \<noteq> CHR ''{''" "quote_char \<noteq> CHR ''[''" "quote_char \<noteq> CHR ''-''"
  "quote_char \<noteq> CHR '']''" "quote_char \<noteq> CHR ''}''" "quote_char \<noteq> CHR ''t''"
  "quote_char \<noteq> CHR ''f''" "quote_char \<noteq> CHR ''n''" "\<not> json_space quote_char"
  "\<not> is_digit quote_char"
  by (simp_all add: code_eq_iff code_def quote_char_def json_space_def is_digit_def)

lemmas other_quote_char [simp] = quote_char_other(1-8) [symmetric]

lemma digit_char_zero: "digit_char 0 = CHR ''0''"
  by (simp add: code_eq_iff code_def digit_char_def)

lemma skip_space_punctuation [simp]:
  "skip_space (CHR '','' # s) = CHR '','' # s" "skip_space (CHR '']'' # s) = CHR '']'' # s"
  "skip_space (CHR ''}'' # s) = CHR ''}'' # s" "skip_space (CHR '':'' # s) = CHR '':'' # s"
  "skip_space (CHR ''{'' # s) = CHR ''{'' # s" "skip_space (CHR ''['' # s) = CHR ''['' # s"
  "skip_space (quote_char # s) = quote_char # s" "skip_space [] = []"
  "skip_space (CHR ''t'' # s) = CHR ''t'' # s" "skip_space (CHR ''f'' # s) = CHR ''f'' # s"
  "skip_space (CHR ''n'' # s) = CHR ''n'' # s" "skip_space (CHR ''-'' # s) = CHR ''-'' # s"
  by (simp_all add: skip_space_def) (auto simp: json_space_def code_def)

lemma digit_not_space: "is_digit c \<Longrightarrow> \<not> json_space c"
  by (auto simp: json_space_def is_digit_def code_def)

lemma ends_value_digits: "ends_value x \<Longrightarrow> takeWhile is_digit x = [] \<and> dropWhile is_digit x = x"
  by (cases x) (auto simp: ends_value_def is_digit_def)

lemma span_numeral:
  assumes "list_all is_digit ds" and "ends_value x"
  shows "span_digits (ds @ x) = (ds, x)"
proof -
  have "\<forall>c\<in>set ds. is_digit c" using assms(1) by (simp add: list_all_iff)
  then show ?thesis
    using ends_value_digits [OF assms(2)]
    by (simp add: span_digits_def takeWhile_append2 dropWhile_append2)
qed

lemma number_end:
  assumes "ends_value x"
  shows "number_frac x = Some ([], x)" and "number_exp x = Some ([], x)"
  using assms by (cases x; auto simp: ends_value_def number_frac_def number_exp_def)+

lemma number_int_numeral:
  assumes "plain_numeral ds" and "ends_value x"
  shows "number_int (ds @ x) = Some (ds, x)"
proof (cases "ds = [digit_char 0]")
  case True
  then show ?thesis by (simp add: number_int_def digit_char_zero)
next
  case False
  with assms(1) obtain c r where ds: "ds = c # r" "is_digit c" "digit_val c \<noteq> 0" "list_all is_digit r"
    by (auto simp: plain_numeral_def)
  then have "c \<noteq> CHR ''0''" by (auto simp: digit_val_def)
  then show ?thesis
    using ds span_numeral [of ds x] assms(2) by (simp add: number_int_def)
qed

lemma plain_numeral_first: "plain_numeral ds \<Longrightarrow> \<exists>c r. ds = c # r \<and> is_digit c"
  by (auto simp: plain_numeral_def)

lemma parse_number_literal:
  assumes "integer_literal n" and "ends_value x"
  shows "parse_number (n @ x) = Some (n, x)"
proof (cases "take 1 n = ''-''")
  case True
  then obtain ds where n: "n = CHR ''-'' # ds" by (cases n) auto
  with assms(1) have "plain_numeral ds" by (simp add: integer_literal_def)
  then show ?thesis
    using number_int_numeral [OF _ assms(2)] number_end [OF assms(2)] n
    by (simp add: parse_number_def)
next
  case False
  then have p: "plain_numeral n" using assms(1) by (simp add: integer_literal_def)
  then obtain c r where "n = c # r" "is_digit c" using plain_numeral_first by blast
  then show ?thesis
    using number_int_numeral [OF p assms(2)] number_end [OF assms(2)] digit_not_sign [of c]
    by (simp add: parse_number_def)
qed

lemma literal_start:
  assumes "integer_literal n"
  obtains c r where "n = c # r" and "c = CHR ''-'' \<or> is_digit c"
proof (cases "take 1 n = ''-''")
  case True
  then show thesis using that by (cases n) auto
next
  case False
  with assms plain_numeral_first that show thesis by (auto simp: integer_literal_def)
qed

lemma parse_value_number:
  assumes "integer_literal n" and "ends_value x"
  shows "parse_value d (n @ x) = Some (JNum n, x)"
proof -
  obtain c r where n: "n = c # r" "c = CHR ''-'' \<or> is_digit c" by (rule literal_start [OF assms(1)])
  then have "skip_space (n @ x) = c # r @ x"
    using digit_not_space by (auto simp: skip_space_Cons)
  moreover have "c \<noteq> quote_char" using n(2) by auto
  moreover have "c \<notin> {CHR ''{'', CHR ''['', CHR ''t'', CHR ''f'', CHR ''n''}"
    using n(2) by (auto simp: is_digit_def)
  ultimately show ?thesis
    using parse_number_literal [OF assms] n
    by (subst parse_value.simps) simp
qed

lemma json_text_start:
  assumes "json_ok d j"
  obtains c r where "json_text j = c # r" and "\<not> json_space c" and "c \<noteq> CHR '']''"
proof (cases j)
  case (JNum n)
  with assms obtain c r where n: "n = c # r" "c = CHR ''-'' \<or> is_digit c"
    using literal_start by (metis json_ok.simps(3))
  then have "\<not> json_space c" "c \<noteq> CHR '']''"
    using digit_not_space by (auto simp: json_space_def code_def is_digit_def)
  with that n JNum show thesis by simp
next
  case (JStr t)
  with that show thesis by (simp add: json_quote_def)
next
  case (JBool b)
  with that show thesis by (cases b) (auto simp: json_space_def code_def)
qed (use that in \<open>auto simp: json_space_def code_def\<close>)

lemma json_quote_Cons: "json_quote s @ x = quote_char # tl (json_quote s) @ x"
  by (simp add: json_quote_def)

lemma length_json_text: "json_ok d j \<Longrightarrow> 0 < length (json_text j)"
  by (rule json_text_start) auto

lemma parse_string:
  assumes "utf8_valid s"
  shows "parse_value d (json_quote s @ x) = Some (JStr s, x)"
proof -
  show ?thesis
    unfolding json_quote_Cons
    by (subst parse_value.simps) (simp add: conjunct2 [OF unquote_quote [OF assms]])
qed

lemma ends_value_punctuation [simp]:
  "ends_value (CHR '','' # x)" "ends_value (CHR '']'' # x)" "ends_value (CHR ''}'' # x)" "ends_value []"
  by (simp_all add: ends_value_def)

lemma json_text_space: "json_ok d j \<Longrightarrow> skip_space (json_text j @ x) = json_text j @ x"
  by (erule json_text_start) (simp add: skip_space_Cons)

text \<open>A value, the elements of an array, the members of an object, one step each.\<close>

lemma parse_items_last:
  assumes "parse_value d (json_text v @ CHR '']'' # x) = Some (v, CHR '']'' # x)"
  shows "parse_items d (json_text v @ CHR '']'' # x) = Some ([v], x)"
  using assms by (subst parse_items.simps) simp

lemma parse_items_more:
  assumes "parse_value d (json_text v @ CHR '','' # y) = Some (v, CHR '','' # y)"
    and "parse_items d y = Some (vs, x)"
  shows "parse_items d (json_text v @ CHR '','' # y) = Some (v # vs, x)"
  using assms by (subst parse_items.simps) simp

lemma parse_members_last:
  assumes "utf8_valid k" and "parse_value d (json_text v @ CHR ''}'' # x) = Some (v, CHR ''}'' # x)"
  shows "parse_members d (json_quote k @ CHR '':'' # json_text v @ CHR ''}'' # x) = Some ([(k, v)], x)"
  unfolding json_quote_Cons
  using assms conjunct2 [OF unquote_quote [OF assms(1)]] by (subst parse_members.simps) simp

lemma parse_members_more:
  assumes "utf8_valid k" and "parse_value d (json_text v @ CHR '','' # y) = Some (v, CHR '','' # y)"
    and "parse_members d y = Some (kvs, x)"
  shows "parse_members d (json_quote k @ CHR '':'' # json_text v @ CHR '','' # y) =
    Some ((k, v) # kvs, x)"
  unfolding json_quote_Cons
  using assms conjunct2 [OF unquote_quote [OF assms(1)]] by (subst parse_members.simps) simp

lemma parse_array:
  assumes "d \<noteq> 0" and "vs = [] \<or> parse_items (d - 1) (json_items vs @ CHR '']'' # x) = Some (vs, x)"
    and "vs \<noteq> [] \<Longrightarrow> json_ok (d - 1) (hd vs)"
  shows "parse_value d (json_text (JArr vs) @ x) = Some (JArr vs, x)"
proof (cases vs)
  case Nil
  then show ?thesis using assms(1) by (subst parse_value.simps) simp
next
  case (Cons v rest)
  then obtain t where "json_items vs = json_text v @ t" by (cases rest) auto
  moreover obtain c r where "json_text v = c # r" "\<not> json_space c" "c \<noteq> CHR '']''"
    using assms(3) Cons by (auto intro: json_text_start)
  ultimately have "\<not> starts_with '']'' (skip_space (json_items vs @ CHR '']'' # x))"
    by (simp add: skip_space_Cons)
  with assms Cons show ?thesis by (subst parse_value.simps) simp
qed

lemma parse_object:
  assumes "d \<noteq> 0" and "kvs = [] \<or> parse_members (d - 1) (json_fields kvs @ CHR ''}'' # x) = Some (kvs, x)"
  shows "parse_value d (json_text (JObj kvs) @ x) = Some (JObj kvs, x)"
proof (cases kvs)
  case Nil
  then show ?thesis using assms(1) by (subst parse_value.simps) simp
next
  case (Cons kv rest)
  then obtain t where "json_fields kvs = quote_char # t"
    by (cases kv; cases rest) (auto simp: json_quote_def)
  then have "\<not> starts_with ''}'' (skip_space (json_fields kvs @ CHR ''}'' # x))" by simp
  with assms Cons show ?thesis by (subst parse_value.simps) simp
qed

lemma parse_text:
  "json_ok d j \<Longrightarrow> ends_value x \<Longrightarrow> parse_value d (json_text j @ x) = Some (j, x)"
  "(\<And>v. v \<in> set vs \<Longrightarrow> json_ok d v) \<Longrightarrow> vs \<noteq> [] \<Longrightarrow>
   parse_items d (json_items vs @ CHR '']'' # x) = Some (vs, x)"
  "(\<And>kv. kv \<in> set kvs \<Longrightarrow> utf8_valid (fst kv) \<and> json_ok d (snd kv)) \<Longrightarrow> kvs \<noteq> [] \<Longrightarrow>
   parse_members d (json_fields kvs @ CHR ''}'' # x) = Some (kvs, x)"
proof (induction j and vs and kvs arbitrary: d x and d x and d x
    rule: json_text_json_items_json_fields.induct)
  case 1
  then show ?case by (subst parse_value.simps) simp
next
  case (2 b)
  then show ?case by (subst parse_value.simps) simp
next
  case (3 n)
  then show ?case by (simp add: parse_value_number)
next
  case (4 t)
  then show ?case by (simp add: parse_string)
next
  case (5 vs)
  show ?case
  proof (rule parse_array)
    show "vs = [] \<or> parse_items (d - 1) (json_items vs @ CHR '']'' # x) = Some (vs, x)"
      using 5 by (cases "vs = []") simp_all
  qed (use 5 in auto)
next
  case (6 kvs)
  show ?case
    by (rule parse_object) (use 6 in auto)
next
  case (8 v)
  then show ?case by (simp add: parse_items_last)
next
  case (9 v w vs)
  from 9 show ?case by (simp add: parse_items_more)
next
  case (11 k v)
  then show ?case by (simp add: parse_members_last)
next
  case (12 k v kv kvs)
  have kv: "utf8_valid k" "json_ok d v" using 12(3) [of "(k, v)"] by simp_all
  have "parse_members d (json_fields (kv # kvs) @ CHR ''}'' # x) = Some (kv # kvs, x)"
    using 12(3) by (intro 12(2)) simp_all
  from parse_members_more [OF kv(1) 12(1) [OF kv(2)] this] show ?case by simp
qed simp_all

lemma parse_document_text:
  "json_ok max_nesting j \<Longrightarrow> parse_document (json_text j) = Some j"
  using parse_text(1) [of max_nesting j "[]"] by (simp add: parse_document_def)

section \<open>Structs\<close>

text \<open>
  A member of an object sets the field of the same name, or, when there is none, the first one
  that is equal up to case folding. The letters outside ASCII that fold to ASCII letters are the
  long s (U+017F) and the Kelvin sign (U+212A).
\<close>

definition lower_char :: "char \<Rightarrow> char" where
  "lower_char c =
     (if 65 \<le> (of_char c :: nat) \<and> (of_char c :: nat) \<le> 90 then char_of (of_char c + 32 :: nat) else c)"

definition fold_rune :: "string \<Rightarrow> string" where
  "fold_rune r =
     (if r = map byte_char [0xC5, 0xBF] then ''s''
      else if r = map byte_char [0xE2, 0x84, 0xAA] then ''k''
      else map lower_char r)"

definition fold_name :: "string \<Rightarrow> string" where
  "fold_name s = concat (map fold_rune (runes s))"

type_synonym 'r field = "string \<times> (json \<Rightarrow> 'r \<Rightarrow> err + 'r)"

definition find_field :: "'r field list \<Rightarrow> string \<Rightarrow> (json \<Rightarrow> 'r \<Rightarrow> err + 'r) option" where
  "find_field fs k =
     (case map_of fs k of
        Some fld \<Rightarrow> Some fld
      | None \<Rightarrow> map_option snd (find (\<lambda>f. fold_name (fst f) = fold_name k) fs))"

text \<open>\<open>strict\<close> is \<^verbatim>\<open>DisallowUnknownFields\<close>.\<close>

fun decode_fields :: "bool \<Rightarrow> 'r field list \<Rightarrow> (string \<times> json) list \<Rightarrow> 'r \<Rightarrow> err + 'r" where
  "decode_fields strict fs [] r = Inr r"
| "decode_fields strict fs ((k, v) # kvs) r =
     (case find_field fs k of
        None \<Rightarrow> if strict then Inl (ErrText ''unknown field'') else decode_fields strict fs kvs r
      | Some fld \<Rightarrow> rbind (fld v r) (decode_fields strict fs kvs))"

definition decode_struct :: "bool \<Rightarrow> 'r field list \<Rightarrow> json \<Rightarrow> 'r \<Rightarrow> err + 'r" where
  "decode_struct strict fs v r =
     (case v of
        JObj kvs \<Rightarrow> decode_fields strict fs kvs r
      | JNull \<Rightarrow> Inr r
      | _ \<Rightarrow> Inl (ErrText ''cannot unmarshal into struct''))"

text \<open>A field of kind string; \<^verbatim>\<open>null\<close> leaves it alone.\<close>

definition set_string :: "(string \<Rightarrow> 'r \<Rightarrow> 'r) \<Rightarrow> json \<Rightarrow> 'r \<Rightarrow> err + 'r" where
  "set_string upd v r =
     (case v of
        JStr s \<Rightarrow> Inr (upd s r)
      | JNull \<Rightarrow> Inr r
      | _ \<Rightarrow> Inl (ErrText ''cannot unmarshal into string''))"

text \<open>A field that decodes the value itself, \<^verbatim>\<open>UnmarshalJSON\<close>.\<close>

definition set_custom :: "(json \<Rightarrow> err + 'v) \<Rightarrow> ('v \<Rightarrow> 'r \<Rightarrow> 'r) \<Rightarrow> json \<Rightarrow> 'r \<Rightarrow> err + 'r" where
  "set_custom decode upd v r = rbind (decode v) (\<lambda>x. Inr (upd x r))"

text \<open>A field that decodes a text, \<^verbatim>\<open>UnmarshalText\<close>.\<close>

definition set_text :: "(string \<Rightarrow> 'v option) \<Rightarrow> ('v \<Rightarrow> 'r \<Rightarrow> 'r) \<Rightarrow> json \<Rightarrow> 'r \<Rightarrow> err + 'r" where
  "set_text parse upd v r =
     (case v of
        JStr s \<Rightarrow> (case parse s of None \<Rightarrow> Inl (ErrText ''invalid text'') | Some x \<Rightarrow> Inr (upd x r))
      | JNull \<Rightarrow> Inr r
      | _ \<Rightarrow> Inl (ErrText ''cannot unmarshal into text''))"

lemma find_field_exact: "map_of fs k = Some fld \<Longrightarrow> find_field fs k = Some fld"
  by (simp add: find_field_def)

end
