(* ===== verification/Codec.thy ===== *)
theory Codec
  imports Money Transaction Ledger JsonDecode
begin

text \<open>
  JSON forms of the domain values: \<^verbatim>\<open>Money.MarshalJSON\<close> and
  \<^verbatim>\<open>Money.UnmarshalJSON\<close> (\<^verbatim>\<open>internal/model/money.go\<close>), and the texts of the
  string types \<^verbatim>\<open>Kind\<close>, \<^verbatim>\<open>Status\<close> and \<^verbatim>\<open>LedgerDirection\<close>.
\<close>

section \<open>String types\<close>

fun kind_text :: "kind \<Rightarrow> string" where
  "kind_text Opening = ''OPENING''"
| "kind_text Bet = ''BET''"
| "kind_text Win = ''WIN''"
| "kind_text Loss = ''LOSS''"
| "kind_text Refund = ''REFUND''"
| "kind_text Rollback = ''ROLLBACK''"
| "kind_text (OtherKind s) = s"

definition kind_of :: "string \<Rightarrow> kind" where
  "kind_of s =
     (if s = ''OPENING'' then Opening else if s = ''BET'' then Bet else if s = ''WIN'' then Win
      else if s = ''LOSS'' then Loss else if s = ''REFUND'' then Refund
      else if s = ''ROLLBACK'' then Rollback else OtherKind s)"

fun status_text :: "status \<Rightarrow> string" where
  "status_text Pending = ''PENDING''"
| "status_text PendingReference = ''PENDING_REFERENCE''"
| "status_text Processed = ''PROCESSED''"
| "status_text Rejected = ''REJECTED''"
| "status_text Failed = ''FAILED''"
| "status_text (OtherStatus s) = s"

fun direction_text :: "direction \<Rightarrow> string" where
  "direction_text Debit = ''DEBIT''"
| "direction_text Credit = ''CREDIT''"
| "direction_text (OtherDirection s) = s"

section \<open>Money on the wire\<close>

definition money_json :: "(string \<Rightarrow> bool) \<Rightarrow> money \<Rightarrow> err + json" where
  "money_json known m =
     (if \<not> money_valid known m then Inl ErrInvalidMoney
      else rbind (money_amount known m) (\<lambda>amount.
        Inr (JObj [(''amount'', JStr amount), (''currency'', JStr (currency m))])))"

definition money_wire :: "(string \<times> string) field list" where
  "money_wire =
     [(''amount'', set_string (\<lambda>s w. (s, snd w))), (''currency'', set_string (\<lambda>s w. (fst w, s)))]"

text \<open>
  The value the decoder hands to \<^verbatim>\<open>UnmarshalJSON\<close>, and the method on the bytes: one
  value, without unknown fields, and nothing but white space after it.
\<close>

definition money_of_json :: "(string \<Rightarrow> bool) \<Rightarrow> json \<Rightarrow> err + money" where
  "money_of_json known v =
     rbind (decode_struct True money_wire v ([], [])) (\<lambda>(amount, code). parse_money known amount code)"

definition money_unmarshal :: "(string \<Rightarrow> bool) \<Rightarrow> string \<Rightarrow> err + money" where
  "money_unmarshal known data =
     (case parse_value max_nesting data of
        None \<Rightarrow> Inl (ErrText ''invalid JSON'')
      | Some (v, rest) \<Rightarrow>
          rbind (decode_struct True money_wire v ([], [])) (\<lambda>(amount, code).
            if skip_space rest \<noteq> [] then Inl ErrInvalidMoney else parse_money known amount code))"

lemma money_unmarshal_text:
  "json_ok max_nesting v \<Longrightarrow> money_unmarshal known (json_text v) = money_of_json known v"
  using parse_text(1) [of max_nesting v "[]"] by (simp add: money_unmarshal_def money_of_json_def)

lemma money_json_Inr_iff [go_res]:
  "(\<exists>j. money_json known m = Inr j) \<longleftrightarrow> money_valid known m"
  by (auto simp: money_json_def go_res money_amount_def)

lemma money_json_ok: "money_valid known m \<Longrightarrow> \<exists>j. money_json known m = Inr j"
  by (simp add: money_json_Inr_iff)

lemma money_json_parse:
  assumes "money_valid known m" and "0 \<le> sint (minor m)" and "money_amount known m = Inr a"
  shows "parse_money known a (currency m) = Inr m"
proof -
  let ?n = "nat (sint (minor m))"
  have n: "nat \<bar>sint (minor m)\<bar> = ?n" "?n \<le> 9223372036854775807"
    using assms(2) sint64_range [of "minor m"] by simp_all
  have at: "a = decimal (digits_of (?n div 100)) (two_digits (?n mod 100))"
    using assms(2,3) money_amount_text [OF assms(1)] n by simp
  show ?thesis
    unfolding at using assms n two_digits_facts [of "?n mod 100"]
    by (subst parse_money_decimal)
       (auto simp: amount_cents_digits plain_numeral_digits_of money_valid_def)
qed

lemma decimal_ascii:
  "list_all is_digit ds \<Longrightarrow> list_all is_digit es \<Longrightarrow> list_all (\<lambda>c. code c < 128) (decimal ds es)"
  by (auto simp: decimal_def is_digit_def code_def list_all_iff)

lemma money_amount_valid:
  assumes "money_valid known m" and "0 \<le> sint (minor m)" and "money_amount known m = Inr a"
  shows "utf8_valid a"
proof -
  let ?n = "nat (sint (minor m))"
  have n: "nat \<bar>sint (minor m)\<bar> = ?n" using assms(2) by simp
  have at: "a = decimal (digits_of (?n div 100)) (two_digits (?n mod 100))"
    using assms(2,3) money_amount_text [OF assms(1)] n by simp
  show ?thesis
    unfolding at using two_digits_facts [of "?n mod 100"] digits_of_all
    by (intro ascii_valid decimal_ascii) auto
qed

lemma currency_valid: "money_valid known m \<Longrightarrow> utf8_valid (currency m)"
proof -
  assume "money_valid known m"
  then have "rx_match currency_pattern (currency m)"
    by (simp only: money_valid_def valid_currency_def split: if_split_asm)
  then show ?thesis
    by (intro ascii_valid) (auto simp: currency_pattern_def is_upper_letter_def code_def)
qed

lemma money_of_json_fields:
  "money_of_json known (JObj [(''amount'', JStr a), (''currency'', JStr c)]) = parse_money known a c"
  "money_of_json known (JObj [(''currency'', JStr c), (''amount'', JStr a)]) = parse_money known a c"
  by (simp_all add: money_of_json_def decode_struct_def money_wire_def find_field_def set_string_def)

lemma money_fields_ok:
  assumes "utf8_valid a" and "utf8_valid c"
  shows "json_ok max_nesting (JObj [(''amount'', JStr a), (''currency'', JStr c)])"
    and "json_ok max_nesting (JObj [(''currency'', JStr c), (''amount'', JStr a)])"
proof -
  have "utf8_valid ''amount''" "utf8_valid ''currency''"
    by (rule ascii_valid, simp add: code_def)+
  with assms show "json_ok max_nesting (JObj [(''amount'', JStr a), (''currency'', JStr c)])"
    and "json_ok max_nesting (JObj [(''currency'', JStr c), (''amount'', JStr a)])"
    by (simp_all add: max_nesting_def)
qed



end
