(* ===== verification/Sha256.thy ===== *)
theory Sha256
  imports Json
begin

unbundle bit_operations_syntax

text \<open>
  \<^verbatim>\<open>crypto/sha256.Sum256\<close> (FIPS 180-4) and \<^verbatim>\<open>encoding/hex.EncodeToString\<close>, both of
  Go's standard library, on strings of bytes. What the program relies on is the shape of the
  result: 64 lower-case hexadecimal characters, the length \<^verbatim>\<open>validateWagerTransaction\<close>
  and the column \<^verbatim>\<open>payload_hash char(64)\<close> require.
\<close>

type_synonym word32 = "32 word"

text \<open>The constants, eight words to a numeral.\<close>

fun unpack :: "nat \<Rightarrow> int \<Rightarrow> word32 list" where
  "unpack 0 i = []"
| "unpack (Suc n) i = unpack n (i div 2 ^ 32) @ [word_of_int i]"

definition sha_k :: "word32 list" where
  "sha_k = concat (map (unpack 8)
     [0x428a2f9871374491b5c0fbcfe9b5dba53956c25b59f111f1923f82a4ab1c5ed5,
      0xd807aa9812835b01243185be550c7dc372be5d7480deb1fe9bdc06a7c19bf174,
      0xe49b69c1efbe47860fc19dc6240ca1cc2de92c6f4a7484aa5cb0a9dc76f988da,
      0x983e5152a831c66db00327c8bf597fc7c6e00bf3d5a7914706ca635114292967,
      0x27b70a852e1b21384d2c6dfc53380d13650a7354766a0abb81c2c92e92722c85,
      0xa2bfe8a1a81a664bc24b8b70c76c51a3d192e819d6990624f40e3585106aa070,
      0x19a4c1161e376c082748774c34b0bcb5391c0cb34ed8aa4a5b9cca4f682e6ff3,
      0x748f82ee78a5636f84c878148cc7020890befffaa4506cebbef9a3f7c67178f2])"

definition sha_h0 :: "word32 list" where
  "sha_h0 = unpack 8 0x6a09e667bb67ae853c6ef372a54ff53a510e527f9b05688c1f83d9ab5be0cd19"

lemma length_unpack: "length (unpack n i) = n"
  by (induction n arbitrary: i) simp_all

definition shift_r :: "nat \<Rightarrow> word32 \<Rightarrow> word32" where
  "shift_r n x = drop_bit n x"

definition sigma0 :: "word32 \<Rightarrow> word32" where
  "sigma0 x = (word_rotr 7 x XOR word_rotr 18 x) XOR shift_r 3 x"

definition sigma1 :: "word32 \<Rightarrow> word32" where
  "sigma1 x = (word_rotr 17 x XOR word_rotr 19 x) XOR shift_r 10 x"

definition big_sigma0 :: "word32 \<Rightarrow> word32" where
  "big_sigma0 x = (word_rotr 2 x XOR word_rotr 13 x) XOR word_rotr 22 x"

definition big_sigma1 :: "word32 \<Rightarrow> word32" where
  "big_sigma1 x = (word_rotr 6 x XOR word_rotr 11 x) XOR word_rotr 25 x"

definition sha_choose :: "word32 \<Rightarrow> word32 \<Rightarrow> word32 \<Rightarrow> word32" where
  "sha_choose x y z = (x AND y) XOR ((NOT x) AND z)"

definition sha_majority :: "word32 \<Rightarrow> word32 \<Rightarrow> word32 \<Rightarrow> word32" where
  "sha_majority x y z = ((x AND y) XOR (x AND z)) XOR (y AND z)"

text \<open>The message schedule, newest word first; \<open>n\<close> counts the words still to come.\<close>

fun schedule :: "nat \<Rightarrow> word32 list \<Rightarrow> word32 list" where
  "schedule 0 ws = ws"
| "schedule (Suc n) ws =
     schedule n ((sigma1 (ws ! 1) + ws ! 6 + sigma0 (ws ! 14) + ws ! 15) # ws)"

fun sha_round :: "word32 list \<Rightarrow> word32 \<times> word32 \<Rightarrow> word32 list" where
  "sha_round [a, b, c, d, e, f, g, h] (k, w) =
     (let t1 = h + big_sigma1 e + sha_choose e f g + k + w;
          t2 = big_sigma0 a + sha_majority a b c
      in [t1 + t2, a, b, c, d + t1, e, f, g])"
| "sha_round hs kw = hs"

definition compress :: "word32 list \<Rightarrow> word32 list \<Rightarrow> word32 list" where
  "compress hs block =
     map2 (+) hs (foldl sha_round hs (zip sha_k (rev (schedule 48 (rev block)))))"

definition word_bytes :: "word32 \<Rightarrow> string" where
  "word_bytes w = map (\<lambda>i. byte_char (unat (take_bit 8 (drop_bit (8 * i) w)))) [3, 2, 1, 0]"

definition bytes_word :: "string \<Rightarrow> word32" where
  "bytes_word s = foldl (\<lambda>acc c. acc * 256 + of_nat (code c)) 0 s"

definition sha_pad :: "string \<Rightarrow> string" where
  "sha_pad s =
     (let n = length s
      in s @ [byte_char 0x80] @ replicate ((119 - n mod 64) mod 64) (byte_char 0) @
         map (\<lambda>i. byte_char (unat (take_bit 8 (drop_bit (8 * i) (of_nat (8 * n) :: int64))))) [7, 6, 5, 4, 3, 2, 1, 0])"

fun chunks :: "nat \<Rightarrow> string \<Rightarrow> string list" where
  "chunks n s = (if n = 0 \<or> s = [] then [] else take n s # chunks n (drop n s))"

declare chunks.simps [simp del]

definition sha256_sum :: "string \<Rightarrow> string" where
  "sha256_sum s =
     concat (map word_bytes
       (foldl compress sha_h0 (map (map bytes_word \<circ> chunks 4) (chunks 64 (sha_pad s)))))"

definition hex_encode :: "string \<Rightarrow> string" where
  "hex_encode s = concat (map (\<lambda>c. [hex_digit (code c div 16), hex_digit (code c mod 16)]) s)"

definition payload_hash :: "string \<Rightarrow> string" where
  "payload_hash s = hex_encode (sha256_sum s)"

lemma length_sha_round: "length hs = 8 \<Longrightarrow> length (sha_round hs kw) = 8"
  by (cases kw; cases "(hs, kw)" rule: sha_round.cases) (auto simp: Let_def)

lemma length_sha_rounds: "length hs = 8 \<Longrightarrow> length (foldl sha_round hs kws) = 8"
  by (induction kws arbitrary: hs) (simp_all add: length_sha_round)

lemma length_compress: "length hs = 8 \<Longrightarrow> length (compress hs b) = 8"
  by (simp add: compress_def length_sha_rounds)

lemma length_compress_blocks: "length hs = 8 \<Longrightarrow> length (foldl compress hs bs) = 8"
  by (induction bs arbitrary: hs) (simp_all add: length_compress)

lemma length_word_bytes: "length (word_bytes w) = 4"
  by (simp add: word_bytes_def)

lemma length_concat_const: "(\<And>x. x \<in> set xs \<Longrightarrow> length x = n) \<Longrightarrow> length (concat xs) = n * length xs"
  by (induction xs) auto

lemma length_sha256_sum: "length (sha256_sum s) = 32"
proof -
  have "length (foldl compress sha_h0 (map (map bytes_word \<circ> chunks 4) (chunks 64 (sha_pad s)))) = 8"
    by (rule length_compress_blocks) (simp only: sha_h0_def length_unpack)
  then show ?thesis
    unfolding sha256_sum_def by (subst length_concat_const [of _ 4]) (auto simp: length_word_bytes)
qed

lemma length_hex_encode: "length (hex_encode s) = 2 * length s"
  by (induction s) (simp_all add: hex_encode_def)

lemma length_payload_hash [simp]: "length (payload_hash s) = 64"
  by (simp add: payload_hash_def length_hex_encode length_sha256_sum)

end
