(* ===== verification/Events.thy ===== *)
theory Events
  imports Codec
begin

text \<open>
  \<^verbatim>\<open>internal/events/events.go\<close>: the four external events and the envelope
  \<^verbatim>\<open>build\<close> wraps them in. Identifiers and instants an event takes from
  \<^verbatim>\<open>uuid.New\<close> and \<^verbatim>\<open>time.Now\<close> are arguments; the text forms of UUIDs
  (\<^verbatim>\<open>google/uuid\<close>) and of instants are the parameters of \<open>texts\<close>.
\<close>

record texts =
  uuid_text :: "uuid \<Rightarrow> string"
  time_text :: "time \<Rightarrow> string"

record event =
  ev_id :: uuid
  ev_aggregate :: uuid
  ev_type :: string
  ev_payload :: string

record wallet_balance_changed =
  bc_wallet :: uuid
  bc_transaction :: uuid
  bc_direction :: direction
  bc_money :: money
  bc_before :: money
  bc_after :: money
  bc_version :: int64

text \<open>\<^verbatim>\<open>json:"...,omitempty"\<close> drops a field that holds the empty string.\<close>

definition omit_empty :: "string \<Rightarrow> string \<Rightarrow> (string \<times> json) list" where
  "omit_empty k s = (if s = [] then [] else [(k, JStr s)])"

definition balance_changed_json ::
    "texts \<Rightarrow> (string \<Rightarrow> bool) \<Rightarrow> wallet_balance_changed \<Rightarrow> err + json" where
  "balance_changed_json x known d =
     rbind (money_json known (bc_money d)) (\<lambda>jm.
     rbind (money_json known (bc_before d)) (\<lambda>jb.
     rbind (money_json known (bc_after d)) (\<lambda>ja.
       Inr (JObj
         [(''walletId'', JStr (uuid_text x (bc_wallet d))),
          (''transactionId'', JStr (uuid_text x (bc_transaction d))),
          (''direction'', JStr (direction_text (bc_direction d))),
          (''money'', jm), (''balanceBefore'', jb), (''balanceAfter'', ja),
          (''walletVersion'', JNum (int_text (sint (bc_version d))))]))))"

definition processed_json :: "texts \<Rightarrow> uuid \<Rightarrow> string \<Rightarrow> kind \<Rightarrow> json" where
  "processed_json x tid provider k =
     JObj ([(''transactionId'', JStr (uuid_text x tid))] @ omit_empty ''providerId'' provider @
           [(''kind'', JStr (kind_text k)), (''status'', JStr (status_text Processed))])"

definition rejected_json :: "texts \<Rightarrow> uuid \<Rightarrow> string \<Rightarrow> kind \<Rightarrow> string \<Rightarrow> json" where
  "rejected_json x tid provider k failure =
     JObj [(''transactionId'', JStr (uuid_text x tid)), (''providerId'', JStr provider),
           (''kind'', JStr (kind_text k)), (''status'', JStr (status_text Rejected)),
           (''failureCode'', JStr failure)]"

definition pending_json :: "texts \<Rightarrow> uuid \<Rightarrow> string \<Rightarrow> kind \<Rightarrow> json" where
  "pending_json x tid provider k =
     JObj [(''transactionId'', JStr (uuid_text x tid)), (''providerId'', JStr provider),
           (''kind'', JStr (kind_text k)), (''status'', JStr (status_text PendingReference))]"

definition build ::
    "texts \<Rightarrow> uuid \<Rightarrow> time \<Rightarrow> uuid \<Rightarrow> uuid \<Rightarrow> string \<Rightarrow> string \<Rightarrow> err + json \<Rightarrow> err + event" where
  "build x eid now aggregate correlation causation etype data =
     rbind data (\<lambda>j.
       Inr \<lparr>ev_id = eid, ev_aggregate = aggregate, ev_type = etype,
            ev_payload = json_text (JObj
              ([(''eventId'', JStr (uuid_text x eid)), (''eventType'', JStr etype),
                (''aggregateId'', JStr (uuid_text x aggregate)),
                (''correlationId'', JStr (uuid_text x correlation))] @
               omit_empty ''causationId'' causation @
               [(''occurredAt'', JStr (time_text x now)), (''version'', JNum (int_text 1)), (''data'', j)]))\<rparr>)"

definition new_wallet_balance_changed ::
    "texts \<Rightarrow> (string \<Rightarrow> bool) \<Rightarrow> uuid \<Rightarrow> time \<Rightarrow> wallet_balance_changed \<Rightarrow> string \<Rightarrow> err + event" where
  "new_wallet_balance_changed x known eid now d causation =
     build x eid now (bc_wallet d) (bc_transaction d) causation ''WalletBalanceChanged''
       (balance_changed_json x known d)"

definition new_wager_processed ::
    "texts \<Rightarrow> uuid \<Rightarrow> time \<Rightarrow> uuid \<Rightarrow> uuid \<Rightarrow> string \<Rightarrow> kind \<Rightarrow> string \<Rightarrow> err + event" where
  "new_wager_processed x eid now aggregate tid provider k causation =
     build x eid now aggregate tid causation ''WagerTransactionProcessed''
       (Inr (processed_json x tid provider k))"

definition new_wager_rejected ::
    "texts \<Rightarrow> uuid \<Rightarrow> time \<Rightarrow> uuid \<Rightarrow> uuid \<Rightarrow> string \<Rightarrow> kind \<Rightarrow> string \<Rightarrow> string \<Rightarrow> err + event" where
  "new_wager_rejected x eid now aggregate tid provider k failure causation =
     build x eid now aggregate tid causation ''WagerTransactionRejected''
       (Inr (rejected_json x tid provider k failure))"

definition new_wager_pending_reference ::
    "texts \<Rightarrow> uuid \<Rightarrow> time \<Rightarrow> uuid \<Rightarrow> uuid \<Rightarrow> string \<Rightarrow> kind \<Rightarrow> string \<Rightarrow> err + event" where
  "new_wager_pending_reference x eid now aggregate tid provider k causation =
     build x eid now aggregate tid causation ''WagerTransactionPendingReference''
       (Inr (pending_json x tid provider k))"

lemma build_Inr [go_res]:
  "build x eid now agg corr caus ty data = Inr e \<Longrightarrow>
   ev_id e = eid \<and> ev_aggregate e = agg \<and> ev_type e = ty"
  by (auto simp: build_def go_res)

lemma build_ok: "data = Inr j \<Longrightarrow> \<exists>e. build x eid now agg corr caus ty data = Inr e"
  by (simp add: build_def)

lemma balance_changed_ok:
  "money_valid known (bc_money d) \<Longrightarrow> money_valid known (bc_before d) \<Longrightarrow>
   money_valid known (bc_after d) \<Longrightarrow> \<exists>e. new_wallet_balance_changed x known eid now d causation = Inr e"
  unfolding new_wallet_balance_changed_def balance_changed_json_def
  using money_json_ok [of known "bc_money d"] money_json_ok [of known "bc_before d"]
    money_json_ok [of known "bc_after d"]
  by (auto simp: build_def)

lemmas event_facts = new_wallet_balance_changed_def new_wager_processed_def
  new_wager_rejected_def new_wager_pending_reference_def

end
