(* ===== verification/Usecases.thy ===== *)
theory Usecases
  imports Decision Codec Sha256 Events
begin

text \<open>
  \<^verbatim>\<open>internal/usecases\<close>: the service \<^verbatim>\<open>Wager\<close> over its interface
  \<^verbatim>\<open>WagerStore\<close>, the service \<^verbatim>\<open>Wallets\<close> over \<^verbatim>\<open>WalletStore\<close> and the
  values they exchange. The store is an argument of each operation (a Go interface); a call of
  it returns its result with the next state of the store. The laws the services rely on are the
  locales \<open>wager_store\<close> and \<open>wallet_store\<close> of theory \<open>StoreContract\<close>,
  interpreted on the PostgreSQL store in theory \<open>StoreService\<close>.
\<close>

section \<open>Values\<close>

record result =
  r_transaction :: uuid
  r_status :: status
  r_balance :: money
  r_failure :: string
  r_replay :: bool

record inbox_message =
  im_consumer :: string
  im_id :: string
  im_hash :: string

type_synonym decide_fn = "wallet \<Rightarrow> reference option \<Rightarrow> time \<Rightarrow> decision \<times> wallet"

type_synonym 's execute_fn = "operation \<Rightarrow> string \<Rightarrow> decide_fn \<Rightarrow> 's \<Rightarrow> (err + result) \<times> 's"

section \<open>The service Wager\<close>

definition canonical_operation :: "texts \<Rightarrow> (string \<Rightarrow> bool) \<Rightarrow> operation \<Rightarrow> err + string" where
  "canonical_operation x known op =
     rbind (money_json known (op_money op)) (\<lambda>m.
       Inr (json_text (json_map
         [(''externalTransactionId'', JStr (op_external op)),
          (''gameId'', JStr (op_game op)),
          (''kind'', JStr (kind_text (op_kind op))),
          (''money'', m),
          (''playerId'', JStr (uuid_text x (op_player op))),
          (''providerId'', JStr (op_provider op)),
          (''referenceExternalTransactionId'', JStr (op_reference op)),
          (''roundId'', JStr (op_round op)),
          (''walletId'', JStr (uuid_text x (op_wallet op)))])))"

text \<open>
  \<^verbatim>\<open>Wager.process\<close>: \<open>execute\<close> and \<open>execute_inbox\<close> are the two methods of the
  store, \<open>inbox\<close> the message of \<^verbatim>\<open>ProcessInbox\<close>, \<open>None\<close> for
  \<^verbatim>\<open>Process\<close>.
\<close>

definition wager_process ::
    "texts \<Rightarrow> (string \<Rightarrow> bool) \<Rightarrow> 's execute_fn \<Rightarrow> (inbox_message \<Rightarrow> 's execute_fn) \<Rightarrow>
     operation \<Rightarrow> inbox_message option \<Rightarrow> 's \<Rightarrow> (err + result) \<times> 's" where
  "wager_process x known execute execute_inbox op inbox s =
     (if blank (op_provider op) \<or> blank (op_external op) \<or> blank (op_key op) \<or>
         blank (op_round op) \<or> blank (op_game op) \<or> op_player op = uuid_nil \<or>
         op_wallet op = uuid_nil
      then (Inl ErrInvalidInput, s)
      else if validate_operation known (op_kind op) (op_money op) (op_reference op) \<noteq> Inr ()
      then (Inl ErrInvalidInput, s)
      else case canonical_operation x known op of
        Inl e \<Rightarrow> (Inl e, s)
      | Inr canonical \<Rightarrow>
          (case inbox of
             Some m \<Rightarrow> execute_inbox m op (payload_hash canonical) (decide known op) s
           | None \<Rightarrow> execute op (payload_hash canonical) (decide known op) s))"

definition wager_fail ::
    "texts \<Rightarrow> (string \<Rightarrow> bool) \<Rightarrow> 's execute_fn \<Rightarrow> operation \<Rightarrow> string \<Rightarrow> 's \<Rightarrow>
     (err + result) \<times> 's" where
  "wager_fail x known execute op failure s =
     (if blank failure then (Inl ErrInvalidInput, s)
      else if blank (op_provider op) \<or> blank (op_external op) \<or> blank (op_key op) \<or>
              op_player op = uuid_nil \<or> op_wallet op = uuid_nil
      then (Inl ErrInvalidInput, s)
      else if validate_operation known (op_kind op) (op_money op) (op_reference op) \<noteq> Inr ()
      then (Inl ErrInvalidInput, s)
      else case canonical_operation x known op of
        Inl e \<Rightarrow> (Inl e, s)
      | Inr canonical \<Rightarrow> execute op (payload_hash canonical) (fail_decision failure) s)"

section \<open>The service Wallets\<close>

definition wallets_open ::
    "(string \<Rightarrow> bool) \<Rightarrow> (wallet \<Rightarrow> 's \<Rightarrow> (err + unit) \<times> 's) \<Rightarrow> uuid \<Rightarrow> time \<Rightarrow> uuid \<Rightarrow> money \<Rightarrow> 's \<Rightarrow>
     (err + wallet) \<times> 's" where
  "wallets_open known create wid now player initial s =
     (case new_wallet known wid player initial now of
        Inl e \<Rightarrow> (Inl e, s)
      | Inr w \<Rightarrow>
          (case create w s of
             (Inl e, s') \<Rightarrow> (Inl e, s')
           | (Inr _, s') \<Rightarrow> (Inr w, s')))"

definition wallets_get :: "(uuid \<Rightarrow> 's \<Rightarrow> err + wallet) \<Rightarrow> uuid \<Rightarrow> 's \<Rightarrow> err + wallet" where
  "wallets_get get wid s = get wid s"

section \<open>Inputs\<close>

text \<open>The operations \<^verbatim>\<open>process\<close> hands on to its store.\<close>

definition operation_valid :: "(string \<Rightarrow> bool) \<Rightarrow> operation \<Rightarrow> bool" where
  "operation_valid known op \<longleftrightarrow>
     \<not> blank (op_provider op) \<and> \<not> blank (op_external op) \<and> \<not> blank (op_key op) \<and>
     \<not> blank (op_round op) \<and> \<not> blank (op_game op) \<and> op_player op \<noteq> 0 \<and> op_wallet op \<noteq> 0 \<and>
     validate_operation known (op_kind op) (op_money op) (op_reference op) = Inr ()"

definition operation_hash :: "texts \<Rightarrow> (string \<Rightarrow> bool) \<Rightarrow> operation \<Rightarrow> string" where
  "operation_hash x known op =
     (case canonical_operation x known op of Inl e \<Rightarrow> [] | Inr c \<Rightarrow> payload_hash c)"

lemma operation_valid_kind: "operation_valid known op \<Longrightarrow> external_kind (op_kind op)"
  by (auto simp: operation_valid_def external_kind_def go_res)

lemma canonical_ok:
  "money_valid known (op_money op) \<Longrightarrow> \<exists>c. canonical_operation x known op = Inr c"
  using money_json_ok [of known "op_money op"] by (auto simp: canonical_operation_def)

lemma wager_process_eq:
  "wager_process x known ex exi op inbox s =
   (if operation_valid known op
    then (case inbox of
            Some m \<Rightarrow> exi m op (operation_hash x known op) (decide known op) s
          | None \<Rightarrow> ex op (operation_hash x known op) (decide known op) s)
    else (Inl ErrInvalidInput, s))"
proof (cases "operation_valid known op")
  case True
  then obtain c where "canonical_operation x known op = Inr c"
    using canonical_ok validate_operation_money by (fastforce simp: operation_valid_def)
  then show ?thesis
    using True
    by (simp add: wager_process_def operation_valid_def operation_hash_def split: option.split)
qed (auto simp: wager_process_def operation_valid_def)

lemma wager_fail_eq:
  assumes "operation_valid known op"
  shows "wager_fail x known ex op failure s =
    (if blank failure then (Inl ErrInvalidInput, s)
     else ex op (operation_hash x known op) (fail_decision failure) s)"
proof -
  obtain c where "canonical_operation x known op = Inr c"
    using canonical_ok validate_operation_money assms by (fastforce simp: operation_valid_def)
  then show ?thesis
    using assms by (simp add: wager_fail_def operation_valid_def operation_hash_def)
qed

lemma length_operation_hash:
  "operation_valid known op \<Longrightarrow> length (operation_hash x known op) = 64"
  using canonical_ok [of known op x] validate_operation_money
  by (fastforce simp: operation_valid_def operation_hash_def)

section \<open>The canonical payload\<close>

text \<open>
  What the payload hash covers: \<open>texts_ok\<close> is what \<^verbatim>\<open>google/uuid\<close> promises of its
  text form, \<open>payload_fields_valid\<close> that the strings are UTF-8, as every string the JSON
  decoder produces is.
\<close>

definition texts_ok :: "texts \<Rightarrow> bool" where
  "texts_ok x \<longleftrightarrow> inj (uuid_text x) \<and> (\<forall>u. utf8_valid (uuid_text x u))"

definition payload_fields_valid :: "operation \<Rightarrow> bool" where
  "payload_fields_valid op \<longleftrightarrow>
     list_all utf8_valid [op_external op, op_game op, op_provider op, op_reference op, op_round op]"

lemma kind_text_valid: "external_kind k \<Longrightarrow> utf8_valid (kind_text k)"
  by (auto simp: external_kind_def intro!: ascii_valid) (simp_all add: code_def)

lemma kind_text_inj: "external_kind k \<Longrightarrow> external_kind k' \<Longrightarrow> kind_text k = kind_text k' \<longleftrightarrow> k = k'"
  by (auto simp: external_kind_def)

lemma canonical_text:
  assumes "canonical_operation x known op = Inr c"
  obtains a where "money_amount known (op_money op) = Inr a"
    and "c = json_text (JObj
         [(''externalTransactionId'', JStr (op_external op)),
          (''gameId'', JStr (op_game op)),
          (''kind'', JStr (kind_text (op_kind op))),
          (''money'', JObj [(''amount'', JStr a), (''currency'', JStr (currency (op_money op)))]),
          (''playerId'', JStr (uuid_text x (op_player op))),
          (''providerId'', JStr (op_provider op)),
          (''referenceExternalTransactionId'', JStr (op_reference op)),
          (''roundId'', JStr (op_round op)),
          (''walletId'', JStr (uuid_text x (op_wallet op)))])"
  using assms
  by (auto simp: canonical_operation_def money_json_def json_map_def go_res split: if_splits)

lemma json_quote_same:
  "json_quote s @ x = json_quote s' @ y \<Longrightarrow> utf8_valid s \<Longrightarrow> utf8_valid s' \<Longrightarrow>
   (s = s' \<Longrightarrow> x = y \<Longrightarrow> P) \<Longrightarrow> P"
  using json_quote_inj by blast

lemma json_quote_eqD:
  "json_quote s = json_quote s' \<Longrightarrow> utf8_valid s \<Longrightarrow> utf8_valid s' \<Longrightarrow> s = s'"
  using json_quote_inj [of s s' "[]" "[]"] by simp

lemma digit_text_valid: "list_all is_digit s \<Longrightarrow> list_all (\<lambda>c. code c < 128) s"
  by (auto simp: list_all_iff is_digit_def code_def)

lemma amount_valid:
  assumes "money_valid known m" and "money_amount known m = Inr a"
  shows "utf8_valid a"
proof -
  let ?n = "nat \<bar>sint (minor m)\<bar>"
  have "list_all (\<lambda>c. code c < 128) (digits_of (?n div 100))"
    and "list_all (\<lambda>c. code c < 128) (two_digits (?n mod 100))"
    using plain_numeral_digits_of [of "?n div 100"] two_digits_facts [of "?n mod 100"]
    by (auto dest: plain_numeral_digits intro: digit_text_valid)
  then show ?thesis
    using money_amount_text [OF assms(1)] assms(2)
    by (intro ascii_valid) (auto simp: decimal_def code_def)
qed

lemma currency_utf8: "money_valid known m \<Longrightarrow> utf8_valid (currency m)"
  by (rule ascii_valid)
     (auto simp: money_valid_def valid_currency_def currency_pattern_def is_upper_letter_def
       code_def split: if_splits)

lemma amount_inj:
  assumes "money_valid known m" and "money_valid known m'"
    and "0 \<le> sint (minor m)" and "0 \<le> sint (minor m')"
    and "money_amount known m = Inr a" and "money_amount known m' = Inr a"
    and "currency m = currency m'"
  shows "m = m'"
proof -
  have "parse_money known a (currency m) = Inr m"
    using money_json_parse [OF assms(1,3,5)] .
  moreover have "parse_money known a (currency m') = Inr m'"
    using money_json_parse [OF assms(2,4,6)] .
  ultimately show ?thesis unfolding assms(7) by (metis sum.inject(2))
qed

text \<open>The transport's idempotency key is not in the payload.\<close>

lemma canonical_operation_key [simp]:
  "canonical_operation x known (op\<lparr>op_key := k\<rparr>) = canonical_operation x known op"
  by (simp add: canonical_operation_def)

lemma canonical_fields:
  assumes texts: "texts_ok x"
    and op: "payload_fields_valid op" "external_kind (op_kind op)" "0 \<le> sint (minor (op_money op))"
    and op': "payload_fields_valid op'" "external_kind (op_kind op')" "0 \<le> sint (minor (op_money op'))"
    and c: "canonical_operation x known op = Inr c" and c': "canonical_operation x known op' = Inr c"
  shows "op_external op = op_external op' \<and> op_game op = op_game op' \<and> op_kind op = op_kind op' \<and>
    op_money op = op_money op' \<and> op_player op = op_player op' \<and>
    op_provider op = op_provider op' \<and> op_reference op = op_reference op' \<and>
    op_round op = op_round op' \<and> op_wallet op = op_wallet op'"
proof -
  have u: "utf8_valid (uuid_text x v)" "uuid_text x v = uuid_text x v' \<longleftrightarrow> v = v'" for v v'
    using texts by (auto simp: texts_ok_def dest: injD)
  have m: "money_valid known (op_money op)" "money_valid known (op_money op')"
    using c c' by (auto simp: canonical_operation_def money_json_def split: if_splits)
  have cur: "utf8_valid (currency mm)" if "money_valid known mm" for mm
    using that by (rule currency_utf8)
  obtain a where a: "money_amount known (op_money op) = Inr a" and ca: "c = json_text (JObj
         [(''externalTransactionId'', JStr (op_external op)),
          (''gameId'', JStr (op_game op)),
          (''kind'', JStr (kind_text (op_kind op))),
          (''money'', JObj [(''amount'', JStr a), (''currency'', JStr (currency (op_money op)))]),
          (''playerId'', JStr (uuid_text x (op_player op))),
          (''providerId'', JStr (op_provider op)),
          (''referenceExternalTransactionId'', JStr (op_reference op)),
          (''roundId'', JStr (op_round op)),
          (''walletId'', JStr (uuid_text x (op_wallet op)))])"
    using canonical_text [OF c] .
  obtain b where b: "money_amount known (op_money op') = Inr b" and cb: "c = json_text (JObj
         [(''externalTransactionId'', JStr (op_external op')),
          (''gameId'', JStr (op_game op')),
          (''kind'', JStr (kind_text (op_kind op'))),
          (''money'', JObj [(''amount'', JStr b), (''currency'', JStr (currency (op_money op')))]),
          (''playerId'', JStr (uuid_text x (op_player op'))),
          (''providerId'', JStr (op_provider op')),
          (''referenceExternalTransactionId'', JStr (op_reference op')),
          (''roundId'', JStr (op_round op')),
          (''walletId'', JStr (uuid_text x (op_wallet op')))])"
    using canonical_text [OF c'] .
  note valid = op(1) [unfolded payload_fields_valid_def, simplified]
    op'(1) [unfolded payload_fields_valid_def, simplified]
    kind_text_valid [OF op(2)] kind_text_valid [OF op'(2)] u(1)
    amount_valid [OF m(1) a] amount_valid [OF m(2) b] cur [OF m(1)] cur [OF m(2)]
  have "op_external op = op_external op' \<and> op_game op = op_game op' \<and>
      kind_text (op_kind op) = kind_text (op_kind op') \<and> a = b \<and>
      currency (op_money op) = currency (op_money op') \<and>
      uuid_text x (op_player op) = uuid_text x (op_player op') \<and>
      op_provider op = op_provider op' \<and> op_reference op = op_reference op' \<and>
      op_round op = op_round op' \<and> uuid_text x (op_wallet op) = uuid_text x (op_wallet op')"
    using trans [OF ca [symmetric] cb] valid
    by (simp del: append_Cons) (elim json_quote_same; simp add: json_quote_eqD del: append_Cons)+
  then show ?thesis
    using u(2) kind_text_inj [OF op(2) op'(2)] amount_inj [OF m op(3) op'(3) a] b by auto
qed

text \<open>
  C26: The canonical payload, whose hash identifies a request, is one text per business request:
  two operations have the same payload exactly when they agree on every field but the
  idempotency key. So a changed business field changes the hashed text, and a changed key
  does not.
\<close>

theorem canonical_payload_identifies:
  assumes "texts_ok x"
    and "payload_fields_valid op" and "payload_fields_valid op'"
    and "operation_valid known op" and "operation_valid known op'"
  shows "(\<exists>c. canonical_operation x known op = Inr c) \<and>
    (canonical_operation x known op = canonical_operation x known op' \<longleftrightarrow>
     op' = op\<lparr>op_key := op_key op'\<rparr>)"
proof -
  have k: "external_kind (op_kind op)" "external_kind (op_kind op')"
    using assms(4,5) operation_valid_kind by blast+
  have m: "money_valid known (op_money op) \<and> 0 \<le> sint (minor (op_money op))"
    "money_valid known (op_money op') \<and> 0 \<le> sint (minor (op_money op'))"
    using assms(4,5) validate_operation_money unfolding operation_valid_def by blast+
  obtain c where c: "canonical_operation x known op = Inr c"
    using canonical_ok m(1) by blast
  have "op' = op\<lparr>op_key := op_key op'\<rparr>" if eq: "canonical_operation x known op' = Inr c"
    using canonical_fields [OF assms(1,2) k(1) conjunct2 [OF m(1)] assms(3) k(2)
        conjunct2 [OF m(2)] c eq]
    by (intro operation.equality) simp_all
  moreover have "canonical_operation x known op' = Inr c" if eq: "op' = op\<lparr>op_key := op_key op'\<rparr>"
    by (subst eq) (simp add: c)
  ultimately have "canonical_operation x known op' = Inr c \<longleftrightarrow> op' = op\<lparr>op_key := op_key op'\<rparr>"
    by (rule iffI)
  then show ?thesis unfolding c by (metis (no_types))
qed

text \<open>A text form of UUIDs for examples: their bytes' ASCII numerals.\<close>

definition sample_texts :: texts where
  "sample_texts = \<lparr>uuid_text = \<lambda>u. digits_of (unat u), time_text = \<lambda>t. digits_of (nat t)\<rparr>"

lemma sample_texts_ok: "texts_ok sample_texts"
  unfolding texts_ok_def
proof (intro conjI allI)
  show "inj (uuid_text sample_texts)"
    by (rule injI) (metis sample_texts_def texts.select_convs(1) dec_value_digits_of word_unat_eq_iff)
  show "utf8_valid (uuid_text sample_texts u)" for u
    using plain_numeral_digits [OF plain_numeral_digits_of]
    by (auto simp: sample_texts_def intro: ascii_valid digit_text_valid)
qed

lemma canonical_payload_identifies_witness:
  "canonical_operation sample_texts brl_only sample_bet =
     canonical_operation sample_texts brl_only (sample_bet\<lparr>op_key := ''other''\<rparr>) \<and>
   canonical_operation sample_texts brl_only sample_bet \<noteq>
     canonical_operation sample_texts brl_only (sample_bet\<lparr>op_round := ''s''\<rparr>)"
proof -
  have v: "operation_valid brl_only (sample_bet\<lparr>op_key := k, op_round := r\<rparr>) \<and>
      payload_fields_valid (sample_bet\<lparr>op_key := k, op_round := r\<rparr>)"
    if "k \<in> {''k1'', ''other''}" "r \<in> {''r'', ''s''}" for k r
    using that
    by (auto simp: operation_valid_def sample_bet_def visible_not_blank visible_def
        validate_operation_ok payload_fields_valid_def code_def intro!: ascii_valid)
  have s: "sample_bet\<lparr>op_key := ''k1'', op_round := ''r''\<rparr> = sample_bet"
    "sample_bet\<lparr>op_key := ''other'', op_round := ''r''\<rparr> = sample_bet\<lparr>op_key := ''other''\<rparr>"
    "sample_bet\<lparr>op_key := ''k1'', op_round := ''s''\<rparr> = sample_bet\<lparr>op_round := ''s''\<rparr>"
    by (simp_all add: sample_bet_def)
  note v1 = v [of "''k1''" "''r''", unfolded s] and v2 = v [of "''other''" "''r''", unfolded s]
    and v3 = v [of "''k1''" "''s''", unfolded s]
  show ?thesis
    using canonical_payload_identifies [OF sample_texts_ok, of sample_bet
        "sample_bet\<lparr>op_key := ''other''\<rparr>" brl_only]
      canonical_payload_identifies [OF sample_texts_ok, of sample_bet
        "sample_bet\<lparr>op_round := ''s''\<rparr>" brl_only] v1 v2 v3
    by (auto simp: sample_bet_def)
qed

end
