(* ===== verification/Requests.thy ===== *)
theory Requests
  imports Usecases
begin

text \<open>
  Requests as JSON: the fields of \<^verbatim>\<open>usecases.Operation\<close> as the decoder sets them, the
  strict decoding of an HTTP body (\<^verbatim>\<open>decode\<close> in
  \<^verbatim>\<open>internal/controller/http.go\<close>) and the envelope and request of a queue message
  (\<^verbatim>\<open>internal/worker/workers.go\<close>). \<open>parsers\<close> holds the text decoders of
  \<^verbatim>\<open>google/uuid\<close> and of \<^verbatim>\<open>time.Time\<close>.
\<close>

record parsers =
  uuid_parse :: "string \<Rightarrow> uuid option"
  time_parse :: "string \<Rightarrow> time option"

section \<open>Operation\<close>

definition zero_operation :: operation where
  "zero_operation =
     \<lparr>op_provider = [], op_external = [], op_key = [], op_player = uuid_nil, op_wallet = uuid_nil,
      op_round = [], op_game = [], op_kind = OtherKind [], op_money = no_money, op_reference = []\<rparr>"

text \<open>The idempotency key has no field: its tag is \<^verbatim>\<open>json:"-"\<close>.\<close>

definition operation_fields :: "parsers \<Rightarrow> (string \<Rightarrow> bool) \<Rightarrow> operation field list" where
  "operation_fields y known =
     [(''providerId'', set_string (\<lambda>s p. p\<lparr>op_provider := s\<rparr>)),
      (''externalTransactionId'', set_string (\<lambda>s p. p\<lparr>op_external := s\<rparr>)),
      (''playerId'', set_text (uuid_parse y) (\<lambda>u p. p\<lparr>op_player := u\<rparr>)),
      (''walletId'', set_text (uuid_parse y) (\<lambda>u p. p\<lparr>op_wallet := u\<rparr>)),
      (''roundId'', set_string (\<lambda>s p. p\<lparr>op_round := s\<rparr>)),
      (''gameId'', set_string (\<lambda>s p. p\<lparr>op_game := s\<rparr>)),
      (''kind'', set_string (\<lambda>s p. p\<lparr>op_kind := kind_of s\<rparr>)),
      (''money'', set_custom (money_of_json known) (\<lambda>m p. p\<lparr>op_money := m\<rparr>)),
      (''referenceExternalTransactionId'', set_string (\<lambda>s p. p\<lparr>op_reference := s\<rparr>))]"

section \<open>HTTP bodies\<close>

text \<open>
  \<^verbatim>\<open>decode\<close>: at most 1 MiB, one JSON value without unknown fields, then the end of the
  body. \<open>None\<close> is \<^verbatim>\<open>false\<close>.
\<close>

definition max_body :: nat where
  "max_body = 1048576"

definition decode_body :: "'r field list \<Rightarrow> 'r \<Rightarrow> string \<Rightarrow> 'r option" where
  "decode_body fs zero body =
     (if max_body < length body then None
      else case parse_document body of
        None \<Rightarrow> None
      | Some v \<Rightarrow> (case decode_struct True fs v zero of Inl _ \<Rightarrow> None | Inr r \<Rightarrow> Some r))"

section \<open>Queue messages\<close>

text \<open>
  The two envelopes of \<^verbatim>\<open>workers.go\<close>: \<^verbatim>\<open>Data\<close> is a
  \<^verbatim>\<open>json.RawMessage\<close>, \<open>None\<close> when the field is missing. It is kept as the value it
  was scanned as, which is what decoding the raw bytes again gives.
\<close>

record message_envelope =
  me_id :: string
  me_type :: string
  me_data :: "json option"

definition no_envelope :: message_envelope where
  "no_envelope = \<lparr>me_id = [], me_type = [], me_data = None\<rparr>"

definition failure_fields :: "message_envelope field list" where
  "failure_fields =
     [(''type'', set_string (\<lambda>s e. e\<lparr>me_type := s\<rparr>)),
      (''data'', set_custom Inr (\<lambda>v e. e\<lparr>me_data := Some v\<rparr>))]"

definition envelope_fields :: "message_envelope field list" where
  "envelope_fields = (''messageId'', set_string (\<lambda>s e. e\<lparr>me_id := s\<rparr>)) # failure_fields"

text \<open>\<^verbatim>\<open>json.Unmarshal\<close> of a whole text, unknown fields ignored.\<close>

definition unmarshal :: "'r field list \<Rightarrow> 'r \<Rightarrow> string \<Rightarrow> 'r option" where
  "unmarshal fs zero body =
     (case parse_document body of
        None \<Rightarrow> None
      | Some v \<Rightarrow> (case decode_struct False fs v zero of Inl _ \<Rightarrow> None | Inr r \<Rightarrow> Some r))"

text \<open>
  The struct \<^verbatim>\<open>request\<close>: the fields of the embedded operation, promoted, and the key of
  its own.
\<close>

definition embed :: "'a field \<Rightarrow> ('a \<times> 'b) field" where
  "embed f = (fst f, \<lambda>v r. rbind (snd f v (fst r)) (\<lambda>a. Inr (a, snd r)))"

definition request_fields :: "parsers \<Rightarrow> (string \<Rightarrow> bool) \<Rightarrow> (operation \<times> string) field list" where
  "request_fields y known =
     map embed (operation_fields y known) @
     [(''idempotencyKey'', set_string (\<lambda>s r. (fst r, s)))]"

definition request_operation ::
    "parsers \<Rightarrow> (string \<Rightarrow> bool) \<Rightarrow> json option \<Rightarrow> operation option" where
  "request_operation y known data =
     (case data of
        None \<Rightarrow> None
      | Some v \<Rightarrow>
          (case decode_struct False (request_fields y known) v (zero_operation, []) of
             Inl _ \<Rightarrow> None
           | Inr (p, key) \<Rightarrow> Some (p\<lparr>op_key := key\<rparr>)))"

section \<open>Decoding what the encoder wrote\<close>

text \<open>What \<^verbatim>\<open>google/uuid\<close> promises: it parses the text it writes.\<close>

definition parses_uuids :: "parsers \<Rightarrow> texts \<Rightarrow> bool" where
  "parses_uuids y x \<longleftrightarrow> (\<forall>u. uuid_parse y (uuid_text x u) = Some u \<and> utf8_valid (uuid_text x u))"

lemma parses_uuids_texts: "parses_uuids y x \<Longrightarrow> texts_ok x"
  unfolding parses_uuids_def texts_ok_def by (metis injI option.inject)

lemma kind_of_text: "external_kind k \<Longrightarrow> kind_of (kind_text k) = k"
  by (auto simp: external_kind_def kind_of_def)

definition operation_json :: "texts \<Rightarrow> operation \<Rightarrow> string \<Rightarrow> (string \<times> json) list" where
  "operation_json x p a =
     [(''externalTransactionId'', JStr (op_external p)),
      (''gameId'', JStr (op_game p)),
      (''kind'', JStr (kind_text (op_kind p))),
      (''money'', JObj [(''amount'', JStr a), (''currency'', JStr (currency (op_money p)))]),
      (''playerId'', JStr (uuid_text x (op_player p))),
      (''providerId'', JStr (op_provider p)),
      (''referenceExternalTransactionId'', JStr (op_reference p)),
      (''roundId'', JStr (op_round p)),
      (''walletId'', JStr (uuid_text x (op_wallet p)))]"

lemma operation_fields_find:
  "find_field (operation_fields y known) ''providerId'' = Some (set_string (\<lambda>s p. p\<lparr>op_provider := s\<rparr>))"
  "find_field (operation_fields y known) ''externalTransactionId'' = Some (set_string (\<lambda>s p. p\<lparr>op_external := s\<rparr>))"
  "find_field (operation_fields y known) ''playerId'' = Some (set_text (uuid_parse y) (\<lambda>u p. p\<lparr>op_player := u\<rparr>))"
  "find_field (operation_fields y known) ''walletId'' = Some (set_text (uuid_parse y) (\<lambda>u p. p\<lparr>op_wallet := u\<rparr>))"
  "find_field (operation_fields y known) ''roundId'' = Some (set_string (\<lambda>s p. p\<lparr>op_round := s\<rparr>))"
  "find_field (operation_fields y known) ''gameId'' = Some (set_string (\<lambda>s p. p\<lparr>op_game := s\<rparr>))"
  "find_field (operation_fields y known) ''kind'' = Some (set_string (\<lambda>s p. p\<lparr>op_kind := kind_of s\<rparr>))"
  "find_field (operation_fields y known) ''money'' =
     Some (set_custom (money_of_json known) (\<lambda>m p. p\<lparr>op_money := m\<rparr>))"
  "find_field (operation_fields y known) ''referenceExternalTransactionId'' =
     Some (set_string (\<lambda>s p. p\<lparr>op_reference := s\<rparr>))"
  by (rule find_field_exact, simp add: operation_fields_def)+

lemma decode_operation:
  assumes "parses_uuids y x" and "external_kind (op_kind p)"
    and "parse_money known a (currency (op_money p)) = Inr (op_money p)"
  shows "decode_fields strict (operation_fields y known) (operation_json x p a) zero_operation =
    Inr (p\<lparr>op_key := []\<rparr>)"
proof -
  have "uuid_parse y (uuid_text x u) = Some u" for u
    using assms(1) by (simp add: parses_uuids_def)
  then show ?thesis
    using assms(2,3)
    by (simp add: operation_json_def operation_fields_find set_string_def set_text_def
        set_custom_def money_of_json_fields kind_of_text zero_operation_def)
qed

lemma decode_fields_append:
  "decode_fields strict fs (as @ bs) r =
   rbind (decode_fields strict fs as r) (decode_fields strict fs bs)"
  by (induction as arbitrary: r)
     (auto simp: rbind_def split: option.splits sum.splits)

lemma snd_embed: "snd (embed (k, f)) v (r, b) = rbind (f v r) (\<lambda>a. Inr (a, b))"
  by (simp add: embed_def)

lemma map_of_embed:
  "map_of (map embed fs @ gs) k =
   (case map_of fs k of Some f \<Rightarrow> Some (snd (embed (k, f))) | None \<Rightarrow> map_of gs k)"
  by (induction fs) (auto simp: embed_def)

lemma decode_embedded:
  assumes "fst ` set kvs \<subseteq> fst ` set fs"
  shows "decode_fields strict (map embed fs @ gs) kvs (r, b) =
    rbind (decode_fields strict fs kvs r) (\<lambda>r'. Inr (r', b))"
  using assms
proof (induction kvs arbitrary: r)
  case (Cons kv kvs)
  obtain k v where kv: "kv = (k, v)" by (cases kv)
  with Cons.prems have "k \<in> dom (map_of fs)" by (auto simp: dom_map_of_conv_image_fst)
  then obtain f where f: "map_of fs k = Some f" by auto
  have e: "find_field (map embed fs @ gs) k = Some (snd (embed (k, f)))" "find_field fs k = Some f"
    using f by (simp_all add: find_field_def map_of_embed del: map_of_append)
  show ?case
    using Cons e by (cases "f v r") (simp_all add: kv snd_embed rbind_def)
qed (simp add: rbind_def)

text \<open>A message as a producer writes it.\<close>

definition message_json :: "texts \<Rightarrow> string \<Rightarrow> operation \<Rightarrow> string \<Rightarrow> json" where
  "message_json x mid p a =
     JObj [(''messageId'', JStr mid), (''type'', JStr ''WagerTransactionRequested''),
           (''data'', JObj (operation_json x p a @ [(''idempotencyKey'', JStr (op_key p))]))]"

lemma request_operation_json:
  assumes "parses_uuids y x" and "external_kind (op_kind p)"
    and "parse_money known a (currency (op_money p)) = Inr (op_money p)"
  shows "request_operation y known
      (Some (JObj (operation_json x p a @ [(''idempotencyKey'', JStr (op_key p))]))) = Some p"
proof -
  have keys: "fst ` set (operation_json x p a) \<subseteq> fst ` set (operation_fields y known)"
    by (simp add: operation_json_def operation_fields_def)
  have "map_of (request_fields y known) ''idempotencyKey'' = Some (set_string (\<lambda>s r. (fst r, s)))"
    by (simp add: request_fields_def embed_def operation_fields_def)
  then have "find_field (request_fields y known) ''idempotencyKey'' = Some (set_string (\<lambda>s r. (fst r, s)))"
    by (rule find_field_exact)
  then show ?thesis
    using decode_embedded [OF keys, of False "[(''idempotencyKey'', set_string (\<lambda>s r. (fst r, s)))]"
        zero_operation "[]", folded request_fields_def] decode_operation [OF assms, of False]
    by (simp add: request_operation_def decode_struct_def decode_fields_append set_string_def)
qed

lemma operation_json_ok:
  assumes "parses_uuids y x" and "external_kind (op_kind p)" and "payload_fields_valid p"
    and "utf8_valid a" and "utf8_valid (currency (op_money p))" and "1 < d"
  shows "json_ok d (JObj (operation_json x p a))"
proof -
  have keys: "list_all utf8_valid [''externalTransactionId'', ''gameId'', ''kind'', ''money'',
      ''playerId'', ''providerId'', ''referenceExternalTransactionId'', ''roundId'', ''walletId'',
      ''amount'', ''currency'']"
    by (simp add: code_def ascii_valid)
  then show ?thesis
    using assms kind_text_valid [OF assms(2)]
    by (simp add: operation_json_def payload_fields_valid_def parses_uuids_def)
qed

lemma operation_amount:
  assumes "operation_valid known p"
  obtains a where "money_amount known (op_money p) = Inr a" and "utf8_valid a"
    and "utf8_valid (currency (op_money p))"
    and "parse_money known a (currency (op_money p)) = Inr (op_money p)"
proof -
  have m: "money_valid known (op_money p)" "0 \<le> sint (minor (op_money p))"
    using assms validate_operation_money unfolding operation_valid_def by blast+
  obtain a where a: "money_amount known (op_money p) = Inr a"
    using money_amount_text [OF m(1)] by blast
  show thesis
    by (rule that [OF a amount_valid [OF m(1) a] currency_utf8 [OF m(1)] money_json_parse [OF m a]])
qed

lemma operation_json_read:
  assumes "parses_uuids y x" and "operation_valid known p" and "payload_fields_valid p"
    and "utf8_valid (op_key p)" and "utf8_valid mid" and "money_amount known (op_money p) = Inr a"
  shows "parse_document (json_text (JObj (operation_json x p a))) = Some (JObj (operation_json x p a))"
    and "unmarshal envelope_fields no_envelope (json_text (message_json x mid p a)) =
      Some \<lparr>me_id = mid, me_type = ''WagerTransactionRequested'',
        me_data = Some (JObj (operation_json x p a @ [(''idempotencyKey'', JStr (op_key p))]))\<rparr>"
    and "request_operation y known
      (Some (JObj (operation_json x p a @ [(''idempotencyKey'', JStr (op_key p))]))) = Some p"
    and "decode_fields strict (operation_fields y known) (operation_json x p a) zero_operation =
      Inr (p\<lparr>op_key := []\<rparr>)"
proof -
  have a: "utf8_valid a" "utf8_valid (currency (op_money p))"
    "parse_money known a (currency (op_money p)) = Inr (op_money p)"
    using operation_amount [OF assms(2)] assms(6) by auto
  have k: "external_kind (op_kind p)" using operation_valid_kind [OF assms(2)] .
  note ok = operation_json_ok [OF assms(1) k assms(3) a(1,2)]
  show "parse_document (json_text (JObj (operation_json x p a))) = Some (JObj (operation_json x p a))"
    by (rule parse_document_text, rule ok) (simp add: max_nesting_def)
  have keys: "list_all utf8_valid [''messageId'', ''type'', ''data'', ''idempotencyKey'',
      ''WagerTransactionRequested'']"
    by (simp add: code_def ascii_valid)
  have "json_ok (max_nesting - 1) (JObj (operation_json x p a))"
    by (rule ok) (simp add: max_nesting_def)
  with keys have "json_ok max_nesting (message_json x mid p a)"
    using assms(4,5) by (auto simp: message_json_def max_nesting_def)
  from parse_document_text [OF this]
  show "unmarshal envelope_fields no_envelope (json_text (message_json x mid p a)) =
      Some \<lparr>me_id = mid, me_type = ''WagerTransactionRequested'',
        me_data = Some (JObj (operation_json x p a @ [(''idempotencyKey'', JStr (op_key p))]))\<rparr>"
    by (simp add: unmarshal_def decode_struct_def message_json_def envelope_fields_def
        failure_fields_def find_field_def set_string_def set_custom_def no_envelope_def)
  show "request_operation y known
      (Some (JObj (operation_json x p a @ [(''idempotencyKey'', JStr (op_key p))]))) = Some p"
    by (rule request_operation_json [OF assms(1) k a(3)])
  show "decode_fields strict (operation_fields y known) (operation_json x p a) zero_operation =
      Inr (p\<lparr>op_key := []\<rparr>)"
    by (rule decode_operation [OF assms(1) k a(3)])
qed

text \<open>
  C27: The canonical payload of a valid operation is itself a request: decoded strictly, as an
  HTTP body or as a queue message's data, it gives the operation back, without the idempotency
  key, which travels outside the payload. A message written with the key gives back all of it.
\<close>

theorem operation_json_roundtrip:
  assumes "parses_uuids y x" and "operation_valid known p" and "payload_fields_valid p"
    and "utf8_valid (op_key p)" and "utf8_valid mid"
  shows "(\<exists>c. canonical_operation x known p = Inr c \<and>
      decode_body (operation_fields y known) zero_operation c =
        (if max_body < length c then None else Some (p\<lparr>op_key := []\<rparr>))) \<and>
    (\<exists>a. money_amount known (op_money p) = Inr a \<and>
      (\<exists>e. unmarshal envelope_fields no_envelope (json_text (message_json x mid p a)) = Some e \<and>
        me_id e = mid \<and> me_type e = ''WagerTransactionRequested'' \<and>
        request_operation y known (me_data e) = Some p))"
proof -
  obtain a where a: "money_amount known (op_money p) = Inr a"
    using operation_amount [OF assms(2)] .
  obtain c where c: "canonical_operation x known p = Inr c"
    using canonical_ok validate_operation_money assms(2) unfolding operation_valid_def by blast
  have ct: "c = json_text (JObj (operation_json x p a))"
    using canonical_text [OF c] a unfolding operation_json_def by (metis sum.inject(2))
  note r = operation_json_read [OF assms a]
  have "decode_body (operation_fields y known) zero_operation c =
      (if max_body < length c then None else Some (p\<lparr>op_key := []\<rparr>))"
    by (simp add: decode_body_def decode_struct_def ct r(1) r(4) del: json_text.simps)
  with c a r(2,3) show ?thesis by auto
qed

text \<open>The parsers that go with \<open>sample_texts\<close>.\<close>

definition sample_parsers :: parsers where
  "sample_parsers =
     \<lparr>uuid_parse = \<lambda>s. if s \<noteq> [] \<and> list_all is_digit s then Some (of_nat (dec_value s)) else None,
      time_parse = \<lambda>s. if s \<noteq> [] \<and> list_all is_digit s then Some (int (dec_value s)) else None\<rparr>"

lemma sample_parses_uuids: "parses_uuids sample_parsers sample_texts"
proof -
  have "utf8_valid (digits_of (unat u))" for u :: uuid
    using digits_of_all by (intro ascii_valid digit_text_valid)
  then show ?thesis
    by (simp add: parses_uuids_def sample_parsers_def sample_texts_def digits_of_all)
qed

lemma operation_json_roundtrip_witness:
  "\<exists>a e. money_amount brl_only (op_money sample_bet) = Inr a \<and>
     unmarshal envelope_fields no_envelope (json_text (message_json sample_texts ''m1'' sample_bet a)) = Some e \<and>
     request_operation sample_parsers brl_only (me_data e) = Some sample_bet"
proof -
  have "operation_valid brl_only sample_bet"
    by (simp add: operation_valid_def sample_bet_def visible_not_blank visible_def validate_operation_ok)
  moreover have "payload_fields_valid sample_bet"
    by (simp add: payload_fields_valid_def sample_bet_def code_def ascii_valid)
  moreover have "utf8_valid (op_key sample_bet)" "utf8_valid ''m1''"
    by (simp_all add: sample_bet_def code_def ascii_valid)
  ultimately show ?thesis
    using operation_json_roundtrip [OF sample_parses_uuids, of brl_only sample_bet "''m1''"] by blast
qed

end
