(* ===== verification/Queue.thy ===== *)
theory Queue
  imports GoStd
begin

text \<open>
  \<^verbatim>\<open>internal/infra/queue/sqs.go\<close>: the client of the three queues. The AWS SDK is the
  parameter \<open>sdk\<close>: what a call answers, given the calls made before it. The calls are kept in
  order, so that what the program asked of the queues can be stated.
\<close>

section \<open>The SDK\<close>

text \<open>
  The inputs of \<^verbatim>\<open>GetQueueAttributes\<close>, \<^verbatim>\<open>SendMessage\<close>
  (queue, group, deduplication id, body), \<^verbatim>\<open>ReceiveMessage\<close> (queue, most messages, wait
  and visibility in seconds, attribute names), \<^verbatim>\<open>ChangeMessageVisibility\<close> and
  \<^verbatim>\<open>DeleteMessage\<close>.
\<close>

datatype sqs_call =
    QueueAttributes string
  | SendMessage string string string string
  | ReceiveMessage string int int int "string list"
  | ChangeMessageVisibility string string "32 word"
  | DeleteMessage string string

text \<open>A received message; its fields are pointers.\<close>

record sqs_message =
  sm_id :: "string option"
  sm_receipt :: "string option"
  sm_body :: "string option"
  sm_attributes :: "(string \<times> string) list"

record sdk =
  sdk_call :: "sqs_call list \<Rightarrow> sqs_call \<Rightarrow> err option"
  sdk_receive :: "sqs_call list \<Rightarrow> sqs_call \<Rightarrow> err + sqs_message list"

section \<open>Client\<close>

record message =
  m_id :: string
  m_receipt :: string
  m_body :: string
  m_count :: int64

record client =
  cl_sdk :: sdk
  cl_input :: string
  cl_output :: string
  cl_dlq :: string

definition sqs_do :: "client \<Rightarrow> sqs_call \<Rightarrow> sqs_call list \<Rightarrow> err option \<times> sqs_call list" where
  "sqs_do cl k calls = (sdk_call (cl_sdk cl) calls k, calls @ [k])"

text \<open>\<^verbatim>\<open>Ready\<close> stops at the first queue that does not answer.\<close>

fun check_queues :: "client \<Rightarrow> string list \<Rightarrow> sqs_call list \<Rightarrow> err option \<times> sqs_call list" where
  "check_queues cl [] calls = (None, calls)"
| "check_queues cl (url # urls) calls =
     (case sqs_do cl (QueueAttributes url) calls of
        (Some e, calls') \<Rightarrow> (Some e, calls')
      | (None, calls') \<Rightarrow> check_queues cl urls calls')"

definition queue_ready :: "client \<Rightarrow> sqs_call list \<Rightarrow> err option \<times> sqs_call list" where
  "queue_ready cl = check_queues cl [cl_input cl, cl_output cl, cl_dlq cl]"

definition dead_letter :: "client \<Rightarrow> message \<Rightarrow> sqs_call list \<Rightarrow> err option \<times> sqs_call list" where
  "dead_letter cl m = sqs_do cl (SendMessage (cl_dlq cl) (m_id m) (m_id m) (m_body m))"

text \<open>
  A message without id, receipt handle or body is skipped; the receive count is what
  \<^verbatim>\<open>strconv.Atoi\<close> returns beside its error.
\<close>

definition receive_count :: string where
  "receive_count = ''ApproximateReceiveCount''"

definition read_message :: "sqs_message \<Rightarrow> message option" where
  "read_message s =
     (case (sm_id s, sm_receipt s, sm_body s) of
        (Some i, Some r, Some b) \<Rightarrow>
          Some \<lparr>m_id = i, m_receipt = r, m_body = b,
                m_count = fst (parse_int64 (case map_of (sm_attributes s) receive_count of
                  None \<Rightarrow> [] | Some n \<Rightarrow> n))\<rparr>
      | _ \<Rightarrow> None)"

definition receive :: "client \<Rightarrow> sqs_call list \<Rightarrow> (err + message list) \<times> sqs_call list" where
  "receive cl calls =
     (let k = ReceiveMessage (cl_input cl) 1 10 30 [receive_count]
      in (case sdk_receive (cl_sdk cl) calls k of
            Inl e \<Rightarrow> Inl e
          | Inr ms \<Rightarrow> Inr (List.map_filter read_message ms),
          calls @ [k]))"

text \<open>\<^verbatim>\<open>int32(delay / time.Second)\<close>, clamped to what SQS takes.\<close>

definition visibility_seconds :: "int64 \<Rightarrow> 32 word" where
  "visibility_seconds delay =
     (let s = ucast (go_quot delay second) :: 32 word;
          s' = (if s <s 0 then 0 else s)
      in if 43200 <s s' then 43200 else s')"

definition change_visibility ::
    "client \<Rightarrow> string \<Rightarrow> int64 \<Rightarrow> sqs_call list \<Rightarrow> err option \<times> sqs_call list" where
  "change_visibility cl receipt delay =
     sqs_do cl (ChangeMessageVisibility (cl_input cl) receipt (visibility_seconds delay))"

definition delete_message :: "client \<Rightarrow> string \<Rightarrow> sqs_call list \<Rightarrow> err option \<times> sqs_call list" where
  "delete_message cl receipt = sqs_do cl (DeleteMessage (cl_input cl) receipt)"

definition publish_event ::
    "client \<Rightarrow> string \<Rightarrow> string \<Rightarrow> string \<Rightarrow> sqs_call list \<Rightarrow> err option \<times> sqs_call list" where
  "publish_event cl event aggregate payload calls =
     (if event = [] \<or> aggregate = []
      then (Some (ErrText ''event and aggregate identity are required''), calls)
      else sqs_do cl (SendMessage (cl_output cl) aggregate event payload) calls)"

section \<open>Back-off\<close>

definition go_min :: "int64 \<Rightarrow> int64 \<Rightarrow> int64" where
  "go_min a b = (if a <s b then a else b)"

definition queue_retry_delay :: "int64 \<Rightarrow> int64" where
  "queue_retry_delay attempt =
     (if attempt <s 1 then second
      else
        let delay = push_bit (unat (go_min (attempt - 1) 8)) second
        in if 5 * 60 * second <s delay then 5 * 60 * second else delay)"

lemma read_message_filter:
  "m \<in> set (List.map_filter read_message ms) \<longleftrightarrow> (\<exists>s\<in>set ms. read_message s = Some m)"
  by (auto simp: List.map_filter_def image_iff)

text \<open>The number of doublings: one less than the attempt, between 0 and 8.\<close>

definition back_off_exponent :: "int64 \<Rightarrow> nat" where
  "back_off_exponent attempt = nat (min 8 (sint attempt - 1))"

lemma up_to_8: "(n :: nat) \<le> 8 \<Longrightarrow> n \<in> {0, 1, 2, 3, 4, 5, 6, 7, 8}"
  by (simp, linarith)

lemma delay_table:
  assumes "n \<le> 8"
  shows "\<not> 5 * 60 * second <s push_bit n second"
    and "push_bit n second = word_of_int (1000000000 * 2 ^ n)"
    and "visibility_seconds (word_of_int (1000000000 * 2 ^ n)) = word_of_int (2 ^ n)"
    and "fits64 (1000000000 * 2 ^ n)" and "sint (word_of_int (2 ^ n) :: 32 word) = 2 ^ n"
    and "(2 :: int) ^ n \<le> 256"
  using up_to_8 [OF assms]
  by (elim insertE; simp add: second_def go_int fits64_def visibility_seconds_def go_quot_def
      word_sless_alt)+

lemma queue_retry_delay_value:
  "queue_retry_delay attempt = word_of_int (1000000000 * 2 ^ back_off_exponent attempt)"
proof (cases "sint attempt < 1")
  case True
  then show ?thesis by (simp add: queue_retry_delay_def back_off_exponent_def go_int second_def)
next
  case False
  have s: "sint (attempt - 1) = sint attempt - 1"
    using False sint64_range [of attempt] by (subst sint_sub64) (simp_all add: fits64_def)
  have n: "back_off_exponent attempt \<le> 8" by (simp add: back_off_exponent_def)
  have "sint (go_min (attempt - 1) 8) = int (back_off_exponent attempt)"
    using False by (simp add: go_min_def go_int s back_off_exponent_def min_def)
  then have "go_min (attempt - 1) 8 = of_nat (back_off_exponent attempt)"
    using n by (simp add: int64_eq_iff sint_of_nat64)
  then have "unat (go_min (attempt - 1) 8) = back_off_exponent attempt"
    using up_to_8 [OF n] by auto
  then show ?thesis
    using False delay_table(1,2) [OF n] by (simp add: queue_retry_delay_def go_int)
qed

text \<open>
  C38: The back-off of queue and outbox is 1, 2, 4, ... seconds for the attempts 1, 2, 3, ... and
  stays at 256 seconds from the ninth on, whatever the count: the limit of five minutes is never
  met, no attempt count makes the shift overflow, and the visibility timeout that
  \<^verbatim>\<open>ChangeVisibility\<close> passes on is exactly that many seconds.
\<close>

theorem queue_back_off:
  "sint (queue_retry_delay attempt) = 1000000000 * 2 ^ back_off_exponent attempt \<and>
   sint (visibility_seconds (queue_retry_delay attempt)) = 2 ^ back_off_exponent attempt \<and>
   sint (queue_retry_delay attempt) \<le> 256 * 1000000000"
proof -
  have n: "back_off_exponent attempt \<le> 8" by (simp add: back_off_exponent_def)
  note t = delay_table [OF n]
  show ?thesis
    using t(5,6) unfolding queue_retry_delay_value t(3) sint_of_int64 [OF t(4)]
    by simp
qed

end
