(* ===== verification/Metrics.thy ===== *)
theory Metrics
  imports Json
begin

text \<open>
  \<^verbatim>\<open>internal/infra/metrics/metrics.go\<close>: the registry of counters, a map from names to
  \<^verbatim>\<open>uint64\<close> that wrap around, and its export. The mutex makes each call one step.
\<close>

type_synonym registry = "(string \<times> 64 word) list"

definition results_metric :: "string \<Rightarrow> string" where
  "results_metric s = ''apostas_wager_results_total{status='' @ [quote_char] @ s @ [quote_char] @ ''}''"

definition initial_registry :: registry where
  "initial_registry =
     [(''apostas_wager_duplicates_total'', 0),
      (''apostas_sqs_retries_total'', 0),
      (''apostas_sqs_dlq_total'', 0),
      (''apostas_concurrency_conflicts_total'', 0),
      (''apostas_outbox_retries_total'', 0),
      (''apostas_outbox_published_total'', 0),
      (''apostas_outbox_delay_milliseconds_total'', 0),
      (''apostas_sqs_processing_latency_milliseconds_total'', 0),
      (''apostas_reconciliation_divergences_total'', 0),
      (results_metric ''PROCESSED'', 0),
      (results_metric ''REJECTED'', 0),
      (results_metric ''PENDING_REFERENCE'', 0)]"

fun metric_add :: "string \<Rightarrow> 64 word \<Rightarrow> registry \<Rightarrow> registry" where
  "metric_add n v [] = [(n, v)]"
| "metric_add n v ((k, x) # r) = (if k = n then (k, x + v) # r else (k, x) # metric_add n v r)"

definition metric_inc :: "string \<Rightarrow> registry \<Rightarrow> registry" where
  "metric_inc n = metric_add n 1"

text \<open>
  \<^verbatim>\<open>WritePrometheus\<close>: the writer takes a text and may refuse it, which ends the export.
\<close>

definition metric_line :: "registry \<Rightarrow> string \<Rightarrow> string" where
  "metric_line r k =
     k @ '' '' @ digits_of (unat (case map_of r k of None \<Rightarrow> 0 | Some v \<Rightarrow> v)) @ [byte_char 10]"

fun write_lines :: "(string \<Rightarrow> 'w \<Rightarrow> err option \<times> 'w) \<Rightarrow> string list \<Rightarrow> 'w \<Rightarrow> err option \<times> 'w" where
  "write_lines write [] w = (None, w)"
| "write_lines write (t # ts) w =
     (case write t w of
        (Some e, w') \<Rightarrow> (Some e, w')
      | (None, w') \<Rightarrow> write_lines write ts w')"

definition write_prometheus ::
    "registry \<Rightarrow> (string \<Rightarrow> 'w \<Rightarrow> err option \<times> 'w) \<Rightarrow> 'w \<Rightarrow> err option \<times> 'w" where
  "write_prometheus r write = write_lines write (map (metric_line r) (sort (map fst r)))"

section \<open>Facts\<close>

definition metric :: "registry \<Rightarrow> string \<Rightarrow> 64 word" where
  "metric r n = (case map_of r n of None \<Rightarrow> 0 | Some v \<Rightarrow> v)"

lemma metric_metric_add: "metric (metric_add n v r) m = metric r m + (if m = n then v else 0)"
  by (induction n v r rule: metric_add.induct) (auto simp: metric_def)

lemma metric_add_names: "fst ` set (metric_add n v r) = insert n (fst ` set r)"
  by (induction n v r rule: metric_add.induct) auto

lemma metric_add_distinct: "distinct (map fst r) \<Longrightarrow> distinct (map fst (metric_add n v r))"
proof (induction n v r rule: metric_add.induct)
  case (2 n v k x r)
  then show ?case using metric_add_names [of n v r] by auto
qed simp

lemma initial_registry_distinct: "distinct (map fst initial_registry)"
  by (simp add: initial_registry_def results_metric_def)

definition metric_adds :: "(string \<times> 64 word) list \<Rightarrow> registry \<Rightarrow> registry" where
  "metric_adds ops r = fold (\<lambda>(n, v). metric_add n v) ops r"

lemma metric_adds_distinct: "distinct (map fst r) \<Longrightarrow> distinct (map fst (metric_adds ops r))"
  unfolding metric_adds_def
  by (induction ops arbitrary: r) (auto intro: metric_add_distinct)

lemma metric_adds_value:
  "metric (metric_adds ops r) n = metric r n + (\<Sum>p\<leftarrow>ops. if fst p = n then snd p else 0)"
  unfolding metric_adds_def
  by (induction ops arbitrary: r) (auto simp: metric_metric_add)

lemma metric_adds_names: "fst ` set (metric_adds ops r) = fst ` set r \<union> fst ` set ops"
  unfolding metric_adds_def
  by (induction ops arbitrary: r) (simp_all add: metric_add_names split_beta)

lemma initial_registry_zero: "metric initial_registry n = 0"
  by (auto simp: initial_registry_def metric_def)

lemma metric_line_eq: "metric_line r k = k @ '' '' @ digits_of (unat (metric r k)) @ [byte_char 10]"
  by (simp add: metric_line_def metric_def)

text \<open>
  C37: The export after any calls of Inc and Add writes every counter once, in ascending order of
  the names, with the sum of what was added to it modulo 2^64; the counters known from the start
  are there even when nothing was added.
\<close>

theorem metrics_exported:
  "\<exists>names. write_prometheus (metric_adds ops initial_registry) (\<lambda>t w. (None, w @ t)) [] =
       (None, concat (map (\<lambda>n. n @ '' '' @
          digits_of (unat (\<Sum>p\<leftarrow>ops. if fst p = n then snd p else 0)) @ [byte_char 10]) names)) \<and>
     sorted names \<and> distinct names \<and>
     set names = fst ` set initial_registry \<union> fst ` set ops"
proof -
  let ?r = "metric_adds ops initial_registry"
  have lines: "write_lines (\<lambda>t w. (None, w @ t)) ts w = (None, w @ concat ts)" for ts w
    by (induction ts arbitrary: w) simp_all
  show ?thesis
    by (rule exI [of _ "sort (map fst ?r)"])
       (simp add: write_prometheus_def lines metric_line_eq metric_adds_value initial_registry_zero
         metric_adds_distinct initial_registry_distinct metric_adds_names cong: map_cong)
qed

end
