(* ===== verification/Schema.thy ===== *)
theory Schema
  imports Transaction Ledger Events
begin

text \<open>
  The database of \<^verbatim>\<open>migrations/*.up.sql\<close> as the store sees it: a record per row, the
  tables as lists in insertion order, and each \<^verbatim>\<open>INSERT\<close> or \<^verbatim>\<open>UPDATE\<close> the store
  issues with the checks the schema makes of it, in PostgreSQL's order: the row triggers, the
  CHECK constraints, the unique indexes, the foreign keys. The deferred constraint triggers are
  events that a transaction collects and that are checked when it commits; a transaction that
  fails leaves the database as it was. \<open>platform\<close> and \<open>env\<close> are what the store takes
  from outside: the ISO currency table, the text forms of UUIDs and instants, what a
  \<^verbatim>\<open>timestamptz\<close> and a \<^verbatim>\<open>jsonb\<close> column keep of a value; and, per call, the
  clocks and the fresh identifiers.
\<close>

section \<open>Rows and tables\<close>

record wallet_row =
  wr_id :: uuid
  wr_player :: uuid
  wr_currency :: string
  wr_balance :: int64
  wr_version :: int64
  wr_created :: time
  wr_updated :: time

record wager_row =
  t_id :: uuid
  t_external :: "string option"
  t_provider :: "string option"
  t_key :: "string option"
  t_hash :: "string option"
  t_wallet :: uuid
  t_player :: uuid
  t_round :: "string option"
  t_game :: "string option"
  t_kind :: kind
  t_amount :: int64
  t_currency :: string
  t_ref_external :: "string option"
  t_ref :: "uuid option"
  t_status :: status
  t_failure :: "string option"
  t_result :: "int64 option"
  t_attempts :: int
  t_next :: "time option"
  t_created :: time
  t_updated :: time

record ledger_row =
  l_id :: uuid
  l_wallet :: uuid
  l_transaction :: uuid
  l_direction :: direction
  l_amount :: int64
  l_before :: int64
  l_after :: int64
  l_version :: int64
  l_created :: time

record inbox_row =
  i_consumer :: string
  i_message :: string
  i_hash :: string
  i_received :: time
  i_completed :: "time option"

record outbox_row =
  o_id :: uuid
  o_aggregate :: uuid
  o_type :: string
  o_payload :: string
  o_occurred :: time
  o_attempts :: int
  o_next :: time
  o_published :: "time option"
  o_claimed :: "time option"

record db =
  db_wallets :: "wallet_row list"
  db_wagers :: "wager_row list"
  db_ledger :: "ledger_row list"
  db_inbox :: "inbox_row list"
  db_outbox :: "outbox_row list"

definition empty_db :: db where
  "empty_db = \<lparr>db_wallets = [], db_wagers = [], db_ledger = [], db_inbox = [], db_outbox = []\<rparr>"

record platform =
  pf_known :: "string \<Rightarrow> bool"
  pf_texts :: texts
  pf_stamp :: "time \<Rightarrow> time"
  pf_jsonb :: "string \<Rightarrow> string"

text \<open>
  \<open>en_now\<close> is \<^verbatim>\<open>time.Now\<close> of the process, \<open>en_dbnow\<close> is \<^verbatim>\<open>now()\<close> of
  the transaction; \<open>en_pick\<close> chooses the row of a \<^verbatim>\<open>LIMIT 1\<close> without an order and
  \<open>en_locked\<close> are the rows other transactions hold when \<^verbatim>\<open>SKIP LOCKED\<close> looks.
\<close>

record env =
  en_now :: time
  en_dbnow :: time
  en_tx :: uuid
  en_entry :: uuid
  en_balance_event :: uuid
  en_wager_event :: uuid
  en_balance_time :: time
  en_wager_time :: time
  en_pick :: nat
  en_locked :: "uuid \<Rightarrow> bool"

section \<open>Transactions\<close>

datatype deferred =
    WalletInserted wallet_row
  | WalletUpdated wallet_row wallet_row
  | LedgerInserted ledger_row

record txn =
  tx_db :: db
  tx_deferred :: "deferred list"

type_synonym 'a txop = "txn \<Rightarrow> err + 'a \<times> txn"

definition tx_return :: "'a \<Rightarrow> 'a txop" where
  "tx_return x = (\<lambda>t. Inr (x, t))"

definition tx_fail :: "err \<Rightarrow> 'a txop" where
  "tx_fail e = (\<lambda>t. Inl e)"

definition tx_bind :: "'a txop \<Rightarrow> ('a \<Rightarrow> 'b txop) \<Rightarrow> 'b txop" where
  "tx_bind m f = (\<lambda>t. rbind (m t) (\<lambda>(x, t'). f x t'))"

text \<open>A Go call that touches no row, inside a transaction.\<close>

definition tx_lift :: "err + 'a \<Rightarrow> 'a txop" where
  "tx_lift r = (\<lambda>t. rbind r (\<lambda>x. Inr (x, t)))"

definition tx_get :: "db txop" where
  "tx_get = (\<lambda>t. Inr (tx_db t, t))"

definition tx_run :: "(db \<Rightarrow> err + db \<times> deferred list) \<Rightarrow> unit txop" where
  "tx_run stmt = (\<lambda>t. rbind (stmt (tx_db t)) (\<lambda>(d, evs).
     Inr ((), \<lparr>tx_db = d, tx_deferred = tx_deferred t @ evs\<rparr>)))"

section \<open>Statements\<close>

definition find_wallet :: "db \<Rightarrow> uuid \<Rightarrow> wallet_row option" where
  "find_wallet d wid = find (\<lambda>r. wr_id r = wid) (db_wallets d)"

definition find_wager :: "db \<Rightarrow> uuid \<Rightarrow> wager_row option" where
  "find_wager d tid = find (\<lambda>r. t_id r = tid) (db_wagers d)"

definition wallet_row_checks :: "wallet_row \<Rightarrow> bool" where
  "wallet_row_checks r \<longleftrightarrow> 0 \<le>s wr_balance r \<and> 1 \<le>s wr_version r"

definition insert_wallet_row :: "wallet_row \<Rightarrow> db \<Rightarrow> err + db \<times> deferred list" where
  "insert_wallet_row r d =
     (if \<not> wallet_row_checks r then Inl (ErrPg CheckViolation)
      else if list_ex (\<lambda>x. wr_id x = wr_id r \<or>
                 wr_player x = wr_player r \<and> wr_currency x = wr_currency r) (db_wallets d)
      then Inl (ErrPg UniqueViolation)
      else Inr (d\<lparr>db_wallets := db_wallets d @ [r]\<rparr>, [WalletInserted r]))"

text \<open>\<^verbatim>\<open>protect_wallet_identity\<close> on the columns an update of the store may change.\<close>

definition protect_wallet_identity :: "wallet_row \<Rightarrow> wallet_row \<Rightarrow> err + unit" where
  "protect_wallet_identity old new =
     (if wr_id new \<noteq> wr_id old \<or> wr_player new \<noteq> wr_player old \<or>
         wr_currency new \<noteq> wr_currency old \<or> wr_created new \<noteq> wr_created old
      then Inl (ErrPg RaisedException)
      else if wr_version new \<noteq> wr_version old \<and> wr_balance new = wr_balance old
      then Inl (ErrPg RaisedException)
      else if wr_balance new \<noteq> wr_balance old \<and> wr_version old = max_int64
      then Inl (ErrPg NumericOutOfRange)
      else if wr_balance new \<noteq> wr_balance old \<and> wr_version new \<noteq> wr_version old + 1
      then Inl (ErrPg RaisedException)
      else Inr ())"

definition update_wallet_row ::
    "uuid \<Rightarrow> int64 \<Rightarrow> int64 \<Rightarrow> time \<Rightarrow> db \<Rightarrow> err + db \<times> deferred list" where
  "update_wallet_row wid balance version updated d =
     (case find_wallet d wid of
        None \<Rightarrow> Inr (d, [])
      | Some old \<Rightarrow>
          let new = old\<lparr>wr_balance := balance, wr_version := version, wr_updated := updated\<rparr>
          in rbind (protect_wallet_identity old new) (\<lambda>_.
               if \<not> wallet_row_checks new then Inl (ErrPg CheckViolation)
               else Inr (d\<lparr>db_wallets := update_where (\<lambda>r. wr_id r = wid) (\<lambda>_. new) (db_wallets d)\<rparr>,
                         [WalletUpdated old new])))"

text \<open>The CHECK constraints of \<^verbatim>\<open>wager_transactions\<close>, those of migration 2 included.\<close>

definition identity_columns :: "wager_row \<Rightarrow> string option list" where
  "identity_columns r = [t_provider r, t_external r, t_key r, t_hash r, t_round r, t_game r]"

definition wager_row_checks :: "wager_row \<Rightarrow> bool" where
  "wager_row_checks r \<longleftrightarrow>
     t_kind r \<in> {Opening, Bet, Win, Loss, Refund, Rollback} \<and>
     0 \<le>s t_amount r \<and>
     t_status r \<in> {Pending, PendingReference, Processed, Rejected, Failed} \<and>
     (t_kind r = Opening \<and> list_all (\<lambda>c. c = None) (identity_columns r) \<or>
      t_kind r \<noteq> Opening \<and> list_all (\<lambda>c. c \<noteq> None) (identity_columns r)) \<and>
     (t_kind r = Loss \<and> t_amount r = 0 \<or>
      t_kind r \<in> {Opening, Bet, Win, Refund, Rollback} \<and> 0 \<le>s t_amount r) \<and>
     (t_kind r = Loss \<and> t_amount r = 0 \<or>
      t_kind r = Opening \<and> 0 \<le>s t_amount r \<or>
      t_kind r \<in> {Bet, Win, Refund, Rollback} \<and> 0 <s t_amount r)"

definition processed_reversal :: "wager_row \<Rightarrow> bool" where
  "processed_reversal r \<longleftrightarrow> t_status r = Processed \<and> (t_kind r = Refund \<or> t_kind r = Rollback)"

text \<open>
  Do two rows clash on the primary key or on one of the partial unique indexes? NULLs never
  clash.
\<close>

definition same_value :: "'a option \<Rightarrow> 'a option \<Rightarrow> bool" where
  "same_value a b \<longleftrightarrow> a \<noteq> None \<and> a = b"

definition wager_clash :: "wager_row \<Rightarrow> wager_row \<Rightarrow> bool" where
  "wager_clash r x \<longleftrightarrow>
     t_id x = t_id r \<or>
     same_value (t_provider r) (t_provider x) \<and> same_value (t_external r) (t_external x) \<or>
     same_value (t_provider r) (t_provider x) \<and> same_value (t_key r) (t_key x) \<or>
     t_kind r = Opening \<and> t_kind x = Opening \<and> t_wallet r = t_wallet x \<or>
     processed_reversal r \<and> processed_reversal x \<and> same_value (t_ref r) (t_ref x)"

definition reference_exists :: "db \<Rightarrow> wager_row \<Rightarrow> bool" where
  "reference_exists d r \<longleftrightarrow>
     (case t_ref r of None \<Rightarrow> True | Some i \<Rightarrow> i = t_id r \<or> find_wager d i \<noteq> None)"

definition insert_wager_row :: "wager_row \<Rightarrow> db \<Rightarrow> err + db \<times> deferred list" where
  "insert_wager_row r d =
     (if \<not> wager_row_checks r then Inl (ErrPg CheckViolation)
      else if list_ex (wager_clash r) (db_wagers d) then Inl (ErrPg UniqueViolation)
      else if find_wallet d (t_wallet r) = None \<or> \<not> reference_exists d r
      then Inl (ErrPg ForeignKeyViolation)
      else Inr (d\<lparr>db_wagers := db_wagers d @ [r]\<rparr>, []))"

text \<open>\<^verbatim>\<open>protect_financial_history\<close> for an update of a transaction.\<close>

definition protect_financial_history :: "wager_row \<Rightarrow> wager_row \<Rightarrow> err + unit" where
  "protect_financial_history old new =
     (if t_status old = Processed \<or> t_status old = Rejected \<or> t_status old = Failed
      then Inl (ErrPg RaisedException)
      else if (t_id new, identity_columns new, t_wallet new, t_player new, t_kind new, t_amount new,
               t_currency new, t_ref_external new, t_created new) \<noteq>
              (t_id old, identity_columns old, t_wallet old, t_player old, t_kind old, t_amount old,
               t_currency old, t_ref_external old, t_created old)
      then Inl (ErrPg RaisedException)
      else Inr ())"

definition update_wager_row ::
    "uuid \<Rightarrow> (wager_row \<Rightarrow> wager_row) \<Rightarrow> db \<Rightarrow> err + db \<times> deferred list" where
  "update_wager_row tid f d =
     (case find_wager d tid of
        None \<Rightarrow> Inr (d, [])
      | Some old \<Rightarrow>
          rbind (protect_financial_history old (f old)) (\<lambda>_.
            if \<not> wager_row_checks (f old) then Inl (ErrPg CheckViolation)
            else if list_ex (\<lambda>x. t_id x \<noteq> tid \<and> wager_clash (f old) x) (db_wagers d)
            then Inl (ErrPg UniqueViolation)
            else if \<not> reference_exists d (f old) then Inl (ErrPg ForeignKeyViolation)
            else Inr (d\<lparr>db_wagers := update_where (\<lambda>r. t_id r = tid) f (db_wagers d)\<rparr>, [])))"

definition ledger_row_checks :: "ledger_row \<Rightarrow> bool" where
  "ledger_row_checks l \<longleftrightarrow>
     (l_direction l = Debit \<or> l_direction l = Credit) \<and>
     0 <s l_amount l \<and> 0 \<le>s l_before l \<and> 0 \<le>s l_after l \<and> 1 \<le>s l_version l \<and>
     (l_direction l = Credit \<and> sint (l_after l) = sint (l_before l) + sint (l_amount l) \<or>
      l_direction l = Debit \<and> sint (l_after l) = sint (l_before l) - sint (l_amount l))"

definition ledger_clash :: "ledger_row \<Rightarrow> ledger_row \<Rightarrow> bool" where
  "ledger_clash l x \<longleftrightarrow>
     l_id x = l_id l \<or>
     l_wallet x = l_wallet l \<and> l_transaction x = l_transaction l \<or>
     l_wallet x = l_wallet l \<and> l_version x = l_version l"

definition insert_ledger_row :: "ledger_row \<Rightarrow> db \<Rightarrow> err + db \<times> deferred list" where
  "insert_ledger_row l d =
     (if \<not> ledger_row_checks l then Inl (ErrPg CheckViolation)
      else if list_ex (ledger_clash l) (db_ledger d) then Inl (ErrPg UniqueViolation)
      else if find_wallet d (l_wallet l) = None \<or> find_wager d (l_transaction l) = None
      then Inl (ErrPg ForeignKeyViolation)
      else Inr (d\<lparr>db_ledger := db_ledger d @ [l]\<rparr>, [LedgerInserted l]))"

definition insert_outbox_row :: "outbox_row \<Rightarrow> db \<Rightarrow> err + db \<times> deferred list" where
  "insert_outbox_row r d =
     (if list_ex (\<lambda>x. o_id x = o_id r) (db_outbox d) then Inl (ErrPg UniqueViolation)
      else Inr (d\<lparr>db_outbox := db_outbox d @ [r]\<rparr>, []))"

text \<open>\<^verbatim>\<open>INSERT ... ON CONFLICT DO NOTHING\<close> of the inbox.\<close>

definition insert_inbox_row :: "inbox_row \<Rightarrow> db \<Rightarrow> err + db \<times> deferred list" where
  "insert_inbox_row r d =
     (if list_ex (\<lambda>x. i_consumer x = i_consumer r \<and> i_message x = i_message r) (db_inbox d)
      then Inr (d, [])
      else Inr (d\<lparr>db_inbox := db_inbox d @ [r]\<rparr>, []))"

section \<open>Constraint triggers\<close>

definition find_entry :: "db \<Rightarrow> uuid \<Rightarrow> int64 \<Rightarrow> ledger_row option" where
  "find_entry d wid v = find (\<lambda>l. l_wallet l = wid \<and> l_version l = v) (db_ledger d)"

text \<open>\<^verbatim>\<open>enforce_wallet_ledger_integrity\<close>: \<open>False\<close> when it raises.\<close>

definition wallet_insert_ok :: "db \<Rightarrow> wallet_row \<Rightarrow> bool" where
  "wallet_insert_ok d new =
     (if wr_version new \<noteq> 1 then False
      else case find_entry d (wr_id new) (wr_version new) of
        None \<Rightarrow> wr_balance new = 0
      | Some e \<Rightarrow>
          l_after e = wr_balance new \<and> l_before e = 0 \<and> l_direction e = Credit)"

definition wallet_update_ok :: "db \<Rightarrow> wallet_row \<Rightarrow> wallet_row \<Rightarrow> bool" where
  "wallet_update_ok d old new =
     (if wr_balance new = wr_balance old then True
      else case find_entry d (wr_id new) (wr_version new) of
        None \<Rightarrow> False
      | Some e \<Rightarrow> l_after e = wr_balance new \<and> l_before e = wr_balance old)"

definition ledger_insert_ok :: "db \<Rightarrow> ledger_row \<Rightarrow> bool" where
  "ledger_insert_ok d l =
     (if \<not> list_ex (\<lambda>w. wr_id w = l_wallet l \<and> wr_version w = l_version l \<and>
                  wr_balance w = l_after l) (db_wallets d)
      then False
      else if l_version l = 1
      then l_before l = 0 \<and> l_direction l = Credit \<and>
           list_ex (\<lambda>t. t_id t = l_transaction l \<and> t_kind t = Opening \<and> t_wallet t = l_wallet l)
             (db_wagers d)
      else case find_entry d (l_wallet l) (l_version l - 1) of
        None \<Rightarrow> l_version l = 2 \<and> l_before l = 0
      | Some p \<Rightarrow> l_after p = l_before l)"

text \<open>\<^verbatim>\<open>enforce_ledger_transaction\<close>.\<close>

definition expected_direction :: "db \<Rightarrow> wager_row \<Rightarrow> direction option" where
  "expected_direction d s =
     (case t_kind s of
        Opening \<Rightarrow> Some Credit
      | Bet \<Rightarrow> Some Debit
      | Win \<Rightarrow> Some Credit
      | Refund \<Rightarrow> Some Credit
      | Rollback \<Rightarrow>
          (case t_ref s of
             None \<Rightarrow> None
           | Some i \<Rightarrow>
               (case find_wager d i of
                  None \<Rightarrow> None
                | Some r \<Rightarrow>
                    if t_kind r = Bet then Some Credit
                    else if t_kind r = Win \<or> t_kind r = Refund then Some Debit
                    else None))
      | _ \<Rightarrow> None)"

definition ledger_transaction_ok :: "db \<Rightarrow> ledger_row \<Rightarrow> bool" where
  "ledger_transaction_ok d l =
     (case find_wager d (l_transaction l) of
        None \<Rightarrow> False
      | Some s \<Rightarrow>
          t_wallet s = l_wallet l \<and> t_amount s = l_amount l \<and> t_status s = Processed \<and>
          (case find_wallet d (l_wallet l) of None \<Rightarrow> True | Some w \<Rightarrow> t_currency s = wr_currency w) \<and>
          expected_direction d s = Some (l_direction l))"

fun deferred_ok :: "db \<Rightarrow> deferred \<Rightarrow> bool" where
  "deferred_ok d (WalletInserted new) = wallet_insert_ok d new"
| "deferred_ok d (WalletUpdated old new) = wallet_update_ok d old new"
| "deferred_ok d (LedgerInserted l) = (ledger_transaction_ok d l \<and> ledger_insert_ok d l)"

text \<open>
  \<^verbatim>\<open>Begin\<close>, the body, \<^verbatim>\<open>Commit\<close>; \<^verbatim>\<open>defer tx.Rollback\<close> undoes the body
  when it or the commit fails.
\<close>

definition with_tx :: "'a txop \<Rightarrow> db \<Rightarrow> (err + 'a) \<times> db" where
  "with_tx body d =
     (case body \<lparr>tx_db = d, tx_deferred = []\<rparr> of
        Inl e \<Rightarrow> (Inl e, d)
      | Inr (x, t) \<Rightarrow>
          if list_all (deferred_ok (tx_db t)) (tx_deferred t) then (Inr x, tx_db t)
          else (Inl (ErrPg RaisedException), d))"

section \<open>Facts\<close>

lemma tx_return_Inr [go_res]: "tx_return x t = Inr (y, t') \<longleftrightarrow> y = x \<and> t' = t"
  by (auto simp: tx_return_def)

lemma tx_fail_Inr [simp]: "tx_fail e t \<noteq> Inr r"
  by (simp add: tx_fail_def)

lemma tx_bind_Inr [go_res]:
  "tx_bind m f t = Inr (y, t'') \<longleftrightarrow> (\<exists>x t'. m t = Inr (x, t') \<and> f x t' = Inr (y, t''))"
  by (auto simp: tx_bind_def rbind_Inr_iff)

lemma tx_lift_Inr [go_res]: "tx_lift r t = Inr (y, t') \<longleftrightarrow> r = Inr y \<and> t' = t"
  by (auto simp: tx_lift_def rbind_Inr_iff)

lemma tx_get_Inr [go_res]: "tx_get t = Inr (d, t') \<longleftrightarrow> d = tx_db t \<and> t' = t"
  by (auto simp: tx_get_def)

lemma tx_run_Inr [go_res]:
  "tx_run stmt t = Inr (u, t') \<longleftrightarrow>
   (\<exists>d evs. stmt (tx_db t) = Inr (d, evs) \<and>
            t' = \<lparr>tx_db = d, tx_deferred = tx_deferred t @ evs\<rparr>)"
  by (auto simp: tx_run_def rbind_Inr_iff)

lemma with_tx_Inr [go_res]:
  "with_tx body d = (Inr x, d') \<longleftrightarrow>
   (\<exists>t. body \<lparr>tx_db = d, tx_deferred = []\<rparr> = Inr (x, t) \<and>
        list_all (deferred_ok (tx_db t)) (tx_deferred t) \<and> d' = tx_db t)"
  by (auto simp: with_tx_def split: sum.splits)

lemma with_tx_Inl: "with_tx body d = (Inl e, d') \<Longrightarrow> d' = d"
  by (auto simp: with_tx_def split: sum.splits if_splits)

end
