(* ===== verification/WagerTransaction.thy ===== *)
theory WagerTransaction
  imports Transaction
begin

text \<open>
  \<^verbatim>\<open>internal/model/wager_transaction.go\<close>: the persistent transaction, its validation, its
  two constructors, its rehydration from storage and its transition. The struct
  \<^verbatim>\<open>WagerTransaction\<close> only wraps \<^verbatim>\<open>WagerTransactionData\<close>, so the model is the record
  of the data; a nil receiver of \<^verbatim>\<open>Transition\<close> has no counterpart.
\<close>

record wager_data =
  wd_id :: uuid
  wd_external :: string
  wd_provider :: string
  wd_key :: string
  wd_hash :: string
  wd_wallet :: uuid
  wd_player :: uuid
  wd_round :: string
  wd_game :: string
  wd_kind :: kind
  wd_money :: money
  wd_ref_external :: string
  wd_ref_id :: uuid
  wd_status :: status
  wd_failure :: string
  wd_result :: money
  wd_created :: time
  wd_updated :: time

definition validate_wager :: "(string \<Rightarrow> bool) \<Rightarrow> wager_data \<Rightarrow> err + unit" where
  "validate_wager known d =
     (if wd_id d = uuid_nil \<or> wd_wallet d = uuid_nil \<or> wd_player d = uuid_nil \<or>
         \<not> money_valid known (wd_money d) \<or> minor (wd_money d) <s 0 \<or>
         wd_created d = time_zero \<or> wd_updated d = time_zero \<or> wd_updated d < wd_created d
      then Inl ErrInvalidTransaction
      else rbind (rehydrate_transaction_state (wd_status d)) (\<lambda>_.
        if money_valid known (wd_result d) \<and>
           (currency (wd_result d) \<noteq> currency (wd_money d) \<or> minor (wd_result d) <s 0)
        then Inl ErrInvalidTransaction
        else if wd_status d \<noteq> Pending \<and> \<not> money_valid known (wd_result d)
        then Inl ErrInvalidTransaction
        else if (wd_status d = Rejected \<or> wd_status d = Failed) \<and> wd_failure d = []
        then Inl ErrInvalidTransaction
        else if \<not> (wd_status d = Rejected \<or> wd_status d = Failed) \<and> wd_failure d \<noteq> []
        then Inl ErrInvalidTransaction
        else if wd_kind d = Opening
        then (if \<not> is_positive known (wd_money d) \<or> wd_status d \<noteq> Processed \<or>
                 wd_result d \<noteq> wd_money d \<or> wd_provider d \<noteq> [] \<or> wd_external d \<noteq> [] \<or>
                 wd_key d \<noteq> [] \<or> wd_hash d \<noteq> [] \<or> wd_round d \<noteq> [] \<or> wd_game d \<noteq> [] \<or>
                 wd_ref_external d \<noteq> [] \<or> wd_ref_id d \<noteq> uuid_nil
              then Inl ErrInvalidTransaction
              else Inr ())
        else if blank (wd_provider d) \<or> blank (wd_external d) \<or> blank (wd_key d) \<or>
                length (wd_hash d) \<noteq> 64 \<or> blank (wd_round d) \<or> blank (wd_game d)
        then Inl ErrInvalidTransaction
        else validate_operation known (wd_kind d) (wd_money d) (wd_ref_external d)))"

definition new_wager :: "(string \<Rightarrow> bool) \<Rightarrow> wager_data \<Rightarrow> err + wager_data" where
  "new_wager known d =
     (let d' = d\<lparr>wd_status := Pending, wd_failure := [], wd_ref_id := uuid_nil,
                 wd_result := no_money, wd_updated := wd_created d\<rparr>
      in rbind (validate_wager known d') (\<lambda>_. Inr d'))"

definition new_opening ::
    "(string \<Rightarrow> bool) \<Rightarrow> uuid \<Rightarrow> uuid \<Rightarrow> uuid \<Rightarrow> money \<Rightarrow> time \<Rightarrow> err + wager_data" where
  "new_opening known tid wid player m now =
     (let d = \<lparr>wd_id = tid, wd_external = [], wd_provider = [], wd_key = [], wd_hash = [],
               wd_wallet = wid, wd_player = player, wd_round = [], wd_game = [],
               wd_kind = Opening, wd_money = m, wd_ref_external = [], wd_ref_id = uuid_nil,
               wd_status = Processed, wd_failure = [], wd_result = m,
               wd_created = now, wd_updated = now\<rparr>
      in rbind (validate_wager known d) (\<lambda>_. Inr d))"

definition rehydrate_wager :: "(string \<Rightarrow> bool) \<Rightarrow> wager_data \<Rightarrow> err + wager_data" where
  "rehydrate_wager known d = rbind (validate_wager known d) (\<lambda>_. Inr d)"

definition wager_transition ::
    "(string \<Rightarrow> bool) \<Rightarrow> wager_data \<Rightarrow> status \<Rightarrow> string \<Rightarrow> money \<Rightarrow> uuid \<Rightarrow> time \<Rightarrow> err + wager_data" where
  "wager_transition known d st failure result ref now =
     (if validate_wager known d \<noteq> Inr () then Inl ErrInvalidTransaction
      else rbind (rehydrate_transaction_state (wd_status d)) (\<lambda>state.
           rbind (state_transition state st) (\<lambda>_.
        if now = time_zero \<or> now < wd_updated d \<or> \<not> money_valid known result \<or>
           minor result <s 0 \<or> currency result \<noteq> currency (wd_money d)
        then Inl ErrInvalidTransaction
        else if ((st = Rejected \<or> st = Failed) \<noteq> (failure \<noteq> [])) \<or>
                (st = Processed \<or> st = PendingReference) \<and> failure \<noteq> []
        then Inl ErrInvalidTransaction
        else if ref \<noteq> uuid_nil \<and> st \<noteq> Processed then Inl ErrInvalidTransaction
        else
          let nxt = d\<lparr>wd_status := st, wd_failure := failure, wd_result := result,
                      wd_ref_id := ref, wd_updated := now\<rparr>
          in rbind (validate_wager known nxt) (\<lambda>_. Inr nxt))))"

section \<open>Facts\<close>

lemma validate_wager_money:
  "validate_wager known d = Inr u \<Longrightarrow>
   money_valid known (wd_money d) \<and> 0 \<le> sint (minor (wd_money d)) \<and>
   wd_id d \<noteq> 0 \<and> wd_wallet d \<noteq> 0 \<and> wd_player d \<noteq> 0 \<and> known_status (wd_status d)"
  by (auto simp: validate_wager_def go_res go_int split: if_splits)

lemma validate_wager_failure:
  "validate_wager known d = Inr u \<Longrightarrow>
   (wd_failure d \<noteq> [] \<longleftrightarrow> wd_status d = Rejected \<or> wd_status d = Failed)"
  by (auto simp: validate_wager_def go_res split: if_splits)

lemma validate_wager_result:
  "validate_wager known d = Inr u \<Longrightarrow> wd_status d \<noteq> Pending \<Longrightarrow>
   money_valid known (wd_result d) \<and> currency (wd_result d) = currency (wd_money d) \<and>
   0 \<le> sint (minor (wd_result d))"
  by (auto simp: validate_wager_def go_res go_int split: if_splits)

lemma validate_wager_operation:
  "validate_wager known d = Inr u \<Longrightarrow> wd_kind d \<noteq> Opening \<Longrightarrow>
   validate_operation known (wd_kind d) (wd_money d) (wd_ref_external d) = Inr () \<and>
   \<not> blank (wd_provider d) \<and> \<not> blank (wd_external d) \<and> \<not> blank (wd_key d) \<and>
   \<not> blank (wd_round d) \<and> \<not> blank (wd_game d) \<and> length (wd_hash d) = 64"
  by (auto simp: validate_wager_def go_res split: if_splits)

lemma new_wager_Inr [go_res]:
  "new_wager known d = Inr d' \<longleftrightarrow>
   validate_wager known d' = Inr () \<and>
   d' = d\<lparr>wd_status := Pending, wd_failure := [], wd_ref_id := uuid_nil,
         wd_result := no_money, wd_updated := wd_created d\<rparr>"
  by (auto simp: new_wager_def Let_def rbind_Inr_iff)

lemma wager_transition_Inr:
  "wager_transition known d st failure result ref now = Inr d' \<Longrightarrow>
   validate_wager known d = Inr () \<and> validate_wager known d' = Inr () \<and>
   (wd_status d = Pending \<or> wd_status d = PendingReference) \<and>
   (st = PendingReference \<or> terminal st) \<and>
   currency result = currency (wd_money d) \<and> money_valid known result \<and>
   0 \<le> sint (minor result) \<and> wd_updated d \<le> now \<and>
   (failure \<noteq> [] \<longleftrightarrow> st = Rejected \<or> st = Failed) \<and> (ref \<noteq> 0 \<longrightarrow> st = Processed) \<and>
   d' = d\<lparr>wd_status := st, wd_failure := failure, wd_result := result,
         wd_ref_id := ref, wd_updated := now\<rparr>"
  unfolding wager_transition_def
  by (auto simp: go_res go_int Let_def split: if_splits)

text \<open>
  The conditions the documentation gives for a transition, in one place: what
  \<^verbatim>\<open>Transition\<close> accepts when the transaction is a valid one.
\<close>

definition transition_allowed ::
    "(string \<Rightarrow> bool) \<Rightarrow> wager_data \<Rightarrow> status \<Rightarrow> string \<Rightarrow> money \<Rightarrow> uuid \<Rightarrow> time \<Rightarrow> bool" where
  "transition_allowed known d st failure result ref now \<longleftrightarrow>
     (wd_status d = Pending \<or> wd_status d = PendingReference) \<and>
     (st = PendingReference \<or> terminal st) \<and>
     now \<noteq> 0 \<and> wd_updated d \<le> now \<and>
     money_valid known result \<and> 0 \<le> sint (minor result) \<and>
     currency result = currency (wd_money d) \<and>
     (failure \<noteq> [] \<longleftrightarrow> st = Rejected \<or> st = Failed) \<and>
     (ref \<noteq> 0 \<longrightarrow> st = Processed)"

lemma pending_not_opening:
  "validate_wager known d = Inr () \<Longrightarrow> wd_status d \<noteq> Processed \<Longrightarrow> wd_kind d \<noteq> Opening"
  by (auto simp: validate_wager_def go_res split: if_splits)

lemma validate_wager_next:
  assumes "validate_wager known d = Inr ()"
    and "transition_allowed known d st failure result ref now"
  shows "validate_wager known (d\<lparr>wd_status := st, wd_failure := failure, wd_result := result,
           wd_ref_id := ref, wd_updated := now\<rparr>) = Inr ()"
proof -
  have no: "wd_kind d \<noteq> Opening"
    using assms by (intro pending_not_opening) (auto simp: transition_allowed_def)
  have created: "wd_created d \<noteq> 0" "wd_created d \<le> wd_updated d"
    using assms(1) by (auto simp: validate_wager_def split: if_splits)
  have ks: "known_status st"
    using assms(2) by (auto simp: transition_allowed_def terminal_def)
  show ?thesis
    using assms(2) no created ks validate_wager_money [OF assms(1)]
      validate_wager_operation [OF assms(1) no]
    by (auto simp: validate_wager_def transition_allowed_def go_int go_res rehydrate_state_Inr
        intro!: exI [of _ "\<lparr>ts_status = st\<rparr>"])
qed

lemma wager_transition_iff:
  assumes "validate_wager known d = Inr ()"
  shows "wager_transition known d st failure result ref now = Inr d' \<longleftrightarrow>
    transition_allowed known d st failure result ref now \<and>
    d' = d\<lparr>wd_status := st, wd_failure := failure, wd_result := result,
          wd_ref_id := ref, wd_updated := now\<rparr>"
proof
  assume tr: "wager_transition known d st failure result ref now = Inr d'"
  moreover have "now \<noteq> 0"
    using tr unfolding wager_transition_def by (auto simp: go_res split: if_splits)
  ultimately show "transition_allowed known d st failure result ref now \<and>
    d' = d\<lparr>wd_status := st, wd_failure := failure, wd_result := result,
          wd_ref_id := ref, wd_updated := now\<rparr>"
    using wager_transition_Inr [OF tr] by (auto simp: transition_allowed_def)
next
  assume R: "transition_allowed known d st failure result ref now \<and>
    d' = d\<lparr>wd_status := st, wd_failure := failure, wd_result := result,
          wd_ref_id := ref, wd_updated := now\<rparr>"
  then have ok: "validate_wager known (d\<lparr>wd_status := st, wd_failure := failure,
      wd_result := result, wd_ref_id := ref, wd_updated := now\<rparr>) = Inr ()"
    using validate_wager_next [OF assms] by blast
  have "rehydrate_transaction_state (wd_status d) = Inr \<lparr>ts_status = wd_status d\<rparr>"
    using R by (auto simp: transition_allowed_def rehydrate_state_Inr)
  moreover have "state_transition \<lparr>ts_status = wd_status d\<rparr> st = Inr \<lparr>ts_status = st\<rparr>"
    using R by (auto simp: transition_allowed_def state_transition_Inr)
  ultimately show "wager_transition known d st failure result ref now = Inr d'"
    using R ok assms
    by (auto simp: wager_transition_def transition_allowed_def go_int Let_def)
qed

section \<open>Properties\<close>

text \<open>
  C30: A transition of a valid transaction succeeds exactly under the documented conditions, the
  result is again valid (it can be rehydrated), and only the status, the failure code, the
  result balance, the reference and the update time change. An \<^verbatim>\<open>OPENING\<close> transaction
  never makes one.
\<close>

theorem wager_transition_exact:
  assumes "rehydrate_wager known d = Inr d"
  shows "(wager_transition known d st failure result ref now = Inr d' \<longleftrightarrow>
      transition_allowed known d st failure result ref now \<and>
      d' = d\<lparr>wd_status := st, wd_failure := failure, wd_result := result,
            wd_ref_id := ref, wd_updated := now\<rparr>) \<and>
    (wager_transition known d st failure result ref now = Inr d' \<longrightarrow>
      rehydrate_wager known d' = Inr d' \<and> wd_kind d \<noteq> Opening)"
proof -
  have v: "validate_wager known d = Inr ()"
    using assms by (auto simp: rehydrate_wager_def go_res)
  show ?thesis
    using wager_transition_iff [OF v] validate_wager_next [OF v] pending_not_opening [OF v]
    by (auto simp: rehydrate_wager_def transition_allowed_def)
qed

definition sample_wager :: wager_data where
  "sample_wager =
     \<lparr>wd_id = 1, wd_external = ''bet-1'', wd_provider = ''p'', wd_key = ''k'',
      wd_hash = replicate 64 CHR ''a'', wd_wallet = 2, wd_player = 3, wd_round = ''r'',
      wd_game = ''g'', wd_kind = Bet, wd_money = \<lparr>minor = 25, currency = ''BRL''\<rparr>,
      wd_ref_external = [], wd_ref_id = 0, wd_status = Pending, wd_failure = [],
      wd_result = no_money, wd_created = 5, wd_updated = 5\<rparr>"

lemma wager_transition_exact_witness:
  "wager_transition (\<lambda>c. c = ''BRL'') sample_wager Processed [] \<lparr>minor = 75, currency = ''BRL''\<rparr> 0 6
   = Inr (sample_wager\<lparr>wd_status := Processed, wd_failure := [],
       wd_result := \<lparr>minor = 75, currency = ''BRL''\<rparr>, wd_ref_id := 0, wd_updated := 6\<rparr>)"
proof -
  have "rehydrate_wager (\<lambda>c. c = ''BRL'') sample_wager = Inr sample_wager"
    by (simp add: rehydrate_wager_def validate_wager_def sample_wager_def money_valid_def
        valid_currency_def currency_pattern_def is_upper_letter_def visible_not_blank visible_def
        validate_operation_def is_positive_def go_int rehydrate_transaction_state_def
        no_money_def)
  from wager_transition_exact [OF this] show ?thesis
    by (simp add: transition_allowed_def sample_wager_def money_valid_def valid_currency_def
        currency_pattern_def is_upper_letter_def)
qed

end
