(* ===== verification/Store.thy ===== *)
theory Store
  imports Schema WagerTransaction Usecases
begin

text \<open>
  The writing half of \<^verbatim>\<open>internal/infra/postgres/store.go\<close>: opening a wallet,
  executing a wager (from HTTP, or from a message through the inbox) and resolving one pending
  reference, statement by statement, over the tables of theory \<open>Schema\<close>. A database
  transaction is one step: the row lock the code takes on the wallet (\<^verbatim>\<open>FOR UPDATE\<close>)
  serializes the writers of a wallet, and the unique indexes decide between writers of
  different wallets.
\<close>

section \<open>Loading\<close>

definition load_wallet :: "platform \<Rightarrow> wallet_row \<Rightarrow> err + wallet" where
  "load_wallet pf r =
     rbind (money_from_minor (pf_known pf) (wr_balance r) (wr_currency r)) (\<lambda>m.
       rehydrate_wallet (pf_known pf) (wr_id r) (wr_player r) m (wr_version r)
         (wr_created r) (wr_updated r))"

definition query_wallet :: "platform \<Rightarrow> uuid \<Rightarrow> db \<Rightarrow> err + wallet" where
  "query_wallet pf wid d =
     (case find_wallet d wid of
        None \<Rightarrow> Inl ErrNotFound
      | Some r \<Rightarrow> load_wallet pf r)"

text \<open>The resolver hands \<^verbatim>\<open>pgx.ErrNoRows\<close> on as it is.\<close>

definition locked_wallet :: "platform \<Rightarrow> uuid \<Rightarrow> db \<Rightarrow> err + wallet" where
  "locked_wallet pf wid d =
     (case find_wallet d wid of
        None \<Rightarrow> Inl ErrNoRows
      | Some r \<Rightarrow> load_wallet pf r)"

definition get_wallet :: "platform \<Rightarrow> uuid \<Rightarrow> db \<Rightarrow> err + wallet" where
  "get_wallet pf wid d = query_wallet pf wid d"

definition pick_row :: "nat \<Rightarrow> 'r list \<Rightarrow> 'r option" where
  "pick_row n rs = (if rs = [] then None else Some (rs ! (n mod length rs)))"

text \<open>
  The rows that share the operation's idempotency key or external id under its provider, and
  what \<^verbatim>\<open>Scan\<close> makes of the row found.
\<close>

definition existing_rows :: "db \<Rightarrow> operation \<Rightarrow> wager_row list" where
  "existing_rows d op =
     filter (\<lambda>r. t_provider r = Some (op_provider op) \<and>
                 (t_key r = Some (op_key op) \<or> t_external r = Some (op_external op)))
       (db_wagers d)"

definition replay_result ::
    "platform \<Rightarrow> operation \<Rightarrow> string \<Rightarrow> string \<Rightarrow> wager_row \<Rightarrow> err + result" where
  "replay_result pf op hash cur r =
     (case (t_hash r, t_key r, t_result r) of
        (Some h, Some k, Some b) \<Rightarrow>
          if h \<noteq> hash \<or> k \<noteq> op_key op then Inl ErrConflict
          else Inr \<lparr>r_transaction = t_id r, r_status = t_status r,
                    r_balance = (case money_from_minor (pf_known pf) b cur of
                                   Inl e \<Rightarrow> no_money | Inr m \<Rightarrow> m),
                    r_failure = (case t_failure r of None \<Rightarrow> [] | Some f \<Rightarrow> f),
                    r_replay = True\<rparr>
      | _ \<Rightarrow> Inl (ErrPg NullScan))"

definition reversed_before :: "db \<Rightarrow> uuid \<Rightarrow> bool" where
  "reversed_before d tid \<longleftrightarrow>
     list_ex (\<lambda>r. t_ref r = Some tid \<and> processed_reversal r) (db_wagers d)"

definition load_reference ::
    "platform \<Rightarrow> string \<Rightarrow> string \<Rightarrow> db \<Rightarrow> err + reference option" where
  "load_reference pf provider external d =
     (case find (\<lambda>r. t_provider r = Some provider \<and> t_external r = Some external) (db_wagers d) of
        None \<Rightarrow> Inr None
      | Some r \<Rightarrow>
          (case t_round r of
             None \<Rightarrow> Inl (ErrPg NullScan)
           | Some round \<Rightarrow>
               rbind (money_from_minor (pf_known pf) (t_amount r) (t_currency r)) (\<lambda>m.
                 Inr (Some \<lparr>ref_id = t_id r, ref_kind = t_kind r, ref_status = t_status r,
                            ref_wallet = t_wallet r, ref_player = t_player r, ref_round = round,
                            ref_money = m, ref_reversed = reversed_before d (t_id r)\<rparr>))))"

section \<open>Helpers of the writers\<close>

definition money_of_zero :: "(string \<Rightarrow> bool) \<Rightarrow> string \<Rightarrow> money" where
  "money_of_zero known cur =
     (case money_from_minor known 0 cur of Inl e \<Rightarrow> no_money | Inr m \<Rightarrow> m)"

definition nullable :: "string \<Rightarrow> string option" where
  "nullable s = (if s = [] then None else Some s)"

definition nullable_id :: "uuid \<Rightarrow> uuid option" where
  "nullable_id u = (if u = uuid_nil then None else Some u)"

definition next_attempt :: "status \<Rightarrow> time \<Rightarrow> time option" where
  "next_attempt st now = (if st = PendingReference then Some (now + sint second) else None)"

definition classify :: "err \<Rightarrow> err" where
  "classify e = (if e = ErrPg UniqueViolation then ErrConflict else e)"

definition tx_classify :: "'a txop \<Rightarrow> 'a txop" where
  "tx_classify m = (\<lambda>t. case m t of Inl e \<Rightarrow> Inl (classify e) | Inr r \<Rightarrow> Inr r)"

definition add_event :: "platform \<Rightarrow> env \<Rightarrow> event \<Rightarrow> unit txop" where
  "add_event pf en e =
     tx_run (insert_outbox_row
       \<lparr>o_id = ev_id e, o_aggregate = ev_aggregate e, o_type = ev_type e,
        o_payload = pf_jsonb pf (ev_payload e), o_occurred = en_dbnow en, o_attempts = 0,
        o_next = en_dbnow en, o_published = None, o_claimed = None\<rparr>)"

definition add_balance_event ::
    "platform \<Rightarrow> env \<Rightarrow> string \<Rightarrow> uuid \<Rightarrow> uuid \<Rightarrow> direction \<Rightarrow> money \<Rightarrow> money \<Rightarrow> money \<Rightarrow> int64 \<Rightarrow> unit txop"
where
  "add_balance_event pf en causation wid tid dir m before after version =
     tx_bind (tx_lift (new_wallet_balance_changed (pf_texts pf) (pf_known pf)
         (en_balance_event en) (en_balance_time en)
         \<lparr>bc_wallet = wid, bc_transaction = tid, bc_direction = dir, bc_money = m,
          bc_before = before, bc_after = after, bc_version = version\<rparr> causation))
       (add_event pf en)"

definition add_wager_event ::
    "platform \<Rightarrow> env \<Rightarrow> string \<Rightarrow> uuid \<Rightarrow> uuid \<Rightarrow> string \<Rightarrow> kind \<Rightarrow> status \<Rightarrow> string \<Rightarrow> unit txop"
where
  "add_wager_event pf en causation wid tid provider k st failure =
     (let x = pf_texts pf; eid = en_wager_event en; now = en_wager_time en in
      case st of
        Processed \<Rightarrow>
          tx_bind (tx_lift (new_wager_processed x eid now wid tid provider k causation))
            (add_event pf en)
      | Rejected \<Rightarrow>
          tx_bind (tx_lift (new_wager_rejected x eid now wid tid provider k failure causation))
            (add_event pf en)
      | PendingReference \<Rightarrow>
          tx_bind (tx_lift (new_wager_pending_reference x eid now wid tid provider k causation))
            (add_event pf en)
      | Failed \<Rightarrow> tx_return ()
      | _ \<Rightarrow> tx_fail ErrInvalidTransaction)"

definition insert_ledger ::
    "platform \<Rightarrow> env \<Rightarrow> uuid \<Rightarrow> uuid \<Rightarrow> direction \<Rightarrow> money \<Rightarrow> money \<Rightarrow> money \<Rightarrow> int64 \<Rightarrow> time \<Rightarrow> unit txop"
where
  "insert_ledger pf en wid tid dir m before after version created =
     tx_bind (tx_lift (new_wallet_ledger_entry (pf_known pf) (en_entry en) wid tid dir m
         before after created))
       (\<lambda>e. tx_run (insert_ledger_row
          \<lparr>l_id = le_id e, l_wallet = le_wallet e, l_transaction = le_transaction e,
           l_direction = le_direction e, l_amount = minor (le_money e),
           l_before = minor (le_before e), l_after = minor (le_after e), l_version = version,
           l_created = pf_stamp pf (le_created e)\<rparr>))"

text \<open>The three statements a decision with a direction is followed by.\<close>

definition post_movement ::
    "platform \<Rightarrow> env \<Rightarrow> string \<Rightarrow> operation \<Rightarrow> uuid \<Rightarrow> decision \<Rightarrow> wallet \<Rightarrow> time \<Rightarrow> unit txop"
where
  "post_movement pf en causation op tid dn w now =
     (if d_direction dn = no_direction then tx_return ()
      else
        tx_bind (tx_run (update_wallet_row (op_wallet op) (minor (w_balance w)) (w_version w)
                  (pf_stamp pf now))) (\<lambda>_.
        tx_bind (insert_ledger pf en (op_wallet op) tid (d_direction dn) (op_money op)
                  (d_before dn) (w_balance w) (w_version w) now) (\<lambda>_.
        add_balance_event pf en causation (op_wallet op) tid (d_direction dn) (op_money op)
          (d_before dn) (w_balance w) (w_version w))))"

section \<open>Executing a wager\<close>

text \<open>The transaction's data and its row.\<close>

definition operation_data :: "operation \<Rightarrow> string \<Rightarrow> uuid \<Rightarrow> time \<Rightarrow> wager_data" where
  "operation_data op hash tid now =
     \<lparr>wd_id = tid, wd_external = op_external op, wd_provider = op_provider op,
      wd_key = op_key op, wd_hash = hash, wd_wallet = op_wallet op, wd_player = op_player op,
      wd_round = op_round op, wd_game = op_game op, wd_kind = op_kind op, wd_money = op_money op,
      wd_ref_external = op_reference op, wd_ref_id = uuid_nil, wd_status = OtherStatus [],
      wd_failure = [], wd_result = no_money, wd_created = now, wd_updated = time_zero\<rparr>"

definition operation_row ::
    "platform \<Rightarrow> env \<Rightarrow> operation \<Rightarrow> string \<Rightarrow> uuid \<Rightarrow> decision \<Rightarrow> wallet \<Rightarrow> time \<Rightarrow> wager_row"
where
  "operation_row pf en op hash tid dn w now =
     \<lparr>t_id = tid, t_external = Some (op_external op), t_provider = Some (op_provider op),
      t_key = Some (op_key op), t_hash = Some hash, t_wallet = op_wallet op,
      t_player = op_player op, t_round = Some (op_round op), t_game = Some (op_game op),
      t_kind = op_kind op, t_amount = minor (op_money op), t_currency = currency (op_money op),
      t_ref_external = nullable (op_reference op), t_ref = nullable_id (d_reference dn),
      t_status = d_status dn, t_failure = nullable (d_failure dn),
      t_result = Some (minor (w_balance w)), t_attempts = 0,
      t_next = map_option (pf_stamp pf) (next_attempt (d_status dn) now),
      t_created = en_dbnow en, t_updated = en_dbnow en\<rparr>"

definition execute_new ::
    "platform \<Rightarrow> env \<Rightarrow> string \<Rightarrow> operation \<Rightarrow> string \<Rightarrow> decide_fn \<Rightarrow> wallet \<Rightarrow> reference option \<Rightarrow>
     result txop" where
  "execute_new pf en causation op hash dec w ref =
     (let now = en_now en;
          (dn, w') = dec w ref now;
          tid = en_tx en
      in tx_bind (tx_lift (new_wager (pf_known pf) (operation_data op hash tid now))) (\<lambda>data.
         tx_bind (tx_lift (wager_transition (pf_known pf) data (d_status dn) (d_failure dn)
                   (w_balance w') (d_reference dn) now)) (\<lambda>_.
         tx_bind (tx_classify (tx_run (insert_wager_row
                   (operation_row pf en op hash tid dn w' now)))) (\<lambda>_.
         tx_bind (post_movement pf en causation op tid dn w' now) (\<lambda>_.
         tx_bind (add_wager_event pf en causation (op_wallet op) tid (op_provider op)
                   (op_kind op) (d_status dn) (d_failure dn)) (\<lambda>_.
         tx_return \<lparr>r_transaction = tid, r_status = d_status dn, r_balance = w_balance w',
                    r_failure = d_failure dn, r_replay = False\<rparr>))))))"

definition execute_tx ::
    "platform \<Rightarrow> env \<Rightarrow> string \<Rightarrow> operation \<Rightarrow> string \<Rightarrow> decide_fn \<Rightarrow> result txop" where
  "execute_tx pf en causation op hash dec =
     tx_bind tx_get (\<lambda>d.
     tx_bind (tx_lift (query_wallet pf (op_wallet op) d)) (\<lambda>w.
       case pick_row (en_pick en) (existing_rows d op) of
         Some r \<Rightarrow> tx_lift (replay_result pf op hash (currency (w_balance w)) r)
       | None \<Rightarrow>
           tx_bind (tx_lift (if op_reference op \<noteq> []
                             then load_reference pf (op_provider op) (op_reference op) d
                             else Inr None)) (\<lambda>ref.
           execute_new pf en causation op hash dec w ref)))"

definition execute ::
    "platform \<Rightarrow> env \<Rightarrow> operation \<Rightarrow> string \<Rightarrow> decide_fn \<Rightarrow> db \<Rightarrow> (err + result) \<times> db" where
  "execute pf en op hash dec = with_tx (execute_tx pf en [] op hash dec)"

definition execute_inbox ::
    "platform \<Rightarrow> env \<Rightarrow> inbox_message \<Rightarrow> operation \<Rightarrow> string \<Rightarrow> decide_fn \<Rightarrow> db \<Rightarrow>
     (err + result) \<times> db" where
  "execute_inbox pf en msg op hash dec =
     with_tx (
       tx_bind (tx_run (insert_inbox_row
         \<lparr>i_consumer = im_consumer msg, i_message = im_id msg, i_hash = im_hash msg,
          i_received = en_dbnow en, i_completed = None\<rparr>)) (\<lambda>_.
       tx_bind tx_get (\<lambda>d.
         case find (\<lambda>i. i_consumer i = im_consumer msg \<and> i_message i = im_id msg) (db_inbox d) of
           None \<Rightarrow> tx_fail ErrNoRows
         | Some row \<Rightarrow>
             if i_hash row \<noteq> im_hash msg then tx_fail ErrConflict
             else
               tx_bind (execute_tx pf en (im_id msg) op hash dec) (\<lambda>result.
               tx_bind
                 (if i_completed row = None
                  then tx_run (\<lambda>d. Inr (d\<lparr>db_inbox := update_where
                           (\<lambda>i. i_consumer i = im_consumer msg \<and> i_message i = im_id msg)
                           (\<lambda>i. i\<lparr>i_completed := Some (en_dbnow en)\<rparr>) (db_inbox d)\<rparr>, []))
                  else tx_return ()) (\<lambda>_.
               tx_return result)))))"

section \<open>Opening a wallet\<close>

text \<open>What follows the insertion of a wallet with a positive balance.\<close>

definition post_opening :: "platform \<Rightarrow> env \<Rightarrow> wallet \<Rightarrow> unit txop" where
  "post_opening pf en w =
     (let b = w_balance w; zero = money_of_zero (pf_known pf) (currency b); tid = en_tx en in
      tx_bind (tx_lift (new_opening (pf_known pf) tid (w_id w) (w_player w) b (w_created w)))
        (\<lambda>opening.
      tx_bind (tx_run (insert_wager_row
        \<lparr>t_id = wd_id opening, t_external = None, t_provider = None, t_key = None,
         t_hash = None, t_wallet = w_id w, t_player = w_player w, t_round = None,
         t_game = None, t_kind = Opening, t_amount = minor (wd_money opening),
         t_currency = currency (wd_money opening), t_ref_external = None, t_ref = None,
         t_status = Processed, t_failure = None, t_result = Some (minor (wd_money opening)),
         t_attempts = 0, t_next = None, t_created = en_dbnow en, t_updated = en_dbnow en\<rparr>))
        (\<lambda>_.
      tx_bind (insert_ledger pf en (w_id w) tid Credit b zero b 1 (w_created w)) (\<lambda>_.
      tx_bind (add_wager_event pf en [] (w_id w) tid [] Opening Processed []) (\<lambda>_.
      add_balance_event pf en [] (w_id w) tid Credit b zero b 1)))))"

definition create_wallet :: "platform \<Rightarrow> env \<Rightarrow> wallet \<Rightarrow> db \<Rightarrow> (err + unit) \<times> db" where
  "create_wallet pf en w =
     (let b = w_balance w in
      with_tx (
        tx_bind (tx_classify (tx_run (insert_wallet_row
          \<lparr>wr_id = w_id w, wr_player = w_player w, wr_currency = currency b,
           wr_balance = minor b, wr_version = 1, wr_created = pf_stamp pf (w_created w),
           wr_updated = pf_stamp pf (w_created w)\<rparr>))) (\<lambda>_.
        if \<not> is_positive (pf_known pf) b then tx_return () else post_opening pf en w)))"

section \<open>Resolving a pending reference\<close>

text \<open>
  \<^verbatim>\<open>time.Second << (attempt - 1)\<close>: \<open>None\<close> is the panic of a negative shift count.
\<close>

definition retry_delay :: "int \<Rightarrow> int64 option" where
  "retry_delay attempt =
     (let a = (if 8 < attempt then 8 else attempt)
      in if a - 1 < 0 then None else Some (push_bit (nat (a - 1)) second))"

definition due :: "env \<Rightarrow> wager_row \<Rightarrow> bool" where
  "due en r \<longleftrightarrow>
     t_status r = PendingReference \<and>
     (case t_next r of None \<Rightarrow> False | Some n \<Rightarrow> n \<le> en_dbnow en)"

definition due_key :: "wager_row \<Rightarrow> time \<times> uuid" where
  "due_key r = ((case t_next r of None \<Rightarrow> 0 | Some n \<Rightarrow> n), t_id r)"

definition next_due :: "env \<Rightarrow> db \<Rightarrow> wager_row option" where
  "next_due en d =
     find (\<lambda>r. \<not> en_locked en (t_id r)) (sort_key due_key (filter (due en) (db_wagers d)))"

text \<open>The operation scanned from the row; a NULL cannot be scanned into a \<^verbatim>\<open>string\<close>.\<close>

definition row_operation :: "platform \<Rightarrow> wager_row \<Rightarrow> err + operation" where
  "row_operation pf r =
     (case (t_provider r, t_external r, t_key r, t_round r, t_game r, t_ref_external r) of
        (Some provider, Some external, Some key, Some round, Some game, Some refext) \<Rightarrow>
          rbind (money_from_minor (pf_known pf) (t_amount r) (t_currency r)) (\<lambda>m.
            Inr \<lparr>op_provider = provider, op_external = external, op_key = key,
                 op_player = t_player r, op_wallet = t_wallet r, op_round = round,
                 op_game = game, op_kind = t_kind r, op_money = m, op_reference = refext\<rparr>)
      | _ \<Rightarrow> Inl (ErrPg NullScan))"

definition settle_row ::
    "platform \<Rightarrow> decision \<Rightarrow> wallet \<Rightarrow> time \<Rightarrow> wager_row \<Rightarrow> wager_row" where
  "settle_row pf dn w now r =
     r\<lparr>t_status := d_status dn, t_failure := nullable (d_failure dn),
       t_ref := nullable_id (d_reference dn), t_result := Some (minor (w_balance w)),
       t_next := None, t_updated := pf_stamp pf now\<rparr>"

definition postpone_row :: "platform \<Rightarrow> int \<Rightarrow> int64 \<Rightarrow> time \<Rightarrow> wager_row \<Rightarrow> wager_row" where
  "postpone_row pf attempts delay now r =
     r\<lparr>t_attempts := attempts, t_next := Some (pf_stamp pf (now + sint delay)),
       t_updated := pf_stamp pf now\<rparr>"

definition settle ::
    "platform \<Rightarrow> env \<Rightarrow> operation \<Rightarrow> uuid \<Rightarrow> decision \<Rightarrow> wallet \<Rightarrow> bool txop" where
  "settle pf en op tid dn w =
     (let now = en_now en in
      tx_bind (tx_lift (rehydrate_transaction_state PendingReference)) (\<lambda>state.
      tx_bind (tx_lift (state_transition state (d_status dn))) (\<lambda>_.
      tx_bind (tx_run (update_wager_row tid (settle_row pf dn w now))) (\<lambda>_.
      tx_bind (post_movement pf en [] op tid dn w now) (\<lambda>_.
      tx_bind (add_wager_event pf en [] (op_wallet op) tid (op_provider op) (op_kind op)
                (d_status dn) (d_failure dn)) (\<lambda>_.
      tx_return True))))))"

text \<open>What follows the reading of the row, its wallet and its reference.\<close>

definition resolve_row ::
    "platform \<Rightarrow> env \<Rightarrow> wager_row \<Rightarrow> operation \<Rightarrow> wallet \<Rightarrow> reference option \<Rightarrow> bool txop" where
  "resolve_row pf en r op w ref =
     (let now = en_now en;
          (dn, w') = decide (pf_known pf) op w ref now
      in if d_status dn = PendingReference
         then (let attempts = t_attempts r + 1 in
               if 10 \<le> attempts
               then settle pf en op (t_id r)
                      (plain_decision Rejected ''REFERENCE_NOT_FOUND'') w'
               else
                 case retry_delay attempts of
                   None \<Rightarrow> tx_fail (ErrText ''negative shift amount'')
                 | Some delay \<Rightarrow>
                     tx_bind (tx_run (update_wager_row (t_id r)
                       (postpone_row pf attempts delay now))) (\<lambda>_. tx_return True))
         else settle pf en op (t_id r) dn w')"

definition resolve_pending_reference :: "platform \<Rightarrow> env \<Rightarrow> db \<Rightarrow> (err + bool) \<times> db" where
  "resolve_pending_reference pf en =
     with_tx (
       tx_bind tx_get (\<lambda>d.
         case next_due en d of
           None \<Rightarrow> tx_return False
         | Some r \<Rightarrow>
             tx_bind (tx_lift (row_operation pf r)) (\<lambda>op.
             tx_bind (tx_lift (locked_wallet pf (op_wallet op) d)) (\<lambda>w.
             tx_bind (tx_lift (load_reference pf (op_provider op) (op_reference op) d))
               (resolve_row pf en r op w)))))"

section \<open>Reading a transaction row\<close>

text \<open>The identity \<^verbatim>\<open>scanTransaction\<close> rehydrates, \<^verbatim>\<open>stringValue\<close> inlined.\<close>

definition string_value :: "string option \<Rightarrow> string" where
  "string_value v = (case v of None \<Rightarrow> [] | Some s \<Rightarrow> s)"

definition row_data :: "wager_row \<Rightarrow> wager_data" where
  "row_data t =
     \<lparr>wd_id = t_id t, wd_external = string_value (t_external t),
      wd_provider = string_value (t_provider t), wd_key = string_value (t_key t),
      wd_hash = string_value (t_hash t), wd_wallet = t_wallet t, wd_player = t_player t,
      wd_round = string_value (t_round t), wd_game = string_value (t_game t),
      wd_kind = t_kind t, wd_money = \<lparr>minor = t_amount t, currency = t_currency t\<rparr>,
      wd_ref_external = string_value (t_ref_external t),
      wd_ref_id = (case t_ref t of None \<Rightarrow> uuid_nil | Some i \<Rightarrow> i),
      wd_status = t_status t, wd_failure = string_value (t_failure t),
      wd_result = (case t_result t of None \<Rightarrow> no_money
                   | Some b \<Rightarrow> \<lparr>minor = b, currency = t_currency t\<rparr>),
      wd_created = t_created t, wd_updated = t_updated t\<rparr>"

end
