(* ===== verification/Integrity.thy ===== *)
theory Integrity
  imports Store
begin

text \<open>
  The integrity of the stored state: no two rows clash on a key, every wallet row is a valid
  wallet whose balance and version are the end of its ledger chain, every ledger entry belongs
  to its processed transaction and every transaction row is one the domain accepts. The lemmas
  show what a statement and the statements after a decision keep of it; theory
  \<open>StoreInvariant\<close> concludes for each operation of the store.
\<close>

section \<open>The chain of a wallet's ledger\<close>

definition entries :: "db \<Rightarrow> uuid \<Rightarrow> ledger_row list" where
  "entries d wid = filter (\<lambda>l. l_wallet l = wid) (db_ledger d)"

text \<open>A position is a balance and a version; an entry moves to the next one.\<close>

fun chain_end :: "int \<times> int \<Rightarrow> ledger_row list \<Rightarrow> (int \<times> int) option" where
  "chain_end p [] = Some p"
| "chain_end (b, v) (l # ls) =
     (if sint (l_before l) = b \<and> sint (l_version l) = v + 1 \<and>
         sint (l_after l) = b + signed_amount (l_direction l) (sint (l_amount l))
      then chain_end (sint (l_after l), v + 1) ls
      else None)"

definition opened :: "db \<Rightarrow> uuid \<Rightarrow> bool" where
  "opened d wid \<longleftrightarrow> list_ex (\<lambda>t. t_kind t = Opening \<and> t_wallet t = wid) (db_wagers d)"

definition chain_start :: "db \<Rightarrow> uuid \<Rightarrow> int \<times> int" where
  "chain_start d wid = (0, if opened d wid then 0 else 1)"

definition balanced :: "db \<Rightarrow> wallet_row \<Rightarrow> bool" where
  "balanced d r \<longleftrightarrow>
     chain_end (chain_start d (wr_id r)) (entries d (wr_id r)) =
       Some (sint (wr_balance r), sint (wr_version r))"

section \<open>The invariant\<close>

definition wallet_clash :: "wallet_row \<Rightarrow> wallet_row \<Rightarrow> bool" where
  "wallet_clash r x \<longleftrightarrow>
     wr_id x = wr_id r \<or> wr_player x = wr_player r \<and> wr_currency x = wr_currency r"

definition outbox_clash :: "outbox_row \<Rightarrow> outbox_row \<Rightarrow> bool" where
  "outbox_clash r x \<longleftrightarrow> o_id x = o_id r"

definition inbox_clash :: "inbox_row \<Rightarrow> inbox_row \<Rightarrow> bool" where
  "inbox_clash r x \<longleftrightarrow> i_consumer x = i_consumer r \<and> i_message x = i_message r"

definition clash_free :: "('r \<Rightarrow> 'r \<Rightarrow> bool) \<Rightarrow> 'r list \<Rightarrow> bool" where
  "clash_free clash rs \<longleftrightarrow> sorted_wrt (\<lambda>x y. \<not> clash x y) rs"

definition keys_ok :: "db \<Rightarrow> bool" where
  "keys_ok d \<longleftrightarrow>
     clash_free wallet_clash (db_wallets d) \<and> clash_free wager_clash (db_wagers d) \<and>
     clash_free ledger_clash (db_ledger d) \<and> clash_free outbox_clash (db_outbox d) \<and>
     clash_free inbox_clash (db_inbox d)"

text \<open>The row loads as a wallet, and its creation time is one the column can hold.\<close>

definition wallet_ok :: "platform \<Rightarrow> wallet_row \<Rightarrow> bool" where
  "wallet_ok pf r \<longleftrightarrow>
     (case load_wallet pf r of Inl e \<Rightarrow> False | Inr w \<Rightarrow> True) \<and>
     0 < wr_created r \<and> pf_stamp pf (wr_created r) = wr_created r"

text \<open>The row rehydrates, but for the order of its two time stamps, which are of two clocks.\<close>

definition wager_ok :: "platform \<Rightarrow> db \<Rightarrow> wager_row \<Rightarrow> bool" where
  "wager_ok pf d t \<longleftrightarrow>
     validate_wager (pf_known pf) ((row_data t)\<lparr>wd_created := 1, wd_updated := 1\<rparr>) = Inr () \<and>
     wager_row_checks t \<and> t_status t \<noteq> Pending \<and> t_result t \<noteq> None \<and>
     t_failure t \<noteq> Some [] \<and> t_ref_external t \<noteq> Some [] \<and> t_ref t \<noteq> Some 0 \<and>
     (t_next t \<noteq> None \<longleftrightarrow> t_status t = PendingReference) \<and>
     (t_status t = PendingReference \<longrightarrow> t_ref_external t \<noteq> None) \<and>
     0 \<le> t_attempts t \<and> t_attempts t \<le> 9 \<and>
     (case find_wallet d (t_wallet t) of None \<Rightarrow> False | Some w \<Rightarrow> wr_currency w = t_currency t)"

definition entry_ok :: "db \<Rightarrow> ledger_row \<Rightarrow> bool" where
  "entry_ok d l \<longleftrightarrow>
     ledger_row_checks l \<and> ledger_transaction_ok d l \<and> find_wallet d (l_wallet l) \<noteq> None"

text \<open>Is the transaction one that moves money?\<close>

definition moves_money :: "wager_row \<Rightarrow> bool" where
  "moves_money t \<longleftrightarrow> t_status t = Processed \<and> t_kind t \<noteq> Loss"

definition posted :: "db \<Rightarrow> wager_row \<Rightarrow> bool" where
  "posted d t \<longleftrightarrow>
     (moves_money t \<longrightarrow> list_ex (\<lambda>l. l_transaction l = t_id t) (db_ledger d))"

definition reversal_ok :: "db \<Rightarrow> wager_row \<Rightarrow> bool" where
  "reversal_ok d t \<longleftrightarrow>
     (processed_reversal t \<longrightarrow>
       (case t_ref t of
          None \<Rightarrow> False
        | Some i \<Rightarrow>
            (case find_wager d i of
               None \<Rightarrow> False
             | Some r \<Rightarrow>
                 t_status r = Processed \<and> t_wallet r = t_wallet t \<and> t_amount r = t_amount t \<and>
                 t_currency r = t_currency t \<and>
                 (t_kind t = Refund \<longrightarrow> t_kind r = Bet) \<and>
                 (t_kind t = Rollback \<longrightarrow> t_kind r \<in> {Bet, Win, Refund}))))"

definition integrity :: "platform \<Rightarrow> db \<Rightarrow> bool" where
  "integrity pf d \<longleftrightarrow>
     keys_ok d \<and>
     list_all (wallet_ok pf) (db_wallets d) \<and> list_all (balanced d) (db_wallets d) \<and>
     list_all (wager_ok pf d) (db_wagers d) \<and> list_all (posted d) (db_wagers d) \<and>
     list_all (reversal_ok d) (db_wagers d) \<and> list_all (entry_ok d) (db_ledger d)"

lemma integrity_empty: "integrity pf empty_db"
  by (simp add: integrity_def keys_ok_def empty_db_def clash_free_def)

text \<open>
  What the code relies on of the platform: a \<^verbatim>\<open>timestamptz\<close> keeps the order of
  instants, and a value read back is stored unchanged.
\<close>

definition platform_ok :: "platform \<Rightarrow> bool" where
  "platform_ok pf \<longleftrightarrow> mono (pf_stamp pf) \<and> (\<forall>t. pf_stamp pf (pf_stamp pf t) = pf_stamp pf t)"

section \<open>Keys\<close>

lemma clash_free_append:
  "clash_free c (rs @ [r]) \<longleftrightarrow> clash_free c rs \<and> (\<forall>x\<in>set rs. \<not> c x r)"
  by (simp add: clash_free_def sorted_wrt_append)

lemma wager_clash_sym: "wager_clash x y \<Longrightarrow> wager_clash y x"
  unfolding wager_clash_def same_value_def by metis

lemma ledger_clash_sym: "ledger_clash x y \<Longrightarrow> ledger_clash y x"
  by (auto simp: ledger_clash_def)

lemma clash_free_key:
  assumes "clash_free c rs" and "\<And>x y. k x = k y \<Longrightarrow> c x y"
  shows "distinct (map k rs)"
  using assms(1) unfolding clash_free_def
  by (induction rs) (auto dest: assms(2) [OF sym] assms(2))

lemma clash_free_pair:
  assumes "clash_free c rs" and "x \<in> set rs" and "y \<in> set rs" and "c x y"
    and "\<And>a b. c a b \<Longrightarrow> c b a"
  shows "x = y"
  using assms(1-4) unfolding clash_free_def
  by (induction rs) (auto dest: assms(5))

lemma distinct_wallets: "keys_ok d \<Longrightarrow> distinct (map wr_id (db_wallets d))"
  by (auto simp: keys_ok_def wallet_clash_def intro: clash_free_key)

lemma distinct_wagers: "keys_ok d \<Longrightarrow> distinct (map t_id (db_wagers d))"
  by (auto simp: keys_ok_def wager_clash_def intro: clash_free_key)

lemma find_wallet_Some:
  "keys_ok d \<Longrightarrow> find_wallet d i = Some r \<longleftrightarrow> r \<in> set (db_wallets d) \<and> wr_id r = i"
  unfolding find_wallet_def
  using find_key_unique [OF distinct_wallets, of d r] by (auto dest: find_SomeD)

lemma find_wager_Some:
  "keys_ok d \<Longrightarrow> find_wager d i = Some r \<longleftrightarrow> r \<in> set (db_wagers d) \<and> t_id r = i"
  unfolding find_wager_def
  using find_key_unique [OF distinct_wagers, of d r] by (auto dest: find_SomeD)

end
