(* ===== verification/Posting.thy ===== *)
theory Posting
  imports Integrity
begin

text \<open>
  What one posting keeps of the stored state: first the transactions table changes by one row
  (inserted or settled), then, when money moves, the wallet row and the ledger change together.
\<close>

section \<open>Chains\<close>

lemma chain_end_append:
  "chain_end p (xs @ ys) = Option.bind (chain_end p xs) (\<lambda>q. chain_end q ys)"
proof (induction xs arbitrary: p)
  case (Cons l xs)
  then show ?case by (cases p) simp
qed simp

lemma entries_append:
  "entries (d\<lparr>db_ledger := db_ledger d @ [l]\<rparr>) wid =
   entries d wid @ (if l_wallet l = wid then [l] else [])"
  by (simp add: entries_def)

lemma opened_cong:
  "db_wagers d' = db_wagers d \<Longrightarrow> opened d' wid = opened d wid"
  by (simp add: opened_def)

section \<open>One transaction row changes\<close>

text \<open>
  \<open>keeps ws ws' tr\<close>: the table \<open>ws'\<close> holds the rows of \<open>ws\<close>, the terminal ones
  unchanged and no other row than \<open>tr\<close> new.
\<close>

definition same_wager :: "wager_row \<Rightarrow> wager_row \<Rightarrow> bool" where
  "same_wager t t' \<longleftrightarrow>
     t_id t' = t_id t \<and> t_kind t' = t_kind t \<and> t_wallet t' = t_wallet t \<and>
     t_amount t' = t_amount t \<and> t_currency t' = t_currency t \<and>
     identity_columns t' = identity_columns t \<and> t_player t' = t_player t \<and>
     t_ref_external t' = t_ref_external t \<and> t_created t' = t_created t \<and>
     (terminal (t_status t) \<longrightarrow> t' = t)"

definition keeps :: "wager_row list \<Rightarrow> wager_row list \<Rightarrow> wager_row \<Rightarrow> bool" where
  "keeps ws ws' tr \<longleftrightarrow>
     clash_free wager_clash ws' \<and> tr \<in> set ws' \<and>
     (\<forall>t\<in>set ws. \<exists>t'\<in>set ws'. same_wager t t') \<and>
     (\<forall>t'\<in>set ws'. t' \<in> set ws \<or> t' = tr) \<and>
     (\<forall>t\<in>set ws. t_id t = t_id tr \<longrightarrow> \<not> terminal (t_status t)) \<and>
     t_kind tr \<noteq> Opening"

text \<open>Integrity, but for the ledger entry of transaction \<open>tid\<close>.\<close>

definition integrity_but :: "platform \<Rightarrow> db \<Rightarrow> uuid \<Rightarrow> bool" where
  "integrity_but pf d tid \<longleftrightarrow>
     keys_ok d \<and>
     list_all (wallet_ok pf) (db_wallets d) \<and> list_all (balanced d) (db_wallets d) \<and>
     list_all (wager_ok pf d) (db_wagers d) \<and>
     list_all (\<lambda>t. t_id t = tid \<or> posted d t) (db_wagers d) \<and>
     list_all (reversal_ok d) (db_wagers d) \<and> list_all (entry_ok d) (db_ledger d) \<and>
     list_all (\<lambda>l. l_transaction l \<noteq> tid) (db_ledger d)"

lemma keeps_find:
  assumes "keys_ok d" and "keeps (db_wagers d) ws' tr"
    and "find_wager d i = Some t" and "terminal (t_status t)"
  shows "find_wager (d\<lparr>db_wagers := ws'\<rparr>) i = Some t"
proof -
  have k: "keys_ok (d\<lparr>db_wagers := ws'\<rparr>)"
    using assms(1,2) by (simp add: keys_ok_def keeps_def)
  from assms(1,3) have t: "t \<in> set (db_wagers d)" "t_id t = i" by (simp_all add: find_wager_Some)
  with assms(2,4) have "t \<in> set ws'" by (fastforce simp: keeps_def same_wager_def)
  with k t show ?thesis by (simp add: find_wager_Some)
qed

lemma keeps_kind:
  assumes "keys_ok d" and "keeps (db_wagers d) ws' tr" and "find_wager d i = Some t"
  shows "\<exists>t'. find_wager (d\<lparr>db_wagers := ws'\<rparr>) i = Some t' \<and> t_kind t' = t_kind t"
proof -
  have k: "keys_ok (d\<lparr>db_wagers := ws'\<rparr>)"
    using assms(1,2) by (simp add: keys_ok_def keeps_def)
  from assms(1,3) have t: "t \<in> set (db_wagers d)" "t_id t = i" by (simp_all add: find_wager_Some)
  with assms(2) obtain t' where "t' \<in> set ws'" "t_id t' = i" "t_kind t' = t_kind t"
    by (fastforce simp: keeps_def same_wager_def)
  with k show ?thesis by (auto simp: find_wager_Some)
qed

lemma keeps_opened:
  assumes "keeps (db_wagers d) ws' tr"
  shows "opened (d\<lparr>db_wagers := ws'\<rparr>) wid = opened d wid"
  using assms unfolding keeps_def same_wager_def opened_def list_ex_iff by fastforce

lemma find_wallet_wagers [simp]:
  "find_wallet (d\<lparr>db_wagers := ws'\<rparr>) i = find_wallet d i"
  by (simp add: find_wallet_def)

lemma entries_wagers [simp]: "entries (d\<lparr>db_wagers := ws'\<rparr>) i = entries d i"
  by (simp add: entries_def)

lemma keeps_entry:
  assumes "keys_ok d" and "keeps (db_wagers d) ws' tr" and "entry_ok d l"
  shows "entry_ok (d\<lparr>db_wagers := ws'\<rparr>) l"
proof -
  from assms(3) obtain s where s: "find_wager d (l_transaction l) = Some s" "t_status s = Processed"
    by (auto simp: entry_ok_def ledger_transaction_ok_def split: option.splits)
  from s(2) have "terminal (t_status s)" by simp
  note s' = keeps_find [OF assms(1,2) s(1) this]
  have "expected_direction (d\<lparr>db_wagers := ws'\<rparr>) s = Some dir"
    if "expected_direction d s = Some dir" for dir
  proof (cases "t_kind s = Rollback")
    case True
    with that obtain i r where r: "t_ref s = Some i" "find_wager d i = Some r"
      by (auto simp: expected_direction_def split: option.splits)
    from keeps_kind [OF assms(1,2) r(2)] obtain r' where
      "find_wager (d\<lparr>db_wagers := ws'\<rparr>) i = Some r'" "t_kind r' = t_kind r" by blast
    with that True r show ?thesis by (auto simp: expected_direction_def split: if_splits)
  next
    case False
    with that show ?thesis by (cases "t_kind s") (simp_all add: expected_direction_def)
  qed
  with assms(3) s s' show ?thesis by (simp add: entry_ok_def ledger_transaction_ok_def)
qed

lemma wager_ok_wagers [simp]:
  "wager_ok pf (d\<lparr>db_wagers := ws'\<rparr>) t = wager_ok pf d t"
  by (simp add: wager_ok_def)

lemma posted_wagers [simp]: "posted (d\<lparr>db_wagers := ws'\<rparr>) t = posted d t"
  by (simp add: posted_def)

lemma keeps_reversal:
  assumes "keys_ok d" and "keeps (db_wagers d) ws' tr" and "reversal_ok d t"
  shows "reversal_ok (d\<lparr>db_wagers := ws'\<rparr>) t"
proof (cases "processed_reversal t")
  case True
  with assms(3) obtain i r where r: "t_ref t = Some i" "find_wager d i = Some r"
    "t_status r = Processed"
    by (auto simp: reversal_ok_def split: option.splits)
  from r(3) have "terminal (t_status r)" by simp
  from keeps_find [OF assms(1,2) r(2) this] assms(3) r True show ?thesis
    by (simp add: reversal_ok_def)
qed (simp add: reversal_ok_def)

lemma one_row_changes:
  assumes i: "integrity pf d" and k: "keeps (db_wagers d) ws' tr"
    and tr: "wager_ok pf d tr" "reversal_ok d tr"
  shows "integrity_but pf (d\<lparr>db_wagers := ws'\<rparr>) (t_id tr)"
proof -
  have keys: "keys_ok d" using i by (simp add: integrity_def)
  have new: "t' \<in> set (db_wagers d) \<or> t' = tr" if "t' \<in> set ws'" for t'
    using k that by (simp add: keeps_def)
  have noent: "l_transaction l \<noteq> t_id tr" if l: "l \<in> set (db_ledger d)" for l
  proof
    assume eq: "l_transaction l = t_id tr"
    from i l have "entry_ok d l" by (simp add: integrity_def list_all_iff)
    then obtain s where s: "find_wager d (l_transaction l) = Some s" "t_status s = Processed"
      by (auto simp: entry_ok_def ledger_transaction_ok_def split: option.splits)
    then have "s \<in> set (db_wagers d)" "t_id s = t_id tr"
      using keys eq by (simp_all add: find_wager_Some)
    with k s(2) show False by (fastforce simp: keeps_def)
  qed
  show ?thesis
    unfolding integrity_but_def
  proof (intro conjI)
    show "keys_ok (d\<lparr>db_wagers := ws'\<rparr>)" using keys k by (simp add: keys_ok_def keeps_def)
    show "list_all (balanced (d\<lparr>db_wagers := ws'\<rparr>)) (db_wallets (d\<lparr>db_wagers := ws'\<rparr>))"
      using i by (simp add: integrity_def balanced_def [abs_def] chain_start_def keeps_opened [OF k])
    show "list_all (wager_ok pf (d\<lparr>db_wagers := ws'\<rparr>)) (db_wagers (d\<lparr>db_wagers := ws'\<rparr>))"
      using i tr(1) new by (auto simp: integrity_def list_all_iff)
    show "list_all (\<lambda>t. t_id t = t_id tr \<or> posted (d\<lparr>db_wagers := ws'\<rparr>) t)
            (db_wagers (d\<lparr>db_wagers := ws'\<rparr>))"
      using i by (auto simp: integrity_def list_all_iff dest!: new)
    show "list_all (reversal_ok (d\<lparr>db_wagers := ws'\<rparr>)) (db_wagers (d\<lparr>db_wagers := ws'\<rparr>))"
      using i tr(2) keeps_reversal [OF keys k] by (auto simp: integrity_def list_all_iff dest!: new)
    show "list_all (entry_ok (d\<lparr>db_wagers := ws'\<rparr>)) (db_ledger (d\<lparr>db_wagers := ws'\<rparr>))"
      using i keeps_entry [OF keys k] by (auto simp: integrity_def list_all_iff)
    show "list_all (\<lambda>l. l_transaction l \<noteq> t_id tr) (db_ledger (d\<lparr>db_wagers := ws'\<rparr>))"
      using noent by (simp add: list_all_iff)
  qed (use i in \<open>simp add: integrity_def\<close>)
qed

text \<open>The posting of a transaction that moves no money ends here.\<close>

lemma no_movement:
  assumes "integrity_but pf d (t_id tr)" and "tr \<in> set (db_wagers d)" and "\<not> moves_money tr"
  shows "integrity pf d"
proof -
  have keys: "keys_ok d" using assms(1) by (simp add: integrity_but_def)
  have "posted d t" if t: "t \<in> set (db_wagers d)" for t
  proof (cases "t_id t = t_id tr")
    case True
    with distinct_map_eqD [OF distinct_wagers [OF keys] t assms(2)] assms(3) show ?thesis
      by (simp add: posted_def)
  next
    case False
    with assms(1) t show ?thesis by (auto simp: integrity_but_def list_all_iff)
  qed
  with assms(1) show ?thesis by (simp add: integrity_but_def integrity_def list_all_iff)
qed

section \<open>The wallet moves and its ledger follows\<close>

definition move_wallet :: "wallet_row \<Rightarrow> ledger_row \<Rightarrow> db \<Rightarrow> db" where
  "move_wallet r' l d =
     d\<lparr>db_wallets := update_where (\<lambda>r. wr_id r = wr_id r') (\<lambda>_. r') (db_wallets d),
       db_ledger := db_ledger d @ [l]\<rparr>"

text \<open>The new row and the new entry continue the row they replace.\<close>

definition continues :: "wallet_row \<Rightarrow> wallet_row \<Rightarrow> ledger_row \<Rightarrow> bool" where
  "continues r r' l \<longleftrightarrow>
     wr_id r' = wr_id r \<and> wr_player r' = wr_player r \<and> wr_currency r' = wr_currency r \<and>
     wr_created r' = wr_created r \<and> l_wallet l = wr_id r \<and>
     l_before l = wr_balance r \<and> l_after l = wr_balance r' \<and> l_version l = wr_version r' \<and>
     sint (wr_version r') = sint (wr_version r) + 1 \<and>
     sint (wr_balance r') =
       sint (wr_balance r) + signed_amount (l_direction l) (sint (l_amount l))"

lemma find_wallet_move:
  assumes "keys_ok d" and "find_wallet d (wr_id r') = Some r"
  shows "find_wallet (move_wallet r' l d) i =
    (if i = wr_id r' then Some r' else find_wallet d i)"
proof -
  have "find (\<lambda>r. wr_id r = i) (update_where (\<lambda>r. wr_id r = wr_id r') (\<lambda>_. r') ws) =
      (if i = wr_id r' \<and> find (\<lambda>r. wr_id r = i) ws \<noteq> None then Some r'
       else find (\<lambda>r. wr_id r = i) ws)" for ws
    by (induction ws) (auto simp: update_where_def)
  with assms(2) show ?thesis by (auto simp: find_wallet_def move_wallet_def)
qed

lemma find_wager_move [simp]: "find_wager (move_wallet r' l d) i = find_wager d i"
  by (simp add: find_wager_def move_wallet_def)

lemma move_currency:
  assumes "keys_ok d" and "find_wallet d (wr_id r') = Some r" and "wr_currency r' = wr_currency r"
  shows "map_option wr_currency (find_wallet (move_wallet r' l d) i) =
    map_option wr_currency (find_wallet d i)"
  using assms(2,3) by (simp add: find_wallet_move [OF assms(1,2)])

lemma wager_ok_currency:
  assumes "\<And>i. map_option wr_currency (find_wallet d' i) = map_option wr_currency (find_wallet d i)"
  shows "wager_ok pf d' t = wager_ok pf d t"
  using assms [of "t_wallet t"]
  by (cases "find_wallet d (t_wallet t)"; cases "find_wallet d' (t_wallet t)")
     (simp_all add: wager_ok_def)

lemma reversal_ok_cong:
  assumes "\<And>i. find_wager d' i = find_wager d i"
  shows "reversal_ok d' t = reversal_ok d t"
proof -
  have "find_wager d' = find_wager d" using assms by blast
  then show ?thesis by (simp only: reversal_ok_def)
qed

lemma entry_ok_currency:
  assumes "\<And>i. map_option wr_currency (find_wallet d' i) = map_option wr_currency (find_wallet d i)"
    and "\<And>i. find_wager d' i = find_wager d i"
  shows "entry_ok d' l = entry_ok d l"
proof -
  have "find_wager d' = find_wager d" using assms(2) by blast
  then have "expected_direction d' s = expected_direction d s" for s
    by (simp only: expected_direction_def)
  then show ?thesis
    using assms(1) [of "l_wallet l"]
    by (cases "find_wallet d (l_wallet l)"; cases "find_wallet d' (l_wallet l)")
       (simp_all add: entry_ok_def ledger_transaction_ok_def assms(2) cong: option.case_cong)
qed

lemma balanced_move:
  assumes "continues r r' l" and "balanced d r"
  shows "balanced (move_wallet r' l d) r'"
proof -
  have "entries (move_wallet r' l d) (wr_id r') = entries d (wr_id r) @ [l]"
    using assms(1) by (simp add: entries_def move_wallet_def continues_def)
  moreover have "chain_start (move_wallet r' l d) (wr_id r') = chain_start d (wr_id r)"
    using assms(1) by (simp add: chain_start_def opened_def move_wallet_def continues_def)
  ultimately show ?thesis
    using assms by (simp add: balanced_def chain_end_append continues_def)
qed

lemma balanced_other:
  assumes "l_wallet l = wr_id r'" and "wr_id x \<noteq> wr_id r'"
  shows "balanced (move_wallet r' l d) x = balanced d x"
proof -
  have "entries (move_wallet r' l d) (wr_id x) = entries d (wr_id x)"
    using assms by (simp add: entries_def move_wallet_def)
  then show ?thesis by (simp add: balanced_def chain_start_def opened_def move_wallet_def)
qed

lemma move_keys:
  assumes "keys_ok d" and "find_wallet d (wr_id r') = Some r" and "continues r r' l"
    and "\<forall>x\<in>set (db_ledger d). \<not> ledger_clash l x"
  shows "keys_ok (move_wallet r' l d)"
proof -
  let ?u = "\<lambda>x. if wr_id x = wr_id r' then r' else x"
  have "clash_free wallet_clash (map ?u ws)" if "clash_free wallet_clash ws" "set ws \<subseteq> set (db_wallets d)" for ws
  proof -
    have same: "wr_id (?u x) = wr_id x \<and> wr_player (?u x) = wr_player x \<and>
        wr_currency (?u x) = wr_currency x" if "x \<in> set (db_wallets d)" for x
    proof (cases "wr_id x = wr_id r'")
      case True
      with that have "x = r" using assms(1,2) by (simp add: find_wallet_Some distinct_map_eqD [OF distinct_wallets])
      with assms(3) show ?thesis by (simp add: continues_def)
    qed simp
    show ?thesis
      using that unfolding clash_free_def sorted_wrt_map
      by (elim sorted_wrt_mono_rel [rotated]) (use same in \<open>auto simp: wallet_clash_def subset_iff\<close>)
  qed
  with assms(1,4) show ?thesis
    using ledger_clash_sym
    by (auto simp: keys_ok_def move_wallet_def update_where_def clash_free_append)
qed

lemma movement:
  assumes but: "integrity_but pf d (t_id tr)" and tr: "tr \<in> set (db_wagers d)"
    and r: "find_wallet d (wr_id r') = Some r" and c: "continues r r' l"
    and ok: "wallet_ok pf r'" and l: "l_transaction l = t_id tr"
    and free: "\<forall>x\<in>set (db_ledger d). \<not> ledger_clash l x" and entry: "entry_ok d l"
  shows "integrity pf (move_wallet r' l d)"
proof -
  let ?d = "move_wallet r' l d"
  have keys: "keys_ok d" using but by (simp add: integrity_but_def)
  note cur = move_currency [OF keys r conjunct1 [OF conjunct2 [OF conjunct2 [OF
        c [unfolded continues_def]]]]]
  have lw: "l_wallet l = wr_id r'" using c by (simp add: continues_def)
  have wallets: "x = r' \<or> x \<in> set (db_wallets d) \<and> wr_id x \<noteq> wr_id r'"
    if "x \<in> set (db_wallets ?d)" for x
    using that by (auto simp: move_wallet_def set_update_where split: if_splits)
  have wagers [simp]: "db_wagers ?d = db_wagers d" by (simp add: move_wallet_def)
  have ledger [simp]: "db_ledger ?d = db_ledger d @ [l]" by (simp add: move_wallet_def)
  show ?thesis
    unfolding integrity_def
  proof (intro conjI)
    show "keys_ok ?d" by (rule move_keys [OF keys r c free])
    show "list_all (wallet_ok pf) (db_wallets ?d)"
      using but ok wallets by (auto simp: integrity_but_def list_all_iff)
    show "list_all (balanced ?d) (db_wallets ?d)"
      unfolding list_all_iff
    proof
      fix x
      assume "x \<in> set (db_wallets ?d)"
      then consider "x = r'" | "x \<in> set (db_wallets d)" "wr_id x \<noteq> wr_id r'" using wallets by blast
      then show "balanced ?d x"
      proof cases
        case 1
        have "r \<in> set (db_wallets d)" using r keys by (simp add: find_wallet_Some)
        with but have "balanced d r" by (simp add: integrity_but_def list_all_iff)
        with balanced_move [OF c] 1 show ?thesis by simp
      next
        case 2
        with but balanced_other [OF lw] show ?thesis by (simp add: integrity_but_def list_all_iff)
      qed
    qed
    show "list_all (wager_ok pf ?d) (db_wagers ?d)"
      using but wager_ok_currency [OF cur] by (simp add: integrity_but_def list_all_iff)
    show "list_all (posted ?d) (db_wagers ?d)"
      using but l by (auto simp: integrity_but_def list_all_iff posted_def list_ex_iff)
    show "list_all (reversal_ok ?d) (db_wagers ?d)"
      using but reversal_ok_cong [OF find_wager_move]
      by (simp add: integrity_but_def list_all_iff)
    show "list_all (entry_ok ?d) (db_ledger ?d)"
      using but entry entry_ok_currency [of ?d d, OF cur find_wager_move]
      by (simp add: integrity_but_def list_all_iff)
  qed
qed

text \<open>The inbox and the outbox carry nothing but their keys.\<close>

lemma integrity_boxes:
  assumes "integrity pf d" and "clash_free outbox_clash os" and "clash_free inbox_clash ib"
  shows "integrity pf (d\<lparr>db_inbox := ib, db_outbox := os\<rparr>)"
proof -
  let ?d = "d\<lparr>db_inbox := ib, db_outbox := os\<rparr>"
  have f: "find_wallet ?d i = find_wallet d i" "find_wager ?d i = find_wager d i" for i
    by (simp_all add: find_wallet_def find_wager_def)
  have "balanced ?d r = balanced d r" for r
    by (simp add: balanced_def entries_def chain_start_def opened_def)
  moreover have "wager_ok pf ?d t = wager_ok pf d t" for t by (rule wager_ok_currency) (simp add: f)
  moreover have "entry_ok ?d l = entry_ok d l" for l by (rule entry_ok_currency) (simp_all add: f)
  moreover have "posted ?d t = posted d t" for t by (simp add: posted_def)
  moreover have "reversal_ok ?d t = reversal_ok d t" for t by (rule reversal_ok_cong) (rule f)
  ultimately show ?thesis
    using assms by (simp add: integrity_def list_all_iff keys_ok_def)
qed

end
