(* ===== verification/Outbox.thy ===== *)
theory Outbox
  imports Posting
begin

text \<open>
  The transactional outbox of \<^verbatim>\<open>internal/infra/postgres/store.go\<close>: claiming due events
  under a lease of 30 seconds, marking one published, scheduling another attempt. Events of
  equal \<^verbatim>\<open>occurred_at\<close> are claimed in insertion order, and returned in the order of the
  claim; SQL leaves both open.
\<close>

record outbox_event =
  oe_id :: uuid
  oe_aggregate :: uuid
  oe_payload :: string
  oe_attempts :: int
  oe_occurred :: time

definition claim_lease :: time where
  "claim_lease = 30 * sint second"

definition claimable :: "env \<Rightarrow> outbox_row \<Rightarrow> bool" where
  "claimable en r \<longleftrightarrow>
     o_published r = None \<and> o_next r \<le> en_dbnow en \<and>
     (case o_claimed r of None \<Rightarrow> True | Some u \<Rightarrow> u < en_dbnow en)"

definition claimed_rows :: "env \<Rightarrow> int \<Rightarrow> db \<Rightarrow> outbox_row list" where
  "claimed_rows en limit d =
     take (nat limit) (filter (\<lambda>r. \<not> en_locked en (o_id r))
       (sort_key o_occurred (filter (claimable en) (db_outbox d))))"

definition scan_event :: "outbox_row \<Rightarrow> outbox_event" where
  "scan_event r =
     \<lparr>oe_id = o_id r, oe_aggregate = o_aggregate r, oe_payload = o_payload r,
      oe_attempts = o_attempts r, oe_occurred = o_occurred r\<rparr>"

definition claim_outbox :: "env \<Rightarrow> int \<Rightarrow> db \<Rightarrow> (err + outbox_event list) \<times> db" where
  "claim_outbox en limit d =
     (if limit < 0 then (Inl (ErrText ''LIMIT must not be negative''), d)
      else
        let rs = claimed_rows en limit d; ids = map o_id rs
        in (Inr (map scan_event rs),
            d\<lparr>db_outbox := update_where (\<lambda>r. o_id r \<in> set ids)
                (\<lambda>r. r\<lparr>o_claimed := Some (en_dbnow en + claim_lease)\<rparr>) (db_outbox d)\<rparr>))"

definition mark_outbox_published :: "env \<Rightarrow> uuid \<Rightarrow> db \<Rightarrow> (err + unit) \<times> db" where
  "mark_outbox_published en i d =
     (Inr (),
      d\<lparr>db_outbox := update_where (\<lambda>r. o_id r = i \<and> o_published r = None)
          (\<lambda>r. r\<lparr>o_published := Some (en_dbnow en), o_claimed := None\<rparr>) (db_outbox d)\<rparr>)"

text \<open>\<^verbatim>\<open>attempts\<close> is a 32-bit column.\<close>

definition retry_outbox :: "env \<Rightarrow> uuid \<Rightarrow> int64 \<Rightarrow> db \<Rightarrow> (err + unit) \<times> db" where
  "retry_outbox en i delay d =
     (if list_ex (\<lambda>r. o_id r = i \<and> o_published r = None \<and> o_attempts r = 2147483647) (db_outbox d)
      then (Inl (ErrPg NumericOutOfRange), d)
      else
        (Inr (),
         d\<lparr>db_outbox := update_where (\<lambda>r. o_id r = i \<and> o_published r = None)
             (\<lambda>r. r\<lparr>o_attempts := o_attempts r + 1, o_next := en_dbnow en + sint delay,
                    o_claimed := None\<rparr>) (db_outbox d)\<rparr>))"

section \<open>Facts\<close>

text \<open>An update of the outbox that keeps the identifiers keeps the integrity of the state.\<close>

lemma outbox_update_integrity:
  assumes i: "integrity pf d" and f: "\<And>r. o_id (f r) = o_id r"
  shows "integrity pf (d\<lparr>db_outbox := update_where p f (db_outbox d)\<rparr>)"
proof -
  have "clash_free outbox_clash (update_where p f (db_outbox d))"
    using i f unfolding integrity_def keys_ok_def clash_free_def update_where_def sorted_wrt_map
    by (auto elim!: sorted_wrt_mono_rel [rotated] simp: outbox_clash_def)
  moreover have "clash_free inbox_clash (db_inbox d)"
    using i by (simp add: integrity_def keys_ok_def)
  ultimately have "integrity pf (d\<lparr>db_inbox := db_inbox d,
      db_outbox := update_where p f (db_outbox d)\<rparr>)"
    by (rule integrity_boxes [OF i])
  then show ?thesis by simp
qed

lemma outbox_integrity:
  assumes "integrity pf d"
  shows "integrity pf (snd (claim_outbox en limit d))"
    and "integrity pf (snd (mark_outbox_published en i d))"
    and "integrity pf (snd (retry_outbox en i delay d))"
  using assms
  by (simp_all add: claim_outbox_def mark_outbox_published_def retry_outbox_def Let_def
      outbox_update_integrity)

lemma claimed_rows_claimable:
  "r \<in> set (claimed_rows en limit d) \<Longrightarrow>
   r \<in> set (db_outbox d) \<and> claimable en r \<and> \<not> en_locked en (o_id r)"
  by (auto simp: claimed_rows_def dest!: in_set_takeD)

lemma sorted_wrt_take_filter:
  "sorted_wrt P xs \<Longrightarrow> sorted_wrt P (take n (filter q xs))"
  by (simp add: sorted_wrt_take sorted_wrt_filter)

lemma claimed_rows_sorted: "sorted (map o_occurred (claimed_rows en limit d))"
proof -
  let ?s = "sort_key o_occurred (filter (claimable en) (db_outbox d))"
  have "sorted_wrt (\<lambda>x y. o_occurred x \<le> o_occurred y) ?s"
    by (metis sorted_map sorted_sort_key)
  then show ?thesis
    unfolding claimed_rows_def sorted_map by (rule sorted_wrt_take_filter)
qed

end
