(* ===== verification/Worker.thy ===== *)
theory Worker
  imports Requests Queue Metrics Outbox
begin

text \<open>
  \<^verbatim>\<open>internal/worker/workers.go\<close>: the input consumer, the outbox publisher and the
  reference resolver. Each works on the calls made of the queues, the store behind its interface
  and the counters. What the surroundings decide is an argument: whether the context is
  cancelled when the code looks at it, what the fault hooks return, the milliseconds that
  passed. A loop runs over a list of such surroundings, one per round, so a run is any finite
  prefix of the goroutine's life. Logging is left out.
\<close>

section \<open>State\<close>

record 's world =
  ws_calls :: "sqs_call list"
  ws_store :: 's
  ws_metrics :: registry

definition count_metric :: "string \<Rightarrow> 's world \<Rightarrow> 's world" where
  "count_metric n w = w\<lparr>ws_metrics := metric_inc n (ws_metrics w)\<rparr>"

definition add_metric :: "string \<Rightarrow> 64 word \<Rightarrow> 's world \<Rightarrow> 's world" where
  "add_metric n v w = w\<lparr>ws_metrics := metric_add n v (ws_metrics w)\<rparr>"

definition on_queue :: "(sqs_call list \<Rightarrow> 'a \<times> sqs_call list) \<Rightarrow> 's world \<Rightarrow> 'a \<times> 's world" where
  "on_queue f w = (case f (ws_calls w) of (a, calls) \<Rightarrow> (a, w\<lparr>ws_calls := calls\<rparr>))"

definition on_store :: "('s \<Rightarrow> 'a \<times> 's) \<Rightarrow> 's world \<Rightarrow> 'a \<times> 's world" where
  "on_store f w = (case f (ws_store w) of (a, s) \<Rightarrow> (a, w\<lparr>ws_store := s\<rparr>))"

section \<open>Input consumer\<close>

definition consumer_name :: string where
  "consumer_name = ''wager-transaction-consumer''"

definition requested_type :: string where
  "requested_type = ''WagerTransactionRequested''"

text \<open>The interface \<^verbatim>\<open>wagerProcessor\<close>.\<close>

record 's processor =
  pr_inbox :: "inbox_message \<Rightarrow> operation \<Rightarrow> 's \<Rightarrow> (err + result) \<times> 's"
  pr_fail :: "operation \<Rightarrow> string \<Rightarrow> 's \<Rightarrow> (err + result) \<times> 's"

text \<open>\<open>Permanent\<close> is \<^verbatim>\<open>errPermanentMessage\<close>, alone or joined to a decoder's error.\<close>

datatype handle_error = Permanent | Refused err

definition message_request :: "parsers \<Rightarrow> (string \<Rightarrow> bool) \<Rightarrow> string \<Rightarrow> (string \<times> operation) option" where
  "message_request y known body =
     (case unmarshal envelope_fields no_envelope body of
        None \<Rightarrow> None
      | Some e \<Rightarrow>
          if me_id e = [] \<or> me_type e \<noteq> requested_type then None
          else map_option (\<lambda>p. (me_id e, p)) (request_operation y known (me_data e)))"

definition handle ::
    "parsers \<Rightarrow> (string \<Rightarrow> bool) \<Rightarrow> 's processor \<Rightarrow> message \<Rightarrow> 's world \<Rightarrow>
     handle_error option \<times> 's world" where
  "handle y known pr m w =
     (case message_request y known (m_body m) of
        None \<Rightarrow> (Some Permanent, w)
      | Some (mid, p) \<Rightarrow>
          (case on_store (pr_inbox pr
                  \<lparr>im_consumer = consumer_name, im_id = mid, im_hash = payload_hash (m_body m)\<rparr> p) w of
             (Inl e, w') \<Rightarrow> (Some (Refused e), w')
           | (Inr r, w') \<Rightarrow>
               let w'' = count_metric (results_metric (status_text (r_status r))) w'
               in (None, if r_replay r then count_metric ''apostas_wager_duplicates_total'' w''
                         else w'')))"

definition exhausted :: string where
  "exhausted = ''PROCESSING_RETRIES_EXHAUSTED''"

definition record_permanent_failure ::
    "parsers \<Rightarrow> (string \<Rightarrow> bool) \<Rightarrow> 's processor \<Rightarrow> message \<Rightarrow> 's world \<Rightarrow>
     (err + result) \<times> 's world" where
  "record_permanent_failure y known pr m w =
     (case unmarshal failure_fields no_envelope (m_body m) of
        None \<Rightarrow> (Inl (ErrText ''permanent SQS message error''), w)
      | Some e \<Rightarrow>
          if me_type e \<noteq> requested_type then (Inl (ErrText ''permanent SQS message error''), w)
          else case request_operation y known (me_data e) of
            None \<Rightarrow> (Inl (ErrText ''invalid request''), w)
          | Some p \<Rightarrow> on_store (pr_fail pr p exhausted) w)"

text \<open>The errors that no other attempt can mend.\<close>

definition final_error :: "handle_error \<Rightarrow> bool" where
  "final_error h \<longleftrightarrow> h = Permanent \<or> h = Refused ErrInvalidInput \<or> h = Refused ErrConflict"

definition to_dead_letters :: "client \<Rightarrow> message \<Rightarrow> 's world \<Rightarrow> 's world" where
  "to_dead_letters cl m w =
     (case on_queue (dead_letter cl m) w of
        (Some e, w') \<Rightarrow> w'
      | (None, w') \<Rightarrow>
          count_metric ''apostas_sqs_dlq_total''
            (snd (on_queue (delete_message cl (m_receipt m)) w')))"

definition retry_later :: "client \<Rightarrow> message \<Rightarrow> 's world \<Rightarrow> 's world" where
  "retry_later cl m w =
     snd (on_queue (change_visibility cl (m_receipt m) (queue_retry_delay (m_count m)))
       (count_metric ''apostas_sqs_retries_total'' w))"

text \<open>
  What surrounds one message: whether the context is done after \<^verbatim>\<open>handle\<close>, whether
  \<^verbatim>\<open>afterCommit\<close> injects a fault, the milliseconds the handling took.
\<close>

record moment =
  mo_done :: bool
  mo_fault :: bool
  mo_millis :: "64 word"

text \<open>The body of the loop over the messages; \<open>False\<close> is its \<^verbatim>\<open>return\<close>.\<close>

definition consume ::
    "parsers \<Rightarrow> (string \<Rightarrow> bool) \<Rightarrow> client \<Rightarrow> 's processor \<Rightarrow> moment \<Rightarrow> message \<Rightarrow> 's world \<Rightarrow>
     bool \<times> 's world" where
  "consume y known cl pr mo m w =
     (case handle y known pr m w of
        (res, w1) \<Rightarrow>
          if mo_done mo
          then (False, snd (on_queue (case res of
                   None \<Rightarrow> delete_message cl (m_receipt m)
                 | Some h \<Rightarrow> change_visibility cl (m_receipt m) 0) w1))
          else case res of
            Some h \<Rightarrow>
              if 5 \<le>s m_count m \<and> \<not> final_error h
              then (case record_permanent_failure y known pr m w1 of
                      (Inr r, w2) \<Rightarrow>
                        (True, count_metric (results_metric ''FAILED'')
                           (snd (on_queue (delete_message cl (m_receipt m)) w2)))
                    | (Inl e, w2) \<Rightarrow> (True, to_dead_letters cl m w2))
              else if final_error h \<or> 5 \<le>s m_count m then (True, to_dead_letters cl m w1)
              else (True, retry_later cl m w1)
          | None \<Rightarrow>
              if mo_fault mo then (False, w1)
              else
                (True, snd (on_queue (delete_message cl (m_receipt m))
                   (add_metric ''apostas_sqs_processing_latency_milliseconds_total'' (mo_millis mo)
                     (count_metric (''apostas_sqs_messages_total{status='' @ [quote_char] @ ''processed'' @
                        [quote_char] @ ''}'') w1)))))"

fun consume_all ::
    "parsers \<Rightarrow> (string \<Rightarrow> bool) \<Rightarrow> client \<Rightarrow> (nat \<Rightarrow> 's processor \<times> moment) \<Rightarrow> nat \<Rightarrow> message list \<Rightarrow>
     's world \<Rightarrow> bool \<times> 's world" where
  "consume_all y known cl at n [] w = (True, w)"
| "consume_all y known cl at n (m # ms) w =
     (case consume y known cl (fst (at n)) (snd (at n)) m w of
        (False, w') \<Rightarrow> (False, w')
      | (True, w') \<Rightarrow> consume_all y known cl at (Suc n) ms w')"

text \<open>
  A round of \<^verbatim>\<open>Run\<close>: whether the context is done at its start, and, when receiving
  fails, whether it is done then or before the second of waiting is over.
\<close>

record 's consumer_round =
  cr_done :: bool
  cr_stop :: bool
  cr_at :: "nat \<Rightarrow> 's processor \<times> moment"

definition consumer_round ::
    "parsers \<Rightarrow> (string \<Rightarrow> bool) \<Rightarrow> client \<Rightarrow> 's consumer_round \<Rightarrow> 's world \<Rightarrow> bool \<times> 's world" where
  "consumer_round y known cl rd w =
     (if cr_done rd then (False, w)
      else case on_queue (receive cl) w of
        (Inl e, w') \<Rightarrow> (\<not> cr_stop rd, w')
      | (Inr ms, w') \<Rightarrow> consume_all y known cl (cr_at rd) 0 ms w')"

fun consumer_run ::
    "parsers \<Rightarrow> (string \<Rightarrow> bool) \<Rightarrow> client \<Rightarrow> 's consumer_round list \<Rightarrow> 's world \<Rightarrow> bool \<times> 's world" where
  "consumer_run y known cl [] w = (True, w)"
| "consumer_run y known cl (rd # rds) w =
     (case consumer_round y known cl rd w of
        (False, w') \<Rightarrow> (False, w')
      | (True, w') \<Rightarrow> consumer_run y known cl rds w')"

section \<open>Outbox publisher\<close>

text \<open>The interface \<^verbatim>\<open>outboxStore\<close>.\<close>

record 's outbox_store =
  os_claim :: "int \<Rightarrow> 's \<Rightarrow> (err + outbox_event list) \<times> 's"
  os_retry :: "uuid \<Rightarrow> int64 \<Rightarrow> 's \<Rightarrow> (err + unit) \<times> 's"
  os_mark :: "uuid \<Rightarrow> 's \<Rightarrow> (err + unit) \<times> 's"

text \<open>What surrounds one event: the store as it is then, the fault hook, the delay in milliseconds.\<close>

record 's event_moment =
  em_store :: "'s outbox_store"
  em_fault :: "err option"
  em_millis :: "64 word"

fun publish_events ::
    "texts \<Rightarrow> client \<Rightarrow> (nat \<Rightarrow> 's event_moment) \<Rightarrow> nat \<Rightarrow> outbox_event list \<Rightarrow> 's world \<Rightarrow>
     err option \<times> 's world" where
  "publish_events x cl at n [] w = (None, w)"
| "publish_events x cl at n (ev # evs) w =
     (case on_queue (publish_event cl (uuid_text x (oe_id ev)) (uuid_text x (oe_aggregate ev))
              (oe_payload ev)) w of
        (Some e, w1) \<Rightarrow>
          (case on_store (os_retry (em_store (at n)) (oe_id ev)
                  (queue_retry_delay (word_of_int (oe_attempts ev) + 1)))
                  (count_metric ''apostas_outbox_retries_total'' w1) of
             (Inl e', w2) \<Rightarrow> (Some e', w2)
           | (Inr _, w2) \<Rightarrow> publish_events x cl at (Suc n) evs w2)
      | (None, w1) \<Rightarrow>
          (case em_fault (at n) of
             Some e \<Rightarrow> (Some e, w1)
           | None \<Rightarrow>
               (case on_store (os_mark (em_store (at n)) (oe_id ev)) w1 of
                  (Inl e, w2) \<Rightarrow> (Some e, w2)
                | (Inr _, w2) \<Rightarrow>
                    publish_events x cl at (Suc n) evs
                      (add_metric ''apostas_outbox_delay_milliseconds_total'' (em_millis (at n))
                        (count_metric ''apostas_outbox_published_total'' w2)))))"

definition publish ::
    "texts \<Rightarrow> client \<Rightarrow> 's outbox_store \<Rightarrow> (nat \<Rightarrow> 's event_moment) \<Rightarrow> 's world \<Rightarrow>
     err option \<times> 's world" where
  "publish x cl os at w =
     (case on_store (os_claim os 20) w of
        (Inl e, w') \<Rightarrow> (Some e, w')
      | (Inr evs, w') \<Rightarrow> publish_events x cl at 0 evs w')"

text \<open>Errors of a round are only logged; a round is followed by the ticker or the end.\<close>

fun publisher_run ::
    "texts \<Rightarrow> client \<Rightarrow> (bool \<times> 's outbox_store \<times> (nat \<Rightarrow> 's event_moment)) list \<Rightarrow> 's world \<Rightarrow>
     bool \<times> 's world" where
  "publisher_run x cl [] w = (True, w)"
| "publisher_run x cl ((finished, os, at) # rds) w =
     (let w' = snd (publish x cl os at w)
      in if finished then (False, w') else publisher_run x cl rds w')"

section \<open>Reference resolver\<close>

text \<open>A round that processed a reference goes on at once, without a look at the context.\<close>

fun resolver_run ::
    "(bool \<times> ('s \<Rightarrow> (err + bool) \<times> 's)) list \<Rightarrow> 's world \<Rightarrow> bool \<times> 's world" where
  "resolver_run [] w = (True, w)"
| "resolver_run ((finished, resolve) # rds) w =
     (case on_store resolve w of
        (res, w') \<Rightarrow>
          if res = Inr True then resolver_run rds w'
          else if finished then (False, w')
          else resolver_run rds w')"

section \<open>Start\<close>

text \<open>
  \<^verbatim>\<open>OnStart\<close> waits until the queues answer: \<open>Some (Inr ())\<close> when the workers are
  started, \<open>Some (Inl e)\<close> when the context ends first (each round says whether it is done
  after a failed check, and whether it ends while the code waits), \<open>None\<close> while it waits.
\<close>

fun await_queues :: "client \<Rightarrow> (bool \<times> err option) list \<Rightarrow> sqs_call list \<Rightarrow> (err + unit) option \<times> sqs_call list" where
  "await_queues cl [] calls = (None, calls)"
| "await_queues cl ((finished, waiting) # rds) calls =
     (case queue_ready cl calls of
        (None, calls') \<Rightarrow> (Some (Inr ()), calls')
      | (Some e, calls') \<Rightarrow>
          if finished then (Some (Inl e), calls')
          else case waiting of
            Some e' \<Rightarrow> (Some (Inl e'), calls')
          | None \<Rightarrow> await_queues cl rds calls')"

end
