(* ===== verification/StoreRead.thy ===== *)
theory StoreRead
  imports Store
begin

text \<open>
  The reading half of \<^verbatim>\<open>internal/infra/postgres/store.go\<close> and the values of
  \<^verbatim>\<open>internal/usecases/read.go\<close>: a wallet's ledger page by page, transactions by
  identifier or by the provider's own, and the reconciliation of a wallet with its ledger. The
  service \<^verbatim>\<open>Reader\<close> only passes calls on to its store.
\<close>

section \<open>The ledger, page by page\<close>

record ledger_cursor =
  lc_created :: time
  lc_id :: uuid

record ledger_view =
  lv_id :: uuid
  lv_wallet :: uuid
  lv_transaction :: uuid
  lv_direction :: direction
  lv_money :: money
  lv_before :: money
  lv_after :: money
  lv_created :: time

record ledger_page =
  lp_entries :: "ledger_view list"
  lp_next :: "ledger_cursor option"

definition scan_ledger_row :: "platform \<Rightarrow> string \<Rightarrow> ledger_row \<Rightarrow> err + ledger_view" where
  "scan_ledger_row pf cur l =
     rbind (money_from_minor (pf_known pf) (l_amount l) cur) (\<lambda>amount.
     rbind (money_from_minor (pf_known pf) (l_before l) cur) (\<lambda>before.
     rbind (money_from_minor (pf_known pf) (l_after l) cur) (\<lambda>after.
       Inr \<lparr>lv_id = l_id l, lv_wallet = l_wallet l, lv_transaction = l_transaction l,
            lv_direction = l_direction l, lv_money = amount, lv_before = before,
            lv_after = after, lv_created = l_created l\<rparr>)))"

fun scan_all :: "('r \<Rightarrow> err + 'v) \<Rightarrow> 'r list \<Rightarrow> err + 'v list" where
  "scan_all f [] = Inr []"
| "scan_all f (r # rs) = rbind (f r) (\<lambda>v. rbind (scan_all f rs) (\<lambda>vs. Inr (v # vs)))"

definition ledger_key :: "ledger_row \<Rightarrow> time \<times> uuid" where
  "ledger_key l = (l_created l, l_id l)"

text \<open>The rows after the cursor, in the order of \<^verbatim>\<open>created_at, id\<close>.\<close>

definition ledger_after :: "platform \<Rightarrow> uuid \<Rightarrow> ledger_cursor option \<Rightarrow> db \<Rightarrow> ledger_row list" where
  "ledger_after pf wid cursor d =
     filter (\<lambda>l. case cursor of
                   None \<Rightarrow> True
                 | Some c \<Rightarrow> (pf_stamp pf (lc_created c), lc_id c) < ledger_key l)
       (sort_key ledger_key (filter (\<lambda>l. l_wallet l = wid) (db_ledger d)))"

text \<open>
  One page; the callers bound \<^verbatim>\<open>limit\<close> to 1..100, and a limit of 0 with rows left
  would index the last entry of an empty slice.
\<close>

definition list_ledger ::
    "platform \<Rightarrow> uuid \<Rightarrow> ledger_cursor option \<Rightarrow> nat \<Rightarrow> db \<Rightarrow> err + ledger_page" where
  "list_ledger pf wid cursor limit d =
     (case find_wallet d wid of
        None \<Rightarrow> Inl ErrNotFound
      | Some w \<Rightarrow>
          rbind (scan_all (scan_ledger_row pf (wr_currency w))
                   (take (limit + 1) (ledger_after pf wid cursor d))) (\<lambda>entries.
            if limit < length entries
            then (if limit = 0 then Inl (ErrText ''index out of range'')
                  else
                    let page = take limit entries; end_entry = page ! (length page - 1)
                    in Inr \<lparr>lp_entries = page,
                            lp_next = Some \<lparr>lc_created = lv_created end_entry,
                                            lc_id = lv_id end_entry\<rparr>\<rparr>)
            else Inr \<lparr>lp_entries = entries, lp_next = None\<rparr>))"

section \<open>Transactions\<close>

record transaction_view =
  v_id :: uuid
  v_external :: string
  v_provider :: string
  v_wallet :: uuid
  v_player :: uuid
  v_round :: string
  v_game :: string
  v_kind :: kind
  v_money :: money
  v_ref_external :: string
  v_ref :: "uuid option"
  v_status :: status
  v_failure :: string
  v_result :: "money option"
  v_created :: time
  v_updated :: time

definition scan_transaction :: "platform \<Rightarrow> wager_row option \<Rightarrow> err + transaction_view" where
  "scan_transaction pf row =
     (case row of
        None \<Rightarrow> Inl ErrNotFound
      | Some t \<Rightarrow>
          rbind (money_from_minor (pf_known pf) (t_amount t) (t_currency t)) (\<lambda>m.
          rbind (case t_result t of
                   None \<Rightarrow> Inr None
                 | Some b \<Rightarrow> rbind (money_from_minor (pf_known pf) b (t_currency t))
                                (\<lambda>r. Inr (Some r))) (\<lambda>result.
          rbind (rehydrate_wager (pf_known pf) (row_data t)) (\<lambda>_.
            Inr \<lparr>v_id = t_id t, v_external = string_value (t_external t),
                 v_provider = string_value (t_provider t), v_wallet = t_wallet t,
                 v_player = t_player t, v_round = string_value (t_round t),
                 v_game = string_value (t_game t), v_kind = t_kind t, v_money = m,
                 v_ref_external = string_value (t_ref_external t), v_ref = t_ref t,
                 v_status = t_status t, v_failure = string_value (t_failure t),
                 v_result = result, v_created = t_created t, v_updated = t_updated t\<rparr>))))"

definition get_transaction :: "platform \<Rightarrow> uuid \<Rightarrow> db \<Rightarrow> err + transaction_view" where
  "get_transaction pf tid d = scan_transaction pf (find (\<lambda>t. t_id t = tid) (db_wagers d))"

definition get_transaction_for_provider ::
    "platform \<Rightarrow> uuid \<Rightarrow> string \<Rightarrow> db \<Rightarrow> err + transaction_view" where
  "get_transaction_for_provider pf tid provider d =
     scan_transaction pf
       (find (\<lambda>t. t_id t = tid \<and> t_provider t = Some provider) (db_wagers d))"

definition get_transaction_by_external ::
    "platform \<Rightarrow> string \<Rightarrow> string \<Rightarrow> db \<Rightarrow> err + transaction_view" where
  "get_transaction_by_external pf provider external d =
     scan_transaction pf
       (find (\<lambda>t. t_provider t = Some provider \<and> t_external t = Some external) (db_wagers d))"

section \<open>Reconciliation\<close>

record reconciliation =
  rc_wallet :: uuid
  rc_stored :: money
  rc_calculated :: money
  rc_difference :: money
  rc_consistent :: bool
  rc_entries :: nat

text \<open>
  The \<^verbatim>\<open>SUM\<close> is a numeric, so exact; its cast to \<^verbatim>\<open>bigint\<close> fails when it does
  not fit.
\<close>

definition ledger_sum :: "ledger_row list \<Rightarrow> int" where
  "ledger_sum ls =
     sum_list (map (\<lambda>l. if l_direction l = Credit then sint (l_amount l) else - sint (l_amount l)) ls)"

definition reconcile_wallet :: "platform \<Rightarrow> uuid \<Rightarrow> db \<Rightarrow> err + reconciliation" where
  "reconcile_wallet pf wid d =
     (case find_wallet d wid of
        None \<Rightarrow> Inl ErrNotFound
      | Some w \<Rightarrow>
          let ls = filter (\<lambda>l. l_wallet l = wid) (db_ledger d); total = ledger_sum ls
          in if \<not> fits64 total then Inl (ErrPg NumericOutOfRange)
             else
               rbind (money_from_minor (pf_known pf) (wr_balance w) (wr_currency w)) (\<lambda>stored.
               rbind (money_from_minor (pf_known pf) (word_of_int total) (wr_currency w)) (\<lambda>calculated.
               rbind (money_sub (pf_known pf) stored calculated) (\<lambda>difference.
                 Inr \<lparr>rc_wallet = wid, rc_stored = stored, rc_calculated = calculated,
                      rc_difference = difference,
                      rc_consistent = is_zero (pf_known pf) difference,
                      rc_entries = length ls\<rparr>))))"

section \<open>The service\<close>

definition reader_ledger ::
    "(uuid \<Rightarrow> ledger_cursor option \<Rightarrow> nat \<Rightarrow> 's \<Rightarrow> err + ledger_page) \<Rightarrow>
     uuid \<Rightarrow> ledger_cursor option \<Rightarrow> nat \<Rightarrow> 's \<Rightarrow> err + ledger_page" where
  "reader_ledger ledger wid cursor limit s = ledger wid cursor limit s"

definition reader_transaction ::
    "(uuid \<Rightarrow> 's \<Rightarrow> err + transaction_view) \<Rightarrow> uuid \<Rightarrow> 's \<Rightarrow> err + transaction_view" where
  "reader_transaction get tid s = get tid s"

definition reader_transaction_for_provider ::
    "(uuid \<Rightarrow> string \<Rightarrow> 's \<Rightarrow> err + transaction_view) \<Rightarrow> uuid \<Rightarrow> string \<Rightarrow> 's \<Rightarrow>
     err + transaction_view" where
  "reader_transaction_for_provider get tid provider s = get tid provider s"

definition reader_transaction_by_external ::
    "(string \<Rightarrow> string \<Rightarrow> 's \<Rightarrow> err + transaction_view) \<Rightarrow> string \<Rightarrow> string \<Rightarrow> 's \<Rightarrow>
     err + transaction_view" where
  "reader_transaction_by_external get provider external s = get provider external s"

definition reader_reconcile ::
    "(uuid \<Rightarrow> 's \<Rightarrow> err + reconciliation) \<Rightarrow> uuid \<Rightarrow> 's \<Rightarrow> err + reconciliation" where
  "reader_reconcile reconcile wid s = reconcile wid s"

end
