(* ===== verification/GoText.thy ===== *)
theory GoText
  imports Json
begin

text \<open>
  Two pieces of Go's standard library the HTTP layer uses, on bytes:
  \<^verbatim>\<open>base64.RawURLEncoding\<close> with its round trip, and \<^verbatim>\<open>strings.Fields\<close>.
\<close>

section \<open>base64.RawURLEncoding\<close>

definition b64_char :: "nat \<Rightarrow> char" where
  "b64_char n =
     byte_char (if n < 26 then 65 + n else if n < 52 then 71 + n else if n < 62 then n - 4
                else if n = 62 then 45 else 95)"

definition b64_value :: "char \<Rightarrow> nat option" where
  "b64_value c =
     (let b = code c
      in if 65 \<le> b \<and> b \<le> 90 then Some (b - 65)
         else if 97 \<le> b \<and> b \<le> 122 then Some (b - 71)
         else if 48 \<le> b \<and> b \<le> 57 then Some (b + 4)
         else if b = 45 then Some 62
         else if b = 95 then Some 63
         else None)"

fun b64_encode :: "string \<Rightarrow> string" where
  "b64_encode [] = []"
| "b64_encode [a] = map b64_char [code a div 4, code a mod 4 * 16]"
| "b64_encode [a, b] =
     map b64_char [code a div 4, code a mod 4 * 16 + code b div 16, code b mod 16 * 4]"
| "b64_encode (a # b # c # s) =
     map b64_char [code a div 4, code a mod 4 * 16 + code b div 16,
       code b mod 16 * 4 + code c div 64, code c mod 64] @ b64_encode s"

text \<open>
  The decoder skips line breaks, takes no padding, and does not look at the bits left over in the
  last character; a group of one character is an error.
\<close>

fun b64_groups :: "nat list \<Rightarrow> nat list option" where
  "b64_groups [] = Some []"
| "b64_groups [a] = None"
| "b64_groups [a, b] = Some [a * 4 + b div 16]"
| "b64_groups [a, b, c] = Some [a * 4 + b div 16, b mod 16 * 16 + c div 4]"
| "b64_groups (a # b # c # d # ns) =
     map_option (\<lambda>bs. [a * 4 + b div 16, b mod 16 * 16 + c div 4, c mod 4 * 64 + d] @ bs) (b64_groups ns)"

definition b64_decode :: "string \<Rightarrow> string option" where
  "b64_decode s =
     (case those (map b64_value (filter (\<lambda>c. code c \<noteq> 10 \<and> code c \<noteq> 13) s)) of
        None \<Rightarrow> None
      | Some ns \<Rightarrow> map_option (map byte_char) (b64_groups ns))"

lemma code_less_256: "code c < 256"
  by (simp add: code_def)

lemma b64_value_char [simp]: "n < 64 \<Longrightarrow> b64_value (b64_char n) = Some n"
  by (auto simp: b64_value_def b64_char_def code_byte_char Let_def)

lemma b64_char_no_break: "n < 64 \<Longrightarrow> code (b64_char n) \<noteq> 10 \<and> code (b64_char n) \<noteq> 13"
  by (auto simp: b64_char_def code_byte_char)

text \<open>The sextets of a text.\<close>

fun sextets :: "nat list \<Rightarrow> nat list" where
  "sextets [] = []"
| "sextets [a] = [a div 4, a mod 4 * 16]"
| "sextets [a, b] = [a div 4, a mod 4 * 16 + b div 16, b mod 16 * 4]"
| "sextets (a # b # c # s) =
     [a div 4, a mod 4 * 16 + b div 16, b mod 16 * 4 + c div 64, c mod 64] @ sextets s"

lemma b64_encode_sextets: "b64_encode s = map b64_char (sextets (map code s))"
  by (induction s rule: b64_encode.induct) simp_all

lemma sextets_bound: "list_all (\<lambda>n. n < 256) bs \<Longrightarrow> list_all (\<lambda>n. n < 64) (sextets bs)"
  by (induction bs rule: sextets.induct) auto

lemma b64_groups_sextets: "list_all (\<lambda>n. n < 256) bs \<Longrightarrow> b64_groups (sextets bs) = Some bs"
  by (induction bs rule: sextets.induct) auto

lemma those_values: "list_all (\<lambda>n. n < 64) ns \<Longrightarrow> those (map b64_value (map b64_char ns)) = Some ns"
  by (induction ns) auto

lemma b64_roundtrip: "b64_decode (b64_encode s) = Some s"
proof -
  let ?ns = "sextets (map code s)"
  have bytes: "list_all (\<lambda>n. n < 256) (map code s)"
    by (simp add: list_all_iff code_less_256)
  note six = sextets_bound [OF bytes]
  have "filter (\<lambda>c. code c \<noteq> 10 \<and> code c \<noteq> 13) (map b64_char ?ns) = map b64_char ?ns"
    using six b64_char_no_break by (auto simp: filter_id_conv list_all_iff)
  then show ?thesis
    using those_values [OF six] b64_groups_sextets [OF bytes]
    by (simp add: b64_decode_def b64_encode_sextets comp_def)
qed

lemma b64_encode_Nil [simp]: "b64_encode s = [] \<longleftrightarrow> s = []"
  by (cases s rule: b64_encode.cases) simp_all

section \<open>strings.Fields\<close>

text \<open>The word at the start of a text, up to the next white space.\<close>

fun take_word :: "string \<Rightarrow> string" where
  "take_word [] = []"
| "take_word (c # s) = (if leading_space (c # s) = None then c # take_word s else [])"

lemma trim_left_no_space: "leading_space (trim_left s) = None"
proof (induction s rule: trim_left.induct)
  case (1 s)
  then show ?case by (subst trim_left.simps) (auto split: option.split)
qed

lemma trim_left_length: "length (trim_left s) \<le> length s"
proof (induction s rule: trim_left.induct)
  case (1 s)
  then show ?case by (subst trim_left.simps) (force split: option.split)
qed

lemma take_word_progress:
  assumes "trim_left s \<noteq> []"
  shows "length (drop (length (take_word (trim_left s))) (trim_left s)) < length s"
proof -
  from assms obtain c t where t: "trim_left s = c # t" by (cases "trim_left s") auto
  then have "take_word (trim_left s) \<noteq> []" using trim_left_no_space [of s] by simp
  then have "0 < length (take_word (trim_left s))" and "0 < length (trim_left s)"
    using assms by simp_all
  with trim_left_length [of s] show ?thesis unfolding length_drop by linarith
qed

function text_fields :: "string \<Rightarrow> string list" where
  "text_fields s =
     (if trim_left s = [] then []
      else take_word (trim_left s) #
        text_fields (drop (length (take_word (trim_left s))) (trim_left s)))"
  by pat_completeness auto
termination
  by (relation "measure length") (use take_word_progress in auto)

declare text_fields.simps [simp del]

text \<open>Two visible words with a space between them.\<close>

lemma leading_space_blank: "leading_space (CHR '' '' # s) = Some '' ''"
proof -
  have c: "byte_char 9 \<noteq> CHR '' ''" "byte_char 10 \<noteq> CHR '' ''" "byte_char 11 \<noteq> CHR '' ''"
    "byte_char 12 \<noteq> CHR '' ''" "byte_char 13 \<noteq> CHR '' ''" "byte_char 32 = CHR '' ''" by code_simp+
  define rest where "rest = drop 6 space_runes"
  have runes: "space_runes = [[byte_char 9], [byte_char 10], [byte_char 11], [byte_char 12], [byte_char 13],
      [byte_char 32]] @ rest"
    by (simp add: rest_def space_runes_def)
  show ?thesis unfolding leading_space_def runes by (simp add: c)
qed

lemma trim_left_visible: "visible c \<Longrightarrow> trim_left (c # s) = c # s"
  by (subst trim_left.simps) (simp add: visible_no_leading_space)

lemma take_word_visible:
  "list_all visible w \<Longrightarrow> take_word (w @ s) = w @ take_word s"
  by (induction w) (simp_all add: visible_no_leading_space)

lemma two_fields:
  assumes "list_all visible a" and "a \<noteq> []" and "list_all visible b" and "b \<noteq> []"
  shows "text_fields (a @ CHR '' '' # b) = [a, b]"
proof -
  have nil: "text_fields [] = []" by (subst text_fields.simps) simp
  have trim: "trim_left (w @ s) = w @ s" if "list_all visible w" "w \<noteq> []" for w s
    using that by (cases w) (simp_all add: trim_left_visible)
  have word: "take_word b = b" using take_word_visible [OF assms(3), of "[]"] by simp
  have "trim_left (CHR '' '' # b) = b"
    using trim [OF assms(3,4), of "[]"] by (subst trim_left.simps) (simp add: leading_space_blank)
  then have "text_fields (CHR '' '' # b) = [b]"
    using assms(4) word nil by (subst text_fields.simps) simp
  moreover have "take_word (a @ CHR '' '' # b) = a"
    using take_word_visible [OF assms(1), of "CHR '' '' # b"] by (simp add: leading_space_blank)
  ultimately show ?thesis
    using assms(2) trim [OF assms(1,2), of "CHR '' '' # b"] by (subst text_fields.simps) simp
qed

end
