(* ===== verification/Http.thy ===== *)
theory Http
  imports Worker StoreRead GoText
begin

text \<open>
  \<^verbatim>\<open>internal/controller/http.go\<close>: the routes and handlers, over the services as an
  argument, and the texts of what they read and write: bodies, limits, ledger cursors. A request
  reaches a handler with the client identity the middleware of theory \<open>Oidc\<close> put into its
  context, if any. \<^verbatim>\<open>net/http\<close> cleans paths before it matches them; a path is the list of
  its unescaped segments. Logging is left out.
\<close>

section \<open>Requests and responses\<close>

record http_request =
  rq_method :: string
  rq_path :: string
  rq_segments :: "string list"
  rq_authorization :: string
  rq_key :: string
  rq_limit :: string
  rq_cursor :: string
  rq_body :: string

datatype body = NoBody | JsonBody json | TextBody string

record http_response =
  rs_status :: nat
  rs_body :: body

text \<open>
  \<^verbatim>\<open>writeJSON\<close> has sent the status when encoding fails; the body then stays empty.
\<close>

definition write_json :: "nat \<Rightarrow> err + json \<Rightarrow> http_response" where
  "write_json status v =
     \<lparr>rs_status = status, rs_body = (case v of Inl _ \<Rightarrow> NoBody | Inr j \<Rightarrow> JsonBody j)\<rparr>"

definition write_error :: "nat \<Rightarrow> string \<Rightarrow> http_response" where
  "write_error status c = write_json status (Inr (json_map [(''code'', JStr c)]))"

definition write_usecase_error :: "err \<Rightarrow> 's world \<Rightarrow> http_response \<times> 's world" where
  "write_usecase_error e w =
     (if e = ErrInvalidInput \<or> e = ErrInvalidWallet \<or> e = ErrInvalidMoney
      then (write_error 400 ''INVALID_INPUT'', w)
      else if e = ErrConflict
      then (write_error 409 ''CONFLICT'', count_metric ''apostas_concurrency_conflicts_total'' w)
      else if e = ErrNotFound then (write_error 404 ''NOT_FOUND'', w)
      else (write_error 503 ''TEMPORARY_UNAVAILABLE'', w))"

section \<open>Values as JSON\<close>

text \<open>\<^verbatim>\<open>Time.MarshalJSON\<close> refuses years outside 0 to 9999.\<close>

definition time_json :: "texts \<Rightarrow> time \<Rightarrow> err + json" where
  "time_json x t =
     (if - 31622400 * 1000000000 \<le> t \<and> t < 315537897600 * 1000000000
      then Inr (JStr (time_text x t))
      else Inl (ErrText ''year outside of range [0,9999]''))"

definition wallet_response :: "texts \<Rightarrow> (string \<Rightarrow> bool) \<Rightarrow> wallet \<Rightarrow> err + json" where
  "wallet_response x known w =
     rbind (money_json known (w_balance w)) (\<lambda>b.
       Inr (json_map [(''id'', JStr (uuid_text x (w_id w))), (''playerId'', JStr (uuid_text x (w_player w))),
         (''balance'', b), (''version'', JNum (int_text (sint (w_version w))))]))"

definition result_json :: "texts \<Rightarrow> (string \<Rightarrow> bool) \<Rightarrow> result \<Rightarrow> err + json" where
  "result_json x known r =
     rbind (money_json known (r_balance r)) (\<lambda>b.
       Inr (JObj ([(''transactionId'', JStr (uuid_text x (r_transaction r))),
         (''status'', JStr (status_text (r_status r))), (''balance'', b)] @
         omit_empty ''failureCode'' (r_failure r) @
         [(''idempotentReplay'', JBool (r_replay r))])))"

definition ledger_entry_json :: "texts \<Rightarrow> (string \<Rightarrow> bool) \<Rightarrow> ledger_view \<Rightarrow> err + json" where
  "ledger_entry_json x known v =
     rbind (money_json known (lv_money v)) (\<lambda>m.
     rbind (money_json known (lv_before v)) (\<lambda>b.
     rbind (money_json known (lv_after v)) (\<lambda>a.
     rbind (time_json x (lv_created v)) (\<lambda>t.
       Inr (JObj [(''id'', JStr (uuid_text x (lv_id v))), (''walletId'', JStr (uuid_text x (lv_wallet v))),
         (''transactionId'', JStr (uuid_text x (lv_transaction v))),
         (''direction'', JStr (direction_text (lv_direction v))), (''money'', m),
         (''balanceBefore'', b), (''balanceAfter'', a), (''createdAt'', t)])))))"

definition transaction_json :: "texts \<Rightarrow> (string \<Rightarrow> bool) \<Rightarrow> transaction_view \<Rightarrow> err + json" where
  "transaction_json x known v =
     rbind (money_json known (v_money v)) (\<lambda>m.
     rbind (case v_result v of None \<Rightarrow> Inr [] | Some b \<Rightarrow>
              rbind (money_json known b) (\<lambda>j. Inr [(''resultBalance'', j)])) (\<lambda>b.
     rbind (time_json x (v_created v)) (\<lambda>created.
     rbind (time_json x (v_updated v)) (\<lambda>updated.
       Inr (JObj ([(''transactionId'', JStr (uuid_text x (v_id v)))] @
         omit_empty ''externalTransactionId'' (v_external v) @
         omit_empty ''providerId'' (v_provider v) @
         [(''walletId'', JStr (uuid_text x (v_wallet v))),
          (''playerId'', JStr (uuid_text x (v_player v)))] @
         omit_empty ''roundId'' (v_round v) @ omit_empty ''gameId'' (v_game v) @
         [(''kind'', JStr (kind_text (v_kind v))), (''money'', m)] @
         omit_empty ''referenceExternalTransactionId'' (v_ref_external v) @
         (case v_ref v of None \<Rightarrow> [] | Some u \<Rightarrow> [(''referenceTransactionId'', JStr (uuid_text x u))]) @
         [(''status'', JStr (status_text (v_status v)))] @
         omit_empty ''failureCode'' (v_failure v) @ b @
         [(''createdAt'', created), (''updatedAt'', updated)]))))))"

definition reconciliation_json :: "texts \<Rightarrow> (string \<Rightarrow> bool) \<Rightarrow> reconciliation \<Rightarrow> err + json" where
  "reconciliation_json x known r =
     rbind (money_json known (rc_stored r)) (\<lambda>s.
     rbind (money_json known (rc_calculated r)) (\<lambda>c.
     rbind (money_json known (rc_difference r)) (\<lambda>d.
       Inr (JObj [(''walletId'', JStr (uuid_text x (rc_wallet r))), (''storedBalance'', s),
         (''calculatedBalance'', c), (''difference'', d), (''consistent'', JBool (rc_consistent r)),
         (''checkedEntries'', JNum (int_text (int (rc_entries r))))]))))"

section \<open>Limits and cursors\<close>

definition ledger_limit :: "string \<Rightarrow> err + nat" where
  "ledger_limit s =
     (if s = [] then Inr 50
      else case parse_int64 s of
        (n, e) \<Rightarrow>
          if e \<noteq> None \<or> n <s 1 \<or> 100 <s n then Inl (ErrText ''invalid ledger limit'')
          else Inr (unat n))"

definition encode_cursor :: "texts \<Rightarrow> ledger_cursor \<Rightarrow> err + string" where
  "encode_cursor x c =
     rbind (time_json x (lc_created c)) (\<lambda>t.
       Inr (b64_encode (json_text (JObj [(''createdAt'', t), (''id'', JStr (uuid_text x (lc_id c)))]))))"

text \<open>
  An instant written with escapes, which \<^verbatim>\<open>Time.UnmarshalJSON\<close> refuses, is read here like
  the plain text.
\<close>

definition cursor_fields :: "parsers \<Rightarrow> ledger_cursor field list" where
  "cursor_fields y =
     [(''createdAt'', set_text (time_parse y) (\<lambda>t c. c\<lparr>lc_created := t\<rparr>)),
      (''id'', set_text (uuid_parse y) (\<lambda>u c. c\<lparr>lc_id := u\<rparr>))]"

definition decode_cursor :: "parsers \<Rightarrow> string \<Rightarrow> err + ledger_cursor option" where
  "decode_cursor y s =
     (if s = [] then Inr None
      else case b64_decode s of
        None \<Rightarrow> Inl (ErrText ''illegal base64 data'')
      | Some payload \<Rightarrow>
          (case unmarshal (cursor_fields y) \<lparr>lc_created = time_zero, lc_id = uuid_nil\<rparr> payload of
             None \<Rightarrow> Inl (ErrText ''invalid ledger cursor'')
           | Some c \<Rightarrow>
               if lc_created c = time_zero \<or> lc_id c = uuid_nil
               then Inl (ErrText ''invalid ledger cursor'')
               else Inr (Some c)))"

section \<open>Handlers\<close>

text \<open>The services and the pool, over the state they share.\<close>

record 's services =
  sv_ping :: "'s \<Rightarrow> err option"
  sv_open :: "uuid \<Rightarrow> money \<Rightarrow> 's \<Rightarrow> (err + wallet) \<times> 's"
  sv_get :: "uuid \<Rightarrow> 's \<Rightarrow> err + wallet"
  sv_process :: "operation \<Rightarrow> 's \<Rightarrow> (err + result) \<times> 's"
  sv_ledger :: "uuid \<Rightarrow> ledger_cursor option \<Rightarrow> nat \<Rightarrow> 's \<Rightarrow> err + ledger_page"
  sv_transaction :: "uuid \<Rightarrow> 's \<Rightarrow> err + transaction_view"
  sv_transaction_for_provider :: "uuid \<Rightarrow> string \<Rightarrow> 's \<Rightarrow> err + transaction_view"
  sv_transaction_by_external :: "string \<Rightarrow> string \<Rightarrow> 's \<Rightarrow> err + transaction_view"
  sv_reconcile :: "uuid \<Rightarrow> 's \<Rightarrow> err + reconciliation"

text \<open>What the texts and the queue client of the process are.\<close>

record surface =
  sf_texts :: texts
  sf_parsers :: parsers
  sf_known :: "string \<Rightarrow> bool"
  sf_client :: client

definition wallet_service :: string where
  "wallet_service = ''wallet-service''"

definition internal :: "string option \<Rightarrow> bool" where
  "internal caller \<longleftrightarrow> caller = Some wallet_service"

definition can_read_transaction :: "string option \<Rightarrow> string \<Rightarrow> bool" where
  "can_read_transaction caller provider \<longleftrightarrow>
     internal caller \<or> caller \<noteq> None \<and> provider \<noteq> [] \<and> caller = Some provider"

definition open_fields :: "parsers \<Rightarrow> (string \<Rightarrow> bool) \<Rightarrow> (uuid \<times> money) field list" where
  "open_fields y known =
     [(''playerId'', set_text (uuid_parse y) (\<lambda>u b. (u, snd b))),
      (''initialBalance'', set_custom (money_of_json known) (\<lambda>m b. (fst b, m)))]"

definition handle_open_wallet ::
    "surface \<Rightarrow> 's services \<Rightarrow> string option \<Rightarrow> http_request \<Rightarrow> 's world \<Rightarrow> http_response \<times> 's world" where
  "handle_open_wallet sf sv caller rq w =
     (if \<not> internal caller then (write_error 403 ''FORBIDDEN'', w)
      else case decode_body (open_fields (sf_parsers sf) (sf_known sf)) (uuid_nil, no_money) (rq_body rq) of
        None \<Rightarrow> (write_error 400 ''INVALID_INPUT'', w)
      | Some (player, balance) \<Rightarrow>
          (case on_store (sv_open sv player balance) w of
             (Inl e, w') \<Rightarrow> write_usecase_error e w'
           | (Inr v, w') \<Rightarrow> (write_json 201 (wallet_response (sf_texts sf) (sf_known sf) v), w')))"

definition handle_get_wallet ::
    "surface \<Rightarrow> 's services \<Rightarrow> string option \<Rightarrow> string \<Rightarrow> 's world \<Rightarrow> http_response \<times> 's world" where
  "handle_get_wallet sf sv caller wid w =
     (if \<not> internal caller then (write_error 403 ''FORBIDDEN'', w)
      else case uuid_parse (sf_parsers sf) wid of
        None \<Rightarrow> (write_error 400 ''INVALID_INPUT'', w)
      | Some u \<Rightarrow>
          (case sv_get sv u (ws_store w) of
             Inl e \<Rightarrow> write_usecase_error e w
           | Inr v \<Rightarrow> (write_json 200 (wallet_response (sf_texts sf) (sf_known sf) v), w)))"

definition handle_process_wager ::
    "surface \<Rightarrow> 's services \<Rightarrow> string option \<Rightarrow> http_request \<Rightarrow> 's world \<Rightarrow> http_response \<times> 's world" where
  "handle_process_wager sf sv caller rq w =
     (case caller of
        None \<Rightarrow> (write_error 401 ''UNAUTHORIZED'', w)
      | Some c \<Rightarrow>
          (case decode_body (operation_fields (sf_parsers sf) (sf_known sf)) zero_operation (rq_body rq) of
             None \<Rightarrow> (write_error 400 ''INVALID_INPUT'', w)
           | Some p \<Rightarrow>
               if c \<noteq> op_provider p \<or> c = wallet_service then (write_error 403 ''FORBIDDEN'', w)
               else (case on_store (sv_process sv (p\<lparr>op_key := trim_space (rq_key rq)\<rparr>)) w of
                  (Inl e, w') \<Rightarrow> write_usecase_error e w'
                | (Inr r, w') \<Rightarrow>
                    let status = (if r_status r = Rejected then 422
                                  else if r_status r = PendingReference then 202 else 200);
                        w1 = count_metric (results_metric (status_text (r_status r))) w';
                        w2 = (if r_replay r then count_metric ''apostas_wager_duplicates_total'' w1 else w1)
                    in (write_json status (result_json (sf_texts sf) (sf_known sf) r), w2))))"

fun json_list :: "('v \<Rightarrow> err + json) \<Rightarrow> 'v list \<Rightarrow> err + json list" where
  "json_list f [] = Inr []"
| "json_list f (v # vs) = rbind (f v) (\<lambda>j. rbind (json_list f vs) (\<lambda>js. Inr (j # js)))"

definition handle_get_ledger ::
    "surface \<Rightarrow> 's services \<Rightarrow> string option \<Rightarrow> string \<Rightarrow> http_request \<Rightarrow> 's world \<Rightarrow>
     http_response \<times> 's world" where
  "handle_get_ledger sf sv caller wid rq w =
     (if \<not> internal caller then (write_error 403 ''FORBIDDEN'', w)
      else case uuid_parse (sf_parsers sf) wid of
        None \<Rightarrow> (write_error 400 ''INVALID_INPUT'', w)
      | Some u \<Rightarrow>
      (case ledger_limit (rq_limit rq) of
        Inl _ \<Rightarrow> (write_error 400 ''INVALID_INPUT'', w)
      | Inr limit \<Rightarrow>
      (case decode_cursor (sf_parsers sf) (rq_cursor rq) of
        Inl _ \<Rightarrow> (write_error 400 ''INVALID_INPUT'', w)
      | Inr cursor \<Rightarrow>
      (case sv_ledger sv u cursor limit (ws_store w) of
        Inl e \<Rightarrow> write_usecase_error e w
      | Inr page \<Rightarrow>
      (case (case lp_next page of None \<Rightarrow> Inr []
             | Some c \<Rightarrow> rbind (encode_cursor (sf_texts sf) c) (\<lambda>t. Inr [(''nextCursor'', JStr t)])) of
        Inl _ \<Rightarrow> (write_error 503 ''TEMPORARY_UNAVAILABLE'', w)
      | Inr next \<Rightarrow>
          (write_json 200
             (rbind (json_list (ledger_entry_json (sf_texts sf) (sf_known sf)) (lp_entries page))
                (\<lambda>js. Inr (JObj ((''entries'', JArr js) # next)))), w))))))"

definition handle_get_transaction ::
    "surface \<Rightarrow> 's services \<Rightarrow> string option \<Rightarrow> string \<Rightarrow> 's world \<Rightarrow> http_response \<times> 's world" where
  "handle_get_transaction sf sv caller tid w =
     (case uuid_parse (sf_parsers sf) tid of
        None \<Rightarrow> (write_error 400 ''INVALID_INPUT'', w)
      | Some u \<Rightarrow>
          (case (if internal caller then Some (sv_transaction sv u (ws_store w))
                 else case caller of
                   None \<Rightarrow> None
                 | Some c \<Rightarrow> if c = wallet_service then None
                             else Some (sv_transaction_for_provider sv u c (ws_store w))) of
             None \<Rightarrow> (write_error 403 ''FORBIDDEN'', w)
           | Some (Inl e) \<Rightarrow> write_usecase_error e w
           | Some (Inr t) \<Rightarrow> (write_json 200 (transaction_json (sf_texts sf) (sf_known sf) t), w)))"

definition handle_get_provider_transaction ::
    "surface \<Rightarrow> 's services \<Rightarrow> string option \<Rightarrow> string \<Rightarrow> string \<Rightarrow> 's world \<Rightarrow>
     http_response \<times> 's world" where
  "handle_get_provider_transaction sf sv caller provider external w =
     (if \<not> can_read_transaction caller provider then (write_error 403 ''FORBIDDEN'', w)
      else case sv_transaction_by_external sv provider external (ws_store w) of
        Inl e \<Rightarrow> write_usecase_error e w
      | Inr t \<Rightarrow> (write_json 200 (transaction_json (sf_texts sf) (sf_known sf) t), w))"

definition handle_reconcile ::
    "surface \<Rightarrow> 's services \<Rightarrow> string option \<Rightarrow> string \<Rightarrow> 's world \<Rightarrow> http_response \<times> 's world" where
  "handle_reconcile sf sv caller wid w =
     (if \<not> internal caller then (write_error 403 ''FORBIDDEN'', w)
      else case uuid_parse (sf_parsers sf) wid of
        None \<Rightarrow> (write_error 400 ''INVALID_INPUT'', w)
      | Some u \<Rightarrow>
          (case sv_reconcile sv u (ws_store w) of
             Inl e \<Rightarrow> write_usecase_error e w
           | Inr r \<Rightarrow>
               (write_json 200 (reconciliation_json (sf_texts sf) (sf_known sf) r),
                if rc_consistent r then w
                else count_metric ''apostas_reconciliation_divergences_total'' w)))"

definition handle_metrics :: "string option \<Rightarrow> 's world \<Rightarrow> http_response \<times> 's world" where
  "handle_metrics caller w =
     (if \<not> internal caller then (write_error 403 ''FORBIDDEN'', w)
      else (\<lparr>rs_status = 200, rs_body = TextBody
              (snd (write_prometheus (ws_metrics w) (\<lambda>t b. (None, b @ t)) []))\<rparr>, w))"

definition handle_ready :: "surface \<Rightarrow> 's services \<Rightarrow> 's world \<Rightarrow> http_response \<times> 's world" where
  "handle_ready sf sv w =
     (case sv_ping sv (ws_store w) of
        Some e \<Rightarrow> (write_error 503 ''DATABASE_UNAVAILABLE'', w)
      | None \<Rightarrow>
          (case on_queue (queue_ready (sf_client sf)) w of
             (Some e, w') \<Rightarrow> (write_error 503 ''SQS_UNAVAILABLE'', w')
           | (None, w') \<Rightarrow> (write_json 200 (Inr (json_map [(''status'', JStr ''ready'')])), w')))"

definition handle_live :: http_response where
  "handle_live = write_json 200 (Inr (json_map [(''status'', JStr ''live'')]))"

section \<open>Routes\<close>

datatype route =
    Live | Metrics | Ready
  | OpenWallet | GetWallet string | GetLedger string | ReconcileWallet string
  | ProcessWager | GetTransaction string | GetProviderTransaction string string

text \<open>A wildcard stands for a segment that is not empty, as after a trailing slash.\<close>

definition post_routes :: "string list \<Rightarrow> route option" where
  "post_routes path =
     (if [] \<in> set path then None
      else if path = [''wallets''] then Some OpenWallet
      else if path = [''wagering'', ''transactions''] then Some ProcessWager
      else case path of
        [a, wid, b] \<Rightarrow> if a = ''wallets'' \<and> b = ''reconciliation'' then Some (ReconcileWallet wid) else None
      | _ \<Rightarrow> None)"

definition get_routes :: "string list \<Rightarrow> route option" where
  "get_routes path =
     (if [] \<in> set path then None
      else if path = [''health'', ''live''] then Some Live
      else if path = [''metrics''] then Some Metrics
      else if path = [''health'', ''ready''] then Some Ready
      else case path of
        [a, wid] \<Rightarrow> if a = ''wallets'' then Some (GetWallet wid) else None
      | [a, u, b] \<Rightarrow>
          if a = ''wallets'' \<and> b = ''ledger'' then Some (GetLedger u)
          else if a = ''wagering'' \<and> u = ''transactions'' then Some (GetTransaction b)
          else None
      | [a, provider, b, c, external] \<Rightarrow>
          if a = ''providers'' \<and> b = ''wagering'' \<and> c = ''transactions''
          then Some (GetProviderTransaction provider external) else None
      | _ \<Rightarrow> None)"

text \<open>A pattern for GET matches HEAD too.\<close>

definition find_route :: "http_request \<Rightarrow> route option" where
  "find_route rq =
     (if rq_method rq = ''GET'' \<or> rq_method rq = ''HEAD'' then get_routes (rq_segments rq)
      else if rq_method rq = ''POST'' then post_routes (rq_segments rq)
      else None)"

fun run_route ::
    "surface \<Rightarrow> 's services \<Rightarrow> string option \<Rightarrow> http_request \<Rightarrow> 's world \<Rightarrow> route \<Rightarrow>
     http_response \<times> 's world" where
  "run_route sf sv p rq w Live = (handle_live, w)"
| "run_route sf sv p rq w Metrics = handle_metrics p w"
| "run_route sf sv p rq w Ready = handle_ready sf sv w"
| "run_route sf sv p rq w OpenWallet = handle_open_wallet sf sv p rq w"
| "run_route sf sv p rq w (GetWallet wid) = handle_get_wallet sf sv p wid w"
| "run_route sf sv p rq w (GetLedger wid) = handle_get_ledger sf sv p wid rq w"
| "run_route sf sv p rq w (ReconcileWallet wid) = handle_reconcile sf sv p wid w"
| "run_route sf sv p rq w ProcessWager = handle_process_wager sf sv p rq w"
| "run_route sf sv p rq w (GetTransaction tid) = handle_get_transaction sf sv p tid w"
| "run_route sf sv p rq w (GetProviderTransaction provider external) =
     handle_get_provider_transaction sf sv p provider external w"

definition serve_route ::
    "surface \<Rightarrow> 's services \<Rightarrow> string option \<Rightarrow> http_request \<Rightarrow> 's world \<Rightarrow> http_response \<times> 's world" where
  "serve_route sf sv caller rq w =
     (case find_route rq of
        Some rt \<Rightarrow> run_route sf sv caller rq w rt
      | None \<Rightarrow>
          (if get_routes (rq_segments rq) \<noteq> None \<or> post_routes (rq_segments rq) \<noteq> None
           then \<lparr>rs_status = 405, rs_body = TextBody (''Method Not Allowed'' @ [byte_char 10])\<rparr>
           else \<lparr>rs_status = 404, rs_body = TextBody (''404 page not found'' @ [byte_char 10])\<rparr>, w))"

end
