(* ===== verification/Config.thy ===== *)
theory Config
  imports Prelude
begin

text \<open>
  \<^verbatim>\<open>internal/infra/config/config.go\<close>: the configuration of the process.
  \<open>getenv\<close> is \<^verbatim>\<open>os.Getenv\<close> (the empty text when a variable is not set) and
  \<open>parse_duration\<close> is \<^verbatim>\<open>time.ParseDuration\<close>, whose fractions are computed in floating
  point; both are arguments.
\<close>

record config =
  cf_addr :: string
  cf_database :: string
  cf_issuer :: string
  cf_jwks :: string
  cf_audience :: string
  cf_shutdown :: int64
  cf_region :: string
  cf_endpoint :: string
  cf_access_key :: string
  cf_secret_key :: string
  cf_input :: string
  cf_output :: string
  cf_dlq :: string

definition load_config ::
    "(string \<Rightarrow> string) \<Rightarrow> (string \<Rightarrow> int64 option) \<Rightarrow> err + config" where
  "load_config getenv parse_duration =
     (let c = \<lparr>cf_addr = getenv ''APP_ADDR'', cf_database = getenv ''DATABASE_URL'',
               cf_issuer = getenv ''OIDC_ISSUER_URL'', cf_jwks = getenv ''OIDC_JWKS_URL'',
               cf_audience = getenv ''OIDC_AUDIENCE'', cf_shutdown = 0,
               cf_region = getenv ''AWS_REGION'', cf_endpoint = getenv ''AWS_ENDPOINT_URL'',
               cf_access_key = getenv ''AWS_ACCESS_KEY_ID'',
               cf_secret_key = getenv ''AWS_SECRET_ACCESS_KEY'',
               cf_input = getenv ''AWS_SQS_INPUT_QUEUE_URL'',
               cf_output = getenv ''AWS_SQS_OUTPUT_QUEUE_URL'', cf_dlq = getenv ''AWS_SQS_DLQ_URL''\<rparr>
      in if cf_addr c = [] \<or> cf_database c = [] \<or> cf_issuer c = [] \<or> cf_jwks c = [] \<or>
            cf_audience c = [] \<or> cf_region c = [] \<or> cf_input c = [] \<or> cf_output c = [] \<or> cf_dlq c = []
         then Inl (ErrText ''missing required configuration'')
         else if (cf_access_key c = []) \<noteq> (cf_secret_key c = [])
         then Inl (ErrText ''AWS credentials must be supplied together'')
         else case parse_duration (getenv ''APP_SHUTDOWN_TIMEOUT'') of
           None \<Rightarrow> Inl (ErrText ''invalid APP_SHUTDOWN_TIMEOUT'')
         | Some d \<Rightarrow>
             if d \<le>s 0 then Inl (ErrText ''invalid APP_SHUTDOWN_TIMEOUT'')
             else Inr (c\<lparr>cf_shutdown := d\<rparr>))"

text \<open>What a configuration that was loaded promises to the parts it is handed to.\<close>

lemma load_config_complete:
  assumes "load_config getenv parse_duration = Inr c"
  shows "\<forall>s\<in>{cf_addr c, cf_database c, cf_issuer c, cf_jwks c, cf_audience c, cf_region c, cf_input c,
      cf_output c, cf_dlq c}. s \<noteq> []"
    and "cf_access_key c = [] \<longleftrightarrow> cf_secret_key c = []" and "0 < sint (cf_shutdown c)"
  using assms by (auto simp: load_config_def Let_def go_int split: if_splits option.splits)

end
