(* ===== verification/Oidc.thy ===== *)
theory Oidc
  imports Http Config
begin

text \<open>
  \<^verbatim>\<open>internal/infra/oidc/auth.go\<close>: the middleware every request passes, and the choice of
  the key a token is verified with. \<open>verify\<close> is \<^verbatim>\<open>jwt.ParseWithClaims\<close> of
  \<^verbatim>\<open>golang-jwt\<close> with the issuer, the audience and a required expiry: it is given the
  function that finds the key for a token's header, and answers whether the token is valid and its
  claims. \<open>fetch\<close> is what the key server answers to a GET at the time: status and body.
\<close>

section \<open>Keys\<close>

record jwk =
  jk_kid :: string
  jk_kty :: string
  jk_n :: string
  jk_e :: string

record rsa_key =
  rk_n :: nat
  rk_e :: nat

definition jwk_fields :: "jwk field list" where
  "jwk_fields =
     [(''kid'', set_string (\<lambda>s k. k\<lparr>jk_kid := s\<rparr>)), (''kty'', set_string (\<lambda>s k. k\<lparr>jk_kty := s\<rparr>)),
      (''n'', set_string (\<lambda>s k. k\<lparr>jk_n := s\<rparr>)), (''e'', set_string (\<lambda>s k. k\<lparr>jk_e := s\<rparr>))]"

text \<open>A field that is a slice: \<^verbatim>\<open>null\<close> empties it, each element is decoded on its own.\<close>

fun decode_elements :: "(json \<Rightarrow> err + 'v) \<Rightarrow> json list \<Rightarrow> err + 'v list" where
  "decode_elements f [] = Inr []"
| "decode_elements f (v # vs) = rbind (f v) (\<lambda>x. rbind (decode_elements f vs) (\<lambda>xs. Inr (x # xs)))"

definition set_slice :: "(json \<Rightarrow> err + 'v) \<Rightarrow> json \<Rightarrow> 'v list \<Rightarrow> err + 'v list" where
  "set_slice f v r =
     (case v of
        JArr vs \<Rightarrow> decode_elements f vs
      | JNull \<Rightarrow> Inr []
      | _ \<Rightarrow> Inl (ErrText ''cannot unmarshal into slice''))"

text \<open>\<^verbatim>\<open>Decoder.Decode\<close>: the first value of the body, whatever follows it.\<close>

definition decode_first :: "'r field list \<Rightarrow> 'r \<Rightarrow> string \<Rightarrow> err + 'r" where
  "decode_first fs zero body =
     (case parse_value max_nesting body of
        None \<Rightarrow> Inl (ErrText ''invalid JSON'')
      | Some (v, rest) \<Rightarrow> decode_struct False fs v zero)"

definition jwks_fields :: "jwk list field list" where
  "jwks_fields =
     [(''keys'', set_slice (\<lambda>v. decode_struct False jwk_fields v
        \<lparr>jk_kid = [], jk_kty = [], jk_n = [], jk_e = []\<rparr>))]"

text \<open>\<^verbatim>\<open>big.Int.SetBytes\<close>.\<close>

definition big_endian :: "string \<Rightarrow> nat" where
  "big_endian s = foldl (\<lambda>n c. n * 256 + code c) 0 s"

definition rsa_public_key :: "jwk \<Rightarrow> err + rsa_key" where
  "rsa_public_key k =
     (case b64_decode (jk_n k) of
        None \<Rightarrow> Inl (ErrText ''illegal base64 data'')
      | Some n \<Rightarrow>
          (case b64_decode (jk_e k) of
             None \<Rightarrow> Inl (ErrText ''illegal base64 data'')
           | Some e \<Rightarrow>
               if \<not> big_endian e < 2 ^ 63 \<or> big_endian e < 3 \<or> 2 ^ 31 - 1 < big_endian e
               then Inl (ErrText ''invalid exponent'')
               else Inr \<lparr>rk_n = big_endian n, rk_e = big_endian e\<rparr>))"

fun select_key :: "string \<Rightarrow> jwk list \<Rightarrow> err + rsa_key" where
  "select_key kid [] = Inl (ErrText ''signing key not found'')"
| "select_key kid (k # ks) =
     (if jk_kid k \<noteq> kid \<or> jk_kty k \<noteq> ''RSA'' then select_key kid ks else rsa_public_key k)"

definition auth_key :: "err + nat \<times> string \<Rightarrow> string \<Rightarrow> err + rsa_key" where
  "auth_key fetch kid =
     rbind fetch (\<lambda>(status, body).
       if status \<noteq> 200 then Inl (ErrText ''JWKS unavailable'')
       else rbind (decode_first jwks_fields [] body) (select_key kid))"

definition auth_ready :: "err + nat \<times> string \<Rightarrow> err option" where
  "auth_ready fetch =
     (case rbind fetch (\<lambda>(status, body).
             if status \<noteq> 200 then Inl (ErrText ''OIDC JWKS unavailable'')
             else rbind (decode_first [(''keys'', set_slice Inr)] [] body) (\<lambda>ks.
               if ks = [] then Inl (ErrText ''OIDC JWKS has no keys'') else Inr ())) of
        Inl e \<Rightarrow> Some e
      | Inr _ \<Rightarrow> None)"

section \<open>Middleware\<close>

record jwt_header =
  jh_alg :: string
  jh_kid :: "json option"

type_synonym verifier =
  "(jwt_header \<Rightarrow> err + rsa_key) \<Rightarrow> string \<Rightarrow> string \<Rightarrow> string \<Rightarrow> err + bool \<times> (string \<Rightarrow> json option)"

definition key_for :: "err + nat \<times> string \<Rightarrow> jwt_header \<Rightarrow> err + rsa_key" where
  "key_for fetch hdr =
     (if jh_alg hdr \<noteq> ''RS256'' then Inl (ErrText ''unsupported signing algorithm'')
      else case jh_kid hdr of
        Some (JStr kid) \<Rightarrow> auth_key fetch kid
      | _ \<Rightarrow> Inl (ErrText ''missing key ID''))"

definition http_error :: "string \<Rightarrow> nat \<Rightarrow> http_response" where
  "http_error t status = \<lparr>rs_status = status, rs_body = TextBody (t @ [byte_char 10])\<rparr>"

text \<open>
  Who a request comes from: \<open>Inr None\<close> for a health check, which needs no token, \<open>Inl\<close> the
  refusal. \<^verbatim>\<open>EqualFold\<close> with \<^verbatim>\<open>Bearer\<close> is equality up to ASCII case.
\<close>

definition authenticate ::
    "config \<Rightarrow> err + nat \<times> string \<Rightarrow> verifier \<Rightarrow> http_request \<Rightarrow> http_response + string option" where
  "authenticate cf fetch verify rq =
     (if starts_with ''/health/'' (rq_path rq) then Inr None
      else case text_fields (rq_authorization rq) of
        [scheme, token] \<Rightarrow>
          if map lower_char scheme \<noteq> ''bearer'' then Inl (http_error ''missing bearer token'' 401)
          else (case verify (key_for fetch) (cf_issuer cf) (cf_audience cf) token of
             Inl _ \<Rightarrow> Inl (http_error ''invalid bearer token'' 401)
           | Inr (valid, claims) \<Rightarrow>
               if \<not> valid then Inl (http_error ''invalid bearer token'' 401)
               else case claims ''azp'' of
                 Some (JStr c) \<Rightarrow>
                   if c = [] then Inl (http_error ''missing client identity'' 401) else Inr (Some c)
               | _ \<Rightarrow> Inl (http_error ''missing client identity'' 401))
      | _ \<Rightarrow> Inl (http_error ''missing bearer token'' 401))"

definition auth_middleware ::
    "config \<Rightarrow> err + nat \<times> string \<Rightarrow> verifier \<Rightarrow>
     (string option \<Rightarrow> http_request \<Rightarrow> 's world \<Rightarrow> http_response \<times> 's world) \<Rightarrow>
     http_request \<Rightarrow> 's world \<Rightarrow> http_response \<times> 's world" where
  "auth_middleware cf fetch verify next rq w =
     (case authenticate cf fetch verify rq of
        Inl refusal \<Rightarrow> (refusal, w)
      | Inr caller \<Rightarrow> next caller rq w)"

text \<open>The handler of the server, \<^verbatim>\<open>auth.Middleware(handler.Routes())\<close>.\<close>

definition serve ::
    "config \<Rightarrow> err + nat \<times> string \<Rightarrow> verifier \<Rightarrow> surface \<Rightarrow> 's services \<Rightarrow> http_request \<Rightarrow> 's world \<Rightarrow>
     http_response \<times> 's world" where
  "serve cf fetch verify sf sv = auth_middleware cf fetch verify (serve_route sf sv)"

text \<open>
  \<^verbatim>\<open>OnStart\<close> of the server: it listens once the key server answers. Each round says
  what the key server answers, whether the context is done then, and whether it ends during the
  second of waiting; \<open>listen\<close> is the error of \<^verbatim>\<open>net.Listen\<close>, if any.
\<close>

fun start_http ::
    "((err + nat \<times> string) \<times> bool \<times> err option) list \<Rightarrow> err option \<Rightarrow> (err + unit) option" where
  "start_http [] listen = None"
| "start_http ((fetch, finished, waiting) # rds) listen =
     (case auth_ready fetch of
        None \<Rightarrow> Some (case listen of None \<Rightarrow> Inr () | Some e \<Rightarrow> Inl e)
      | Some e \<Rightarrow>
          if finished then Some (Inl e)
          else case waiting of
            Some e' \<Rightarrow> Some (Inl e')
          | None \<Rightarrow> start_http rds listen)"

end
