(* ===== verification/Effects.thy ===== *)
theory Effects
  imports Posting
begin

text \<open>
  What the statements of a writer do to the tables when they succeed: the row a statement
  leaves, the keys it did not clash with, the events it deferred. The proofs about whole
  operations use these equations instead of unfolding the statements again.
\<close>

section \<open>Events\<close>

definition emit :: "db \<Rightarrow> outbox_row list \<Rightarrow> db" where
  "emit d os = d\<lparr>db_outbox := db_outbox d @ os\<rparr>"

lemma emit_simps [simp]:
  "db_wallets (emit d os) = db_wallets d" "db_wagers (emit d os) = db_wagers d"
  "db_ledger (emit d os) = db_ledger d" "db_inbox (emit d os) = db_inbox d"
  "db_outbox (emit d os) = db_outbox d @ os" "emit d [] = d"
  "emit (emit d os) os' = emit d (os @ os')"
  by (simp_all add: emit_def)

lemma integrity_emit:
  "integrity pf d \<Longrightarrow> clash_free outbox_clash (db_outbox d @ os) \<Longrightarrow> integrity pf (emit d os)"
  using integrity_boxes [of pf d "db_outbox d @ os" "db_inbox d"]
  by (simp add: emit_def integrity_def keys_ok_def)

text \<open>A row of the outbox as it is inserted.\<close>

definition queued :: "env \<Rightarrow> uuid \<Rightarrow> string \<Rightarrow> outbox_row \<Rightarrow> bool" where
  "queued en wid ty ob \<longleftrightarrow>
     o_aggregate ob = wid \<and> o_type ob = ty \<and> o_occurred ob = en_dbnow en \<and> o_next ob = en_dbnow en \<and>
     o_attempts ob = 0 \<and> o_published ob = None \<and> o_claimed ob = None"

lemma add_event_Inr:
  assumes "add_event pf en e t = Inr (u, t')" and "clash_free outbox_clash (db_outbox (tx_db t))"
  shows "\<exists>ob. clash_free outbox_clash (db_outbox (tx_db t) @ [ob]) \<and>
    queued en (ev_aggregate e) (ev_type e) ob \<and> o_payload ob = pf_jsonb pf (ev_payload e) \<and>
    t' = \<lparr>tx_db = emit (tx_db t) [ob], tx_deferred = tx_deferred t\<rparr>"
  using assms unfolding add_event_def tx_run_Inr insert_outbox_row_def
  by (intro exI [of _ "\<lparr>o_id = ev_id e, o_aggregate = ev_aggregate e, o_type = ev_type e,
        o_payload = pf_jsonb pf (ev_payload e), o_occurred = en_dbnow en, o_attempts = 0,
        o_next = en_dbnow en, o_published = None, o_claimed = None\<rparr>"])
     (auto simp: outbox_clash_def list_ex_iff clash_free_append queued_def emit_def
       split: if_splits)

definition wager_event_types :: "status \<Rightarrow> string list" where
  "wager_event_types st =
     (case st of
        Processed \<Rightarrow> [''WagerTransactionProcessed'']
      | Rejected \<Rightarrow> [''WagerTransactionRejected'']
      | PendingReference \<Rightarrow> [''WagerTransactionPendingReference'']
      | _ \<Rightarrow> [])"

definition event_types :: "decision \<Rightarrow> string list" where
  "event_types dn =
     (if d_direction dn = no_direction then [] else [''WalletBalanceChanged'']) @
     wager_event_types (d_status dn)"

definition queued_all :: "env \<Rightarrow> uuid \<Rightarrow> string list \<Rightarrow> outbox_row list \<Rightarrow> bool" where
  "queued_all en wid tys os \<longleftrightarrow> list_all2 (\<lambda>ob ty. queued en wid ty ob) os tys"

lemma queued_all_simps [simp]:
  "queued_all en wid [] os \<longleftrightarrow> os = []"
  "queued_all en wid (ty # tys) (ob # os) \<longleftrightarrow> queued en wid ty ob \<and> queued_all en wid tys os"
  "queued_all en wid (ty # tys) [] = False"
  by (simp_all add: queued_all_def)

lemma add_wager_event_Inr:
  assumes "add_wager_event pf en causation wid tid provider k st failure t = Inr (u, t')"
    and "clash_free outbox_clash (db_outbox (tx_db t))"
  shows "\<exists>os. clash_free outbox_clash (db_outbox (tx_db t) @ os) \<and>
    queued_all en wid (wager_event_types st) os \<and>
    t' = \<lparr>tx_db = emit (tx_db t) os, tx_deferred = tx_deferred t\<rparr>"
proof -
  have event: "\<exists>os. clash_free outbox_clash (db_outbox (tx_db t) @ os) \<and>
      queued_all en wid [ty] os \<and>
      t' = \<lparr>tx_db = emit (tx_db t) os, tx_deferred = tx_deferred t\<rparr>"
    if "build x eid now wid corr caus ty data = Inr e" "add_event pf en e t = Inr (u, t')"
    for x eid now corr caus ty data e
  proof -
    from add_event_Inr [OF that(2) assms(2)] obtain ob where
      "clash_free outbox_clash (db_outbox (tx_db t) @ [ob])"
      "queued en (ev_aggregate e) (ev_type e) ob"
      "t' = \<lparr>tx_db = emit (tx_db t) [ob], tx_deferred = tx_deferred t\<rparr>" by blast
    with build_Inr [OF that(1)] show ?thesis by (intro exI [of _ "[ob]"]) simp
  qed
  show ?thesis
  proof (cases st)
    case Failed
    then show ?thesis
      using assms
      by (auto simp: add_wager_event_def tx_return_Inr wager_event_types_def intro!: exI [of _ "[]"])
  qed (use assms in \<open>auto simp: add_wager_event_def Let_def tx_bind_Inr tx_lift_Inr
         wager_event_types_def event_facts dest: event\<close>)
qed

section \<open>The statements after a decision\<close>

definition moved_row :: "platform \<Rightarrow> wallet \<Rightarrow> time \<Rightarrow> wallet_row \<Rightarrow> wallet_row" where
  "moved_row pf w now r =
     r\<lparr>wr_balance := minor (w_balance w), wr_version := w_version w, wr_updated := pf_stamp pf now\<rparr>"

definition movement_entry ::
    "platform \<Rightarrow> env \<Rightarrow> operation \<Rightarrow> uuid \<Rightarrow> decision \<Rightarrow> wallet \<Rightarrow> time \<Rightarrow> ledger_row" where
  "movement_entry pf en op tid dn w now =
     \<lparr>l_id = en_entry en, l_wallet = op_wallet op, l_transaction = tid,
      l_direction = d_direction dn, l_amount = minor (op_money op), l_before = minor (d_before dn),
      l_after = minor (w_balance w), l_version = w_version w, l_created = pf_stamp pf now\<rparr>"

lemma post_movement_still:
  "d_direction dn = no_direction \<Longrightarrow>
   post_movement pf en causation op tid dn w now t = Inr (u, t') \<longleftrightarrow> t' = t"
  by (simp add: post_movement_def tx_return_Inr)

lemma insert_ledger_Inr:
  assumes "insert_ledger pf en wid tid dir m before after version created t = Inr (u, t')"
  defines "l \<equiv> \<lparr>l_id = en_entry en, l_wallet = wid, l_transaction = tid, l_direction = dir,
      l_amount = minor m, l_before = minor before, l_after = minor after, l_version = version,
      l_created = pf_stamp pf created\<rparr>"
  shows "(\<forall>x\<in>set (db_ledger (tx_db t)). \<not> ledger_clash l x) \<and> ledger_row_checks l \<and>
    is_positive (pf_known pf) m \<and> known_direction dir \<and>
    sint (minor after) = sint (minor before) + signed_amount dir (sint (minor m)) \<and>
    t' = \<lparr>tx_db = (tx_db t)\<lparr>db_ledger := db_ledger (tx_db t) @ [l]\<rparr>,
          tx_deferred = tx_deferred t @ [LedgerInserted l]\<rparr>"
  using assms unfolding insert_ledger_def
  by (auto simp: tx_bind_Inr tx_lift_Inr tx_run_Inr new_ledger_entry_Inr insert_ledger_row_def
      list_ex_iff split: if_splits)

lemma update_wallet_row_Inr:
  assumes "update_wallet_row wid b v u d = Inr (d', evs)" and "find_wallet d wid = Some r"
  defines "r' \<equiv> r\<lparr>wr_balance := b, wr_version := v, wr_updated := u\<rparr>"
  shows "evs = [WalletUpdated r r'] \<and>
    d' = d\<lparr>db_wallets := update_where (\<lambda>r. wr_id r = wid) (\<lambda>_. r') (db_wallets d)\<rparr>"
  using assms unfolding update_wallet_row_def
  by (auto simp: Let_def rbind_Inr_iff split: if_splits)

lemma find_wallet_id: "find_wallet d wid = Some r \<Longrightarrow> wr_id r = wid"
  by (auto simp: find_wallet_def dest: find_SomeD)

lemma post_movement_moves:
  assumes dir: "d_direction dn \<noteq> no_direction"
    and post: "post_movement pf en causation op tid dn w now t = Inr (u, t')"
    and r: "find_wallet (tx_db t) (op_wallet op) = Some r"
    and box: "clash_free outbox_clash (db_outbox (tx_db t))"
  defines "r' \<equiv> moved_row pf w now r" and "l \<equiv> movement_entry pf en op tid dn w now"
  shows "\<exists>ob. clash_free outbox_clash (db_outbox (tx_db t) @ [ob]) \<and>
    queued en (op_wallet op) ''WalletBalanceChanged'' ob \<and>
    (\<forall>x\<in>set (db_ledger (tx_db t)). \<not> ledger_clash l x) \<and> ledger_row_checks l \<and>
    is_positive (pf_known pf) (op_money op) \<and> known_direction (d_direction dn) \<and>
    sint (minor (w_balance w)) =
      sint (minor (d_before dn)) + signed_amount (d_direction dn) (sint (minor (op_money op))) \<and>
    t' = \<lparr>tx_db = emit (move_wallet r' l (tx_db t)) [ob],
          tx_deferred = tx_deferred t @ [WalletUpdated r r', LedgerInserted l]\<rparr>"
proof -
  from post dir obtain t1 t2 d1 evs1 where
    upd: "update_wallet_row (op_wallet op) (minor (w_balance w)) (w_version w) (pf_stamp pf now)
        (tx_db t) = Inr (d1, evs1)" and t1: "t1 = \<lparr>tx_db = d1, tx_deferred = tx_deferred t @ evs1\<rparr>"
    and led: "insert_ledger pf en (op_wallet op) tid (d_direction dn) (op_money op)
        (d_before dn) (w_balance w) (w_version w) now t1 = Inr ((), t2)"
    and ev: "add_balance_event pf en causation (op_wallet op) tid (d_direction dn) (op_money op)
        (d_before dn) (w_balance w) (w_version w) t2 = Inr (u, t')"
    by (auto simp: post_movement_def tx_bind_Inr tx_run_Inr)
  note u = update_wallet_row_Inr [OF upd r]
  note l' = insert_ledger_Inr [OF led]
  from ev obtain e where e: "new_wallet_balance_changed (pf_texts pf) (pf_known pf)
         (en_balance_event en) (en_balance_time en)
         \<lparr>bc_wallet = op_wallet op, bc_transaction = tid, bc_direction = d_direction dn,
          bc_money = op_money op, bc_before = d_before dn, bc_after = w_balance w,
          bc_version = w_version w\<rparr> causation = Inr e" "add_event pf en e t2 = Inr (u, t')"
    by (auto simp: add_balance_event_def tx_bind_Inr tx_lift_Inr)
  have "clash_free outbox_clash (db_outbox (tx_db t2))"
    using l' t1 u box by simp
  from add_event_Inr [OF e(2) this] obtain ob where
    ob: "clash_free outbox_clash (db_outbox (tx_db t2) @ [ob])"
      "queued en (ev_aggregate e) (ev_type e) ob"
      "t' = \<lparr>tx_db = emit (tx_db t2) [ob], tx_deferred = tx_deferred t2\<rparr>"
    by blast
  have "ev_aggregate e = op_wallet op \<and> ev_type e = ''WalletBalanceChanged''"
    using e(1) by (auto simp: event_facts dest: build_Inr)
  then show ?thesis
    using ob l' t1 u find_wallet_id [OF r]
    by (intro exI [of _ ob])
       (simp add: r'_def l_def moved_row_def movement_entry_def move_wallet_def)
qed

end
