(* ===== verification/StoreInvariant.thy ===== *)
theory StoreInvariant
  imports Effects
begin

text \<open>
  Every operation of the store keeps the integrity of the stored state. The locale
  \<open>store_call\<close> is the contract of a call: a decision function that satisfies \<open>decider\<close>
  for the operation it is called with. It is interpreted for the two callbacks the services pass,
  \<^verbatim>\<open>Decide\<close> and that of \<^verbatim>\<open>Fail\<close>.
\<close>

section \<open>Loading\<close>

lemma load_wallet_Inr [go_res]:
  "load_wallet pf r = Inr w \<longleftrightarrow>
   wallet_valid (pf_known pf) w \<and>
   w = \<lparr>w_id = wr_id r, w_player = wr_player r,
        w_balance = \<lparr>minor = wr_balance r, currency = wr_currency r\<rparr>,
        w_version = wr_version r, w_created = wr_created r, w_updated = wr_updated r\<rparr>"
  by (auto simp: load_wallet_def rbind_Inr_iff money_from_minor_Inr rehydrate_wallet_Inr
      wallet_valid_def money_valid_def)

lemma query_wallet_Inr [go_res]:
  "query_wallet pf wid d = Inr w \<longleftrightarrow> (\<exists>r. find_wallet d wid = Some r \<and> load_wallet pf r = Inr w)"
  by (auto simp: query_wallet_def split: option.splits)

lemma locked_wallet_Inr [go_res]:
  "locked_wallet pf wid d = Inr w \<longleftrightarrow> (\<exists>r. find_wallet d wid = Some r \<and> load_wallet pf r = Inr w)"
  by (auto simp: locked_wallet_def split: option.splits)

lemma load_reference_Some:
  assumes "load_reference pf p x d = Inr (Some r)"
  obtains t where "t \<in> set (db_wagers d)" and "t_provider t = Some p" and "t_external t = Some x"
    and "r = \<lparr>ref_id = t_id t, ref_kind = t_kind t, ref_status = t_status t,
              ref_wallet = t_wallet t, ref_player = t_player t, ref_round = string_value (t_round t),
              ref_money = \<lparr>minor = t_amount t, currency = t_currency t\<rparr>,
              ref_reversed = reversed_before d (t_id t)\<rparr>"
proof -
  from assms obtain t where f: "find (\<lambda>r. t_provider r = Some p \<and> t_external r = Some x) (db_wagers d) = Some t"
    by (auto simp: load_reference_def split: option.splits)
  moreover from find_SomeD [OF f] have "t \<in> set (db_wagers d)" "t_provider t = Some p" "t_external t = Some x"
    by simp_all
  ultimately show thesis
    using assms that [of t]
    by (auto simp: load_reference_def rbind_Inr_iff money_from_minor_Inr string_value_def
        split: option.splits)
qed

lemma validate_times:
  "validate_wager known d = Inr () \<Longrightarrow>
   validate_wager known (d\<lparr>wd_created := 1, wd_updated := 1\<rparr>) = Inr ()"
  by (cases d)
     (simp only: validate_wager_def if_Inr_iff wager_data.simps, elim conjE, intro conjI, simp, rule refl)

lemma nullable_value [simp]: "string_value (nullable s) = s" "nullable s \<noteq> Some []"
  "string_value (Some s) = s" "string_value None = []" "nullable_id u \<noteq> Some 0"
  "(case nullable_id u of None \<Rightarrow> 0 | Some i \<Rightarrow> i) = u"
  by (auto simp: string_value_def nullable_def nullable_id_def)

lemma money_mk: "\<lparr>minor = a, currency = c\<rparr> = m \<longleftrightarrow> a = minor m \<and> c = currency m"
  by (cases m) simp

lemma wager_ok_id: "wager_ok pf d t \<Longrightarrow> t_id t \<noteq> 0"
  by (auto simp: wager_ok_def row_data_def dest: validate_wager_money)

lemma integrity_wager: "integrity pf d \<Longrightarrow> t \<in> set (db_wagers d) \<Longrightarrow> wager_ok pf d t"
  by (simp add: integrity_def list_all_iff)

lemma wallet_ok_iff:
  "wallet_ok pf r \<longleftrightarrow>
   (\<exists>w. load_wallet pf r = Inr w) \<and> 0 < wr_created r \<and> pf_stamp pf (wr_created r) = wr_created r"
  by (cases "load_wallet pf r") (simp_all add: wallet_ok_def)

definition posted_db ::
    "platform \<Rightarrow> env \<Rightarrow> operation \<Rightarrow> wager_row list \<Rightarrow> uuid \<Rightarrow> decision \<Rightarrow> wallet \<Rightarrow> time \<Rightarrow>
     wallet_row \<Rightarrow> db \<Rightarrow> db" where
  "posted_db pf en op ws tid dn w now r d =
     (if d_direction dn = no_direction then d\<lparr>db_wagers := ws\<rparr>
      else move_wallet (moved_row pf w now r) (movement_entry pf en op tid dn w now)
             (d\<lparr>db_wagers := ws\<rparr>))"

section \<open>The contract of a call\<close>

locale store_call = decider "pf_known pf" op dec
  for pf :: platform and op :: operation and dec :: decide_fn
begin

lemma call_reversal_ok:
  assumes i: "integrity pf d" and dec: "dec w ref now = (dn, w')"
    and ext: "external_kind (op_kind op)"
    and ref: "ref = None \<or> load_reference pf p x d = Inr ref"
    and tr: "t_wallet tr = op_wallet op" "t_kind tr = op_kind op"
      "t_amount tr = minor (op_money op)" "t_currency tr = currency (op_money op)"
      "t_status tr = d_status dn" "t_ref tr = nullable_id (d_reference dn)"
  shows "reversal_ok d tr"
proof (cases "processed_reversal tr")
  case True
  then have k: "reversal_kind (op_kind op)" and st: "d_status dn = Processed"
    using tr by (auto simp: processed_reversal_def reversal_kind_def)
  have dir: "d_direction dn \<noteq> no_direction"
    using dec_still [OF dec ext] st k by (auto simp: reversal_kind_def)
  from dec_reversal [OF dec k dir] obtain r where r: "ref = Some r" "ref_status r = Processed"
    "ref_wallet r = op_wallet op" "ref_money r = op_money op"
    "op_kind op = Refund \<longrightarrow> ref_kind r = Bet"
    "op_kind op = Rollback \<longrightarrow> ref_kind r \<in> {Bet, Win, Refund}" by blast
  have dr: "d_reference dn = ref_id r" using dec_moves [OF dec ext dir] r(1) by simp
  from ref r(1) have "load_reference pf p x d = Inr (Some r)" by simp
  then obtain t where t: "t \<in> set (db_wagers d)"
    "r = \<lparr>ref_id = t_id t, ref_kind = t_kind t, ref_status = t_status t,
              ref_wallet = t_wallet t, ref_player = t_player t, ref_round = string_value (t_round t),
              ref_money = \<lparr>minor = t_amount t, currency = t_currency t\<rparr>,
              ref_reversed = reversed_before d (t_id t)\<rparr>"
    by (rule load_reference_Some)
  have "t_id t \<noteq> 0" using wager_ok_id [OF integrity_wager [OF i t(1)]] .
  then have "t_ref tr = Some (t_id t)" using tr(6) dr t(2) by (simp add: nullable_id_def)
  moreover have "find_wager d (t_id t) = Some t"
    using i t(1) by (simp add: integrity_def find_wager_Some)
  ultimately show ?thesis
    using r t(2) tr by (auto simp: reversal_ok_def money_mk)
qed (simp add: reversal_ok_def)

lemma call_direction:
  assumes i: "integrity pf d" and dec: "dec w ref now = (dn, w')"
    and ext: "external_kind (op_kind op)" and dir: "d_direction dn \<noteq> no_direction"
    and keeps: "keeps (db_wagers d) ws' tr" and ok: "reversal_ok d tr"
    and ref: "ref = None \<or> load_reference pf p x d = Inr ref"
    and tr: "t_kind tr = op_kind op" "t_status tr = d_status dn" "t_ref tr = nullable_id (d_reference dn)"
  shows "expected_direction (d\<lparr>db_wagers := ws'\<rparr>) tr = Some (d_direction dn)"
proof -
  note m = dec_moves [OF dec ext dir]
  show ?thesis
  proof (cases "op_kind op = Rollback")
    case True
    then have "reversal_kind (op_kind op)" by (simp add: reversal_kind_def)
    from dec_reversal [OF dec this dir] True obtain r where r: "ref = Some r"
      "ref_kind r \<in> {Bet, Win, Refund}" "ref_status r = Processed" by blast
    from ref r(1) have "load_reference pf p x d = Inr (Some r)" by simp
    then obtain t where t: "t \<in> set (db_wagers d)" "ref_id r = t_id t" "ref_kind r = t_kind t"
      "t_status t = ref_status r"
      by (rule load_reference_Some) auto
    have nz: "t_id t \<noteq> 0" using wager_ok_id [OF integrity_wager [OF i t(1)]] .
    have f: "find_wager d (t_id t) = Some t" using i t(1) by (simp add: integrity_def find_wager_Some)
    have keys: "keys_ok d" using i by (simp add: integrity_def)
    have "find_wager (d\<lparr>db_wagers := ws'\<rparr>) (t_id t) = Some t"
      by (rule keeps_find [OF keys keeps f]) (simp add: t(4) r(3))
    moreover have "t_ref tr = Some (t_id t)" using tr(3) m r(1) t(2) nz by (simp add: nullable_id_def)
    ultimately show ?thesis
      using m r t True tr by (auto simp: expected_direction_def is_debit_def)
  next
    case False
    then show ?thesis
      using m ext tr(1) by (auto simp: expected_direction_def is_debit_def external_kind_def)
  qed
qed

lemma call_wallet_ok:
  assumes p: "platform_ok pf" and r: "wallet_ok pf r" "load_wallet pf r = Inr w"
    and dec: "dec w ref now = (dn, w')" and ext: "external_kind (op_kind op)"
    and dir: "d_direction dn \<noteq> no_direction"
  shows "wallet_ok pf (moved_row pf w' now r)"
proof -
  note m = dec_movement [OF dec ext dir]
  have w: "w_created w = wr_created r" "w_id w = wr_id r" "w_player w = wr_player r"
    "currency (w_balance w) = wr_currency r"
    using r(2) by (simp_all add: load_wallet_Inr)
  have v: "wallet_valid (pf_known pf) w'" "w_created w' = wr_created r" "w_updated w' = now"
    using m w by simp_all
  then have "wr_created r \<le> now" by (auto simp: wallet_valid_def)
  then have "pf_stamp pf (wr_created r) \<le> pf_stamp pf now"
    using p by (auto simp: platform_ok_def dest: monoD)
  then have "0 < pf_stamp pf now" "wr_created r \<le> pf_stamp pf now"
    using r(1) by (auto simp: wallet_ok_def)
  then show ?thesis
    using r(1) v m w
    by (auto simp: wallet_ok_iff moved_row_def load_wallet_Inr wallet_valid_def money_valid_def)
qed

text \<open>The ledger entry continues the wallet's balance and version.\<close>

lemma call_continues:
  assumes dec: "dec w ref now = (dn, w')" and ext: "external_kind (op_kind op)"
    and dir: "d_direction dn \<noteq> no_direction"
    and r: "wr_id r = op_wallet op" and w: "load_wallet pf r = Inr w"
  shows "continues r (moved_row pf w' now r) (movement_entry pf en op tid dn w' now)"
proof -
  have wr: "wr_balance r = minor (w_balance w)" "wr_version r = w_version w"
    using w by (simp_all add: load_wallet_Inr)
  have "sint (w_version w') = sint (w_version w) + 1"
    "sint (minor (w_balance w')) = sint (minor (w_balance w)) +
      signed_amount (d_direction dn) (sint (minor (op_money op)))"
    using dec_movement [OF dec ext dir] by blast+
  then show ?thesis
    using wr r conjunct1 [OF conjunct2 [OF conjunct2 [OF conjunct2 [OF dec_moves [OF dec ext dir]]]]]
    by (simp add: continues_def moved_row_def movement_entry_def)
qed

text \<open>The wallet moved and its ledger entry added: integrity holds again.\<close>

lemma call_moved:
  assumes p: "platform_ok pf" and i: "integrity pf d"
    and r: "find_wallet d (op_wallet op) = Some r" and w: "load_wallet pf r = Inr w"
    and dec: "dec w ref now = (dn, w')" and ext: "external_kind (op_kind op)"
    and dir: "d_direction dn \<noteq> no_direction"
    and ref: "ref = None \<or> load_reference pf rp rx d = Inr ref"
    and keeps: "keeps (db_wagers d) ws' tr" and ok: "wager_ok pf d tr"
    and tr: "t_id tr = tid" "t_wallet tr = op_wallet op" "t_kind tr = op_kind op"
      "t_amount tr = minor (op_money op)" "t_currency tr = currency (op_money op)"
      "t_status tr = d_status dn" "t_ref tr = nullable_id (d_reference dn)"
    and free: "\<forall>x\<in>set (db_ledger d). \<not> ledger_clash (movement_entry pf en op tid dn w' now) x"
    and checks: "ledger_row_checks (movement_entry pf en op tid dn w' now)"
  shows "integrity pf (move_wallet (moved_row pf w' now r) (movement_entry pf en op tid dn w' now)
    (d\<lparr>db_wagers := ws'\<rparr>))"
proof -
  let ?d1 = "d\<lparr>db_wagers := ws'\<rparr>"
  let ?r' = "moved_row pf w' now r" and ?l = "movement_entry pf en op tid dn w' now"
  note rev = call_reversal_ok [OF i dec ext ref tr(2-7)]
  note but = one_row_changes [OF i keeps ok rev]
  note m = dec_moves [OF dec ext dir] and mv = dec_movement [OF dec ext dir]
  have trin: "tr \<in> set (db_wagers ?d1)" using keeps by (simp add: keeps_def)
  have fr: "find_wallet ?d1 (op_wallet op) = Some r" using r by simp
  have rid: "wr_id r = op_wallet op" using r by (rule find_wallet_id)
  have wr: "wr_currency r = currency (w_balance w)" using w by (simp add: load_wallet_Inr)
  have cont: "continues r ?r' ?l" by (rule call_continues [OF dec ext dir rid w])
  have rok: "wallet_ok pf r"
    using i r by (auto simp: integrity_def list_all_iff find_wallet_Some)
  have keys: "keys_ok ?d1" using but by (simp add: integrity_but_def)
  have "find_wager ?d1 tid = Some tr"
    using trin tr(1) keys by (simp add: find_wager_Some)
  then have entry: "entry_ok ?d1 ?l"
    using checks fr rid tr m mv wr call_direction [OF i dec ext dir keeps rev ref tr(3,6,7)]
    by (simp add: entry_ok_def ledger_transaction_ok_def movement_entry_def)
  show ?thesis
  proof (rule movement [OF but trin _ cont call_wallet_ok [OF p rok w dec ext dir] _ _ entry])
    show "find_wallet ?d1 (wr_id ?r') = Some r" using fr rid by (simp add: moved_row_def)
    show "l_transaction ?l = t_id tr" using tr(1) by (simp add: movement_entry_def)
  qed (use free in simp)
qed

text \<open>
  A decision is posted: the transaction row is in place, the wallet and the ledger follow the
  direction, the events are queued. \<open>posted_db\<close> is the state this leaves.
\<close>

lemma call_posted:
  assumes p: "platform_ok pf" and i: "integrity pf d"
    and r: "find_wallet d (op_wallet op) = Some r" and w: "load_wallet pf r = Inr w"
    and dec: "dec w ref now = (dn, w')" and ext: "external_kind (op_kind op)"
    and ref: "ref = None \<or> load_reference pf rp rx d = Inr ref"
    and keeps: "keeps (db_wagers d) ws' tr" and ok: "wager_ok pf d tr"
    and tr: "t_id tr = tid" "t_wallet tr = op_wallet op" "t_kind tr = op_kind op"
      "t_amount tr = minor (op_money op)" "t_currency tr = currency (op_money op)"
      "t_status tr = d_status dn" "t_ref tr = nullable_id (d_reference dn)"
    and post: "post_movement pf en causation op tid dn w' now
      \<lparr>tx_db = d\<lparr>db_wagers := ws'\<rparr>, tx_deferred = evs\<rparr> = Inr (u, t1)"
    and ev: "add_wager_event pf en causation (op_wallet op) tid provider k (d_status dn) fl t1
      = Inr (u', t2)"
  shows "integrity pf (tx_db t2) \<and> (\<exists>os. queued_all en (op_wallet op) (event_types dn) os \<and>
       tx_db t2 = emit (posted_db pf en op ws' tid dn w' now r d) os)
    \<and> (d_direction dn = no_direction \<longrightarrow> w' = w \<and> tx_deferred t2 = evs) \<and>
    (d_direction dn \<noteq> no_direction \<longrightarrow>
       tx_deferred t2 = evs @ [WalletUpdated r (moved_row pf w' now r),
         LedgerInserted (movement_entry pf en op tid dn w' now)])"
proof -
  let ?d1 = "d\<lparr>db_wagers := ws'\<rparr>"
  note rev = call_reversal_ok [OF i dec ext ref tr(2-7)]
  note but = one_row_changes [OF i keeps ok rev]
  have trin: "tr \<in> set (db_wagers ?d1)" using keeps by (simp add: keeps_def)
  have boxes: "clash_free outbox_clash (db_outbox d)" using i by (simp add: integrity_def keys_ok_def)
  show ?thesis
  proof (cases "d_direction dn = no_direction")
    case True
    with dec_still [OF dec ext] have still: "w' = w" "d_status dn = Processed \<longrightarrow> op_kind op = Loss" by simp_all
    have t1: "t1 = \<lparr>tx_db = ?d1, tx_deferred = evs\<rparr>"
      using post post_movement_still [OF True] by simp
    with ev add_wager_event_Inr [OF ev] boxes obtain os where
      os: "clash_free outbox_clash (db_outbox ?d1 @ os)"
        "queued_all en (op_wallet op) (wager_event_types (d_status dn)) os"
        "t2 = \<lparr>tx_db = emit ?d1 os, tx_deferred = evs\<rparr>" by auto
    have "integrity pf ?d1"
      by (rule no_movement [OF but trin]) (use still tr in \<open>simp add: moves_money_def\<close>)
    from integrity_emit [OF this os(1)] show ?thesis
      using os(2,3) still True by (auto simp: posted_db_def event_types_def)
  next
    case False
    let ?r' = "moved_row pf w' now r" and ?l = "movement_entry pf en op tid dn w' now"
    have fr: "find_wallet ?d1 (op_wallet op) = Some r" using r by simp
    from post_movement_moves [OF False post, of r] fr boxes obtain ob where
      ob: "clash_free outbox_clash (db_outbox ?d1 @ [ob])"
        "queued en (op_wallet op) ''WalletBalanceChanged'' ob"
        "\<forall>x\<in>set (db_ledger ?d1). \<not> ledger_clash ?l x" "ledger_row_checks ?l"
        "t1 = \<lparr>tx_db = emit (move_wallet ?r' ?l ?d1) [ob],
               tx_deferred = evs @ [WalletUpdated r ?r', LedgerInserted ?l]\<rparr>"
      by auto
    then have "clash_free outbox_clash (db_outbox (tx_db t1))" by (simp add: move_wallet_def)
    from add_wager_event_Inr [OF ev this] ob(5) obtain os where
      os: "clash_free outbox_clash (db_outbox ?d1 @ [ob] @ os)"
        "queued_all en (op_wallet op) (wager_event_types (d_status dn)) os"
        "t2 = \<lparr>tx_db = emit (move_wallet ?r' ?l ?d1) ([ob] @ os),
               tx_deferred = evs @ [WalletUpdated r ?r', LedgerInserted ?l]\<rparr>"
      by (auto simp: move_wallet_def)
    have "integrity pf (move_wallet ?r' ?l ?d1)"
      by (rule call_moved [OF p i r w dec ext False ref keeps ok tr]) (use ob(3,4) in simp_all)
    moreover have "queued_all en (op_wallet op) (event_types dn) (ob # os)"
      using ob(2) os(2) False by (simp add: event_types_def)
    ultimately show ?thesis
      using integrity_emit [of _ _ "[ob] @ os"] os False
      by (auto simp: posted_db_def move_wallet_def intro!: exI [of _ "ob # os"])
  qed
qed

end

section \<open>Executing a wager\<close>

lemma insert_wager_row_Inr:
  assumes "insert_wager_row row d = Inr (d', evs)"
  shows "d' = d\<lparr>db_wagers := db_wagers d @ [row]\<rparr> \<and> evs = [] \<and> wager_row_checks row \<and>
    (\<forall>x\<in>set (db_wagers d). \<not> wager_clash row x) \<and> find_wallet d (t_wallet row) \<noteq> None"
  using assms by (auto simp: insert_wager_row_def list_ex_iff split: if_splits)

lemma insert_keeps:
  assumes "clash_free wager_clash (db_wagers d)" and "t_kind row \<noteq> Opening"
    and "\<forall>x\<in>set (db_wagers d). \<not> wager_clash row x"
  shows "keeps (db_wagers d) (db_wagers d @ [row]) row"
proof -
  have "\<not> wager_clash x row" if "x \<in> set (db_wagers d)" for x
    using assms(3) that wager_clash_sym by blast
  moreover have "t_id x \<noteq> t_id row" if "x \<in> set (db_wagers d)" for x
    using assms(3) that by (auto simp: wager_clash_def)
  ultimately show ?thesis
    using assms(1,2) by (auto simp: keeps_def clash_free_append same_wager_def)
qed

lemma new_data_kind:
  assumes "validate_wager known d = Inr ()" and "wd_status d = Pending"
  shows "external_kind (wd_kind d)"
proof -
  have "wd_kind d \<noteq> Opening" by (rule pending_not_opening [OF assms(1)]) (simp add: assms(2))
  from validate_wager_operation [OF assms(1) this] show ?thesis
    by (auto simp: external_kind_def validate_operation_ok)
qed

text \<open>The row of a new transaction carries the data the domain accepted.\<close>

lemma operation_row_ok:
  assumes new: "new_wager (pf_known pf) (operation_data op hash tid now) = Inr data"
    and tr: "wager_transition (pf_known pf) data (d_status dn) (d_failure dn) (w_balance w)
      (d_reference dn) now = Inr nxt"
    and checks: "wager_row_checks (operation_row pf en op hash tid dn w now)"
    and r: "find_wallet d (op_wallet op) = Some r" "wr_currency r = currency (w_balance w)"
    and pend: "d_status dn = PendingReference \<Longrightarrow>
      op_kind op \<in> {Win, Refund, Rollback} \<and> (op_kind op = Win \<longrightarrow> op_reference op \<noteq> [])"
  shows "wager_ok pf d (operation_row pf en op hash tid dn w now) \<and> external_kind (op_kind op) \<and>
    currency (op_money op) = currency (w_balance w)"
proof -
  let ?row = "operation_row pf en op hash tid dn w now"
  from new have data: "validate_wager (pf_known pf) data = Inr ()"
    "data = (operation_data op hash tid now)\<lparr>wd_status := Pending, wd_failure := [],
       wd_ref_id := 0, wd_result := no_money, wd_updated := now\<rparr>"
    by (auto simp: new_wager_Inr operation_data_def)
  note t = wager_transition_Inr [OF tr]
  have cur: "currency (op_money op) = currency (w_balance w)"
    using t data(2) by (simp add: operation_data_def)
  have ext: "external_kind (op_kind op)"
    using new_data_kind [OF data(1)] data(2) by (simp add: operation_data_def)
  have op: "validate_operation (pf_known pf) (op_kind op) (op_money op) (op_reference op) = Inr ()"
    using validate_wager_operation [OF data(1)] ext data(2)
    by (auto simp: operation_data_def external_kind_def)
  have "(row_data ?row)\<lparr>wd_created := 1, wd_updated := 1\<rparr> = nxt\<lparr>wd_created := 1, wd_updated := 1\<rparr>"
    using t data(2) cur
    by (simp add: row_data_def operation_row_def operation_data_def)
  moreover have "validate_wager (pf_known pf) (nxt\<lparr>wd_created := 1, wd_updated := 1\<rparr>) = Inr ()"
    using t validate_times by blast
  moreover have "d_status dn = PendingReference \<Longrightarrow> op_reference op \<noteq> []"
    using pend op by (auto simp: validate_operation_ok)
  moreover have "d_status dn \<noteq> Pending" using t by auto
  ultimately show ?thesis
    using checks r cur ext
    by (simp add: wager_ok_def operation_row_def next_attempt_def nullable_def)
qed

context store_call
begin

lemma call_executed:
  assumes p: "platform_ok pf" and i: "integrity pf (tx_db t)"
    and r: "find_wallet (tx_db t) (op_wallet op) = Some r" and w: "load_wallet pf r = Inr w"
    and ref: "ref = None \<or> load_reference pf rp rx (tx_db t) = Inr ref"
    and ex: "execute_new pf en causation op hash dec w ref t = Inr (res, t')"
  obtains dn w' os where "dec w ref (en_now en) = (dn, w')"
    and "integrity pf (tx_db t')" and "external_kind (op_kind op)"
    and "currency (op_money op) = currency (w_balance w')"
    and "res = \<lparr>r_transaction = en_tx en, r_status = d_status dn, r_balance = w_balance w',
                r_failure = d_failure dn, r_replay = False\<rparr>"
    and "keeps (db_wagers (tx_db t))
           (db_wagers (tx_db t) @ [operation_row pf en op hash (en_tx en) dn w' (en_now en)])
           (operation_row pf en op hash (en_tx en) dn w' (en_now en))"
    and "tx_db t' = emit (posted_db pf en op
           (db_wagers (tx_db t) @ [operation_row pf en op hash (en_tx en) dn w' (en_now en)])
           (en_tx en) dn w' (en_now en) r (tx_db t)) os"
    and "queued_all en (op_wallet op) (event_types dn) os"
    and "d_direction dn = no_direction \<longrightarrow> w' = w \<and> tx_deferred t' = tx_deferred t"
    and "d_direction dn \<noteq> no_direction \<longrightarrow> tx_deferred t' = tx_deferred t @
           [WalletUpdated r (moved_row pf w' (en_now en) r),
            LedgerInserted (movement_entry pf en op (en_tx en) dn w' (en_now en))]"
proof -
  obtain dn w' where dec: "dec w ref (en_now en) = (dn, w')" by fastforce
  let ?row = "operation_row pf en op hash (en_tx en) dn w' (en_now en)"
  from ex dec obtain data nxt d1 evs t1 u u' where
    new: "new_wager (pf_known pf) (operation_data op hash (en_tx en) (en_now en)) = Inr data"
    and tr: "wager_transition (pf_known pf) data (d_status dn) (d_failure dn) (w_balance w')
      (d_reference dn) (en_now en) = Inr nxt"
    and ins: "insert_wager_row ?row (tx_db t) = Inr (d1, evs)"
    and post: "post_movement pf en causation op (en_tx en) dn w' (en_now en)
      \<lparr>tx_db = d1, tx_deferred = tx_deferred t @ evs\<rparr> = Inr (u, t1)"
    and ev: "add_wager_event pf en causation (op_wallet op) (en_tx en) (op_provider op) (op_kind op)
      (d_status dn) (d_failure dn) t1 = Inr (u', t')"
    and res: "res = \<lparr>r_transaction = en_tx en, r_status = d_status dn, r_balance = w_balance w',
                r_failure = d_failure dn, r_replay = False\<rparr>"
    by (auto simp: execute_new_def Let_def tx_bind_Inr tx_lift_Inr tx_return_Inr tx_classify_def
        tx_run_Inr split: sum.splits)
  note ins' = insert_wager_row_Inr [OF ins]
  have cw: "currency (w_balance w') = currency (w_balance w)" if "external_kind (op_kind op)"
    using dec_still [OF dec that] dec_movement [OF dec that] by blast
  have ext: "external_kind (op_kind op)"
    using new new_data_kind [of "pf_known pf" data]
    by (auto simp: new_wager_Inr operation_data_def)
  have "wr_currency r = currency (w_balance w')" using w cw [OF ext] by (simp add: load_wallet_Inr)
  from operation_row_ok [OF new tr _ r this dec_pending [OF dec]] ins'
  have ok: "wager_ok pf (tx_db t) ?row" and cur: "currency (op_money op) = currency (w_balance w')"
    by blast+
  have keeps: "keeps (db_wagers (tx_db t)) (db_wagers (tx_db t) @ [?row]) ?row"
    by (rule insert_keeps)
       (use i ins' ext in \<open>auto simp: integrity_def keys_ok_def operation_row_def external_kind_def\<close>)
  note posted = call_posted [OF p i r w dec ext ref keeps ok _ _ _ _ _ _ _ _ ev]
  have row: "t_id ?row = en_tx en" "t_wallet ?row = op_wallet op" "t_kind ?row = op_kind op"
    "t_amount ?row = minor (op_money op)" "t_currency ?row = currency (op_money op)"
    "t_status ?row = d_status dn" "t_ref ?row = nullable_id (d_reference dn)"
    by (simp_all add: operation_row_def)
  have "post_movement pf en causation op (en_tx en) dn w' (en_now en)
      \<lparr>tx_db = (tx_db t)\<lparr>db_wagers := db_wagers (tx_db t) @ [?row]\<rparr>,
       tx_deferred = tx_deferred t\<rparr> = Inr (u, t1)"
    using post ins' by simp
  from posted [OF row this] obtain os where
    "integrity pf (tx_db t')"
    "tx_db t' = emit (posted_db pf en op (db_wagers (tx_db t) @ [?row]) (en_tx en) dn w'
       (en_now en) r (tx_db t)) os"
    "queued_all en (op_wallet op) (event_types dn) os"
    "d_direction dn = no_direction \<longrightarrow> w' = w \<and> tx_deferred t' = tx_deferred t"
    "d_direction dn \<noteq> no_direction \<longrightarrow> tx_deferred t' = tx_deferred t @
       [WalletUpdated r (moved_row pf w' (en_now en) r),
        LedgerInserted (movement_entry pf en op (en_tx en) dn w' (en_now en))]"
    by blast
  then show thesis by (intro that [OF dec _ ext cur res keeps])
qed

end

lemma pick_row_Some: "pick_row n rs = Some r \<Longrightarrow> r \<in> set rs"
  by (auto simp: pick_row_def split: if_splits)

lemma pick_row_None: "pick_row n rs = None \<longleftrightarrow> rs = []"
  by (simp add: pick_row_def)

lemma execute_tx_cases:
  assumes "execute_tx pf en causation op hash dec t = Inr (res, t')"
  obtains (replay) r w row where "find_wallet (tx_db t) (op_wallet op) = Some r"
      and "load_wallet pf r = Inr w" and "pick_row (en_pick en) (existing_rows (tx_db t) op) = Some row"
      and "replay_result pf op hash (currency (w_balance w)) row = Inr res" and "t' = t"
  | (fresh) r w ref where "find_wallet (tx_db t) (op_wallet op) = Some r"
      and "load_wallet pf r = Inr w" and "existing_rows (tx_db t) op = []"
      and "(if op_reference op \<noteq> []
            then load_reference pf (op_provider op) (op_reference op) (tx_db t)
            else Inr None) = Inr ref"
      and "execute_new pf en causation op hash dec w ref t = Inr (res, t')"
proof -
  from assms obtain r w where rw: "find_wallet (tx_db t) (op_wallet op) = Some r"
      "load_wallet pf r = Inr w"
    and rest: "(case pick_row (en_pick en) (existing_rows (tx_db t) op) of
         Some r \<Rightarrow> tx_lift (replay_result pf op hash (currency (w_balance w)) r)
       | None \<Rightarrow>
           tx_bind (tx_lift (if op_reference op \<noteq> []
                             then load_reference pf (op_provider op) (op_reference op) (tx_db t)
                             else Inr None)) (\<lambda>ref.
           execute_new pf en causation op hash dec w ref)) t = Inr (res, t')"
    by (auto simp: execute_tx_def tx_bind_Inr tx_get_Inr tx_lift_Inr query_wallet_Inr)
  show thesis
  proof (cases "pick_row (en_pick en) (existing_rows (tx_db t) op)")
    case (Some row)
    with rest show thesis by (intro replay [OF rw Some]) (simp_all add: tx_lift_Inr)
  next
    case None
    with rest obtain ref where "(if op_reference op \<noteq> []
            then load_reference pf (op_provider op) (op_reference op) (tx_db t)
            else Inr None) = Inr ref"
      "execute_new pf en causation op hash dec w ref t = Inr (res, t')"
      by (auto simp: tx_bind_Inr tx_lift_Inr simp del: if_split)
    with None show thesis by (intro fresh [OF rw]) (simp_all add: pick_row_None)
  qed
qed

context store_call
begin

lemma execute_tx_integrity:
  assumes "platform_ok pf" and "integrity pf (tx_db t)"
    and ex: "execute_tx pf en causation op hash dec t = Inr (res, t')"
  shows "integrity pf (tx_db t')"
  using ex
proof (cases rule: execute_tx_cases)
  case replay
  with assms(2) show ?thesis by simp
next
  case (fresh r w ref)
  have "ref = None \<or> load_reference pf (op_provider op) (op_reference op) (tx_db t) = Inr ref"
    using fresh(4) by (auto split: if_splits)
  from call_executed [OF assms(1,2) fresh(1,2) this fresh(5)] show ?thesis by blast
qed

lemma execute_integrity:
  assumes "platform_ok pf" and "integrity pf d"
  shows "integrity pf (snd (execute pf en op hash dec d))"
proof (cases "execute pf en op hash dec d")
  case (Pair r d')
  show ?thesis
  proof (cases r)
    case (Inl e)
    with Pair assms(2) show ?thesis by (auto simp: execute_def dest: with_tx_Inl)
  next
    case (Inr res)
    with Pair obtain t where "execute_tx pf en [] op hash dec \<lparr>tx_db = d, tx_deferred = []\<rparr> = Inr (res, t)"
      "d' = tx_db t" by (auto simp: execute_def with_tx_Inr)
    with execute_tx_integrity [OF assms(1) _ this(1)] assms(2) Pair show ?thesis by simp
  qed
qed

end

lemma integrity_keys: "integrity pf d \<Longrightarrow> clash_free inbox_clash (db_inbox d)"
  by (simp add: integrity_def keys_ok_def)

lemma integrity_inbox:
  assumes "integrity pf d" and "clash_free inbox_clash ib"
  shows "integrity pf (d\<lparr>db_inbox := ib\<rparr>)"
proof -
  have "d\<lparr>db_inbox := ib, db_outbox := db_outbox d\<rparr> = d\<lparr>db_inbox := ib\<rparr>" by simp
  with integrity_boxes [OF assms(1) _ assms(2), of "db_outbox d"] assms(1) show ?thesis
    by (simp add: integrity_def keys_ok_def)
qed

lemma insert_inbox_row_Inr:
  assumes "insert_inbox_row row d = Inr (d', evs)" and "clash_free inbox_clash (db_inbox d)"
  shows "\<exists>ib. d' = d\<lparr>db_inbox := ib\<rparr> \<and> evs = [] \<and> clash_free inbox_clash ib \<and>
    (ib = db_inbox d \<or> ib = db_inbox d @ [row] \<and>
       (\<forall>x\<in>set (db_inbox d). \<not> inbox_clash row x))"
proof (cases "list_ex (\<lambda>x. i_consumer x = i_consumer row \<and> i_message x = i_message row) (db_inbox d)")
  case True
  with assms show ?thesis by (intro exI [of _ "db_inbox d"]) (auto simp: insert_inbox_row_def)
next
  case False
  then have "d' = d\<lparr>db_inbox := db_inbox d @ [row]\<rparr>" "evs = []"
    using assms(1) by (auto simp: insert_inbox_row_def)
  with assms(2) False show ?thesis
    by (intro exI [of _ "db_inbox d @ [row]"])
       (auto simp: clash_free_append inbox_clash_def list_ex_iff)
qed

lemma complete_inbox_clash_free:
  "clash_free inbox_clash ib \<Longrightarrow>
   clash_free inbox_clash (update_where p (\<lambda>i. i\<lparr>i_completed := c\<rparr>) ib)"
  unfolding clash_free_def update_where_def sorted_wrt_map
  by (erule sorted_wrt_mono_rel [rotated]) (auto simp: inbox_clash_def)

definition msg_row :: "env \<Rightarrow> inbox_message \<Rightarrow> inbox_row" where
  "msg_row en msg =
     \<lparr>i_consumer = im_consumer msg, i_message = im_id msg, i_hash = im_hash msg,
      i_received = en_dbnow en, i_completed = None\<rparr>"

definition is_msg :: "inbox_message \<Rightarrow> inbox_row \<Rightarrow> bool" where
  "is_msg msg i \<longleftrightarrow> i_consumer i = im_consumer msg \<and> i_message i = im_id msg"

text \<open>The inbox steps around the execution, in one equation.\<close>

lemma execute_inbox_Inr:
  assumes "execute_inbox pf en msg op hash dec d = (Inr res, d')"
  obtains d1 row t where "insert_inbox_row (msg_row en msg) d = Inr (d1, [])"
    and "find (is_msg msg) (db_inbox d1) = Some row" and "i_hash row = im_hash msg"
    and "execute_tx pf en (im_id msg) op hash dec \<lparr>tx_db = d1, tx_deferred = []\<rparr> = Inr (res, t)"
    and "d' = (if i_completed row = None
               then (tx_db t)\<lparr>db_inbox := update_where (is_msg msg)
                       (\<lambda>i. i\<lparr>i_completed := Some (en_dbnow en)\<rparr>) (db_inbox (tx_db t))\<rparr>
               else tx_db t)"
    and "list_all (deferred_ok d') (tx_deferred t)"
proof -
  have im: "(\<lambda>i. i_consumer i = im_consumer msg \<and> i_message i = im_id msg) = is_msg msg"
    by (rule ext) (simp add: is_msg_def)
  from assms obtain d1 evs t where ins: "insert_inbox_row (msg_row en msg) d = Inr (d1, evs)"
    and rest: "(case find (is_msg msg) (db_inbox d1) of
           None \<Rightarrow> tx_fail ErrNoRows
         | Some row \<Rightarrow>
             if i_hash row \<noteq> im_hash msg then tx_fail ErrConflict
             else
               tx_bind (execute_tx pf en (im_id msg) op hash dec) (\<lambda>result.
               tx_bind
                 (if i_completed row = None
                  then tx_run (\<lambda>d. Inr (d\<lparr>db_inbox := update_where (is_msg msg)
                           (\<lambda>i. i\<lparr>i_completed := Some (en_dbnow en)\<rparr>) (db_inbox d)\<rparr>, []))
                  else tx_return ()) (\<lambda>_.
               tx_return result))) \<lparr>tx_db = d1, tx_deferred = evs\<rparr> = Inr (res, t)"
    and c: "list_all (deferred_ok (tx_db t)) (tx_deferred t)" "d' = tx_db t"
    unfolding execute_inbox_def im
    by (auto simp: with_tx_Inr tx_bind_Inr tx_run_Inr tx_get_Inr msg_row_def)
  have evs: "evs = []" using ins by (auto simp: insert_inbox_row_def split: if_splits)
  from rest obtain row where row: "find (is_msg msg) (db_inbox d1) = Some row"
    by (cases "find (is_msg msg) (db_inbox d1)") simp_all
  with rest have h: "i_hash row = im_hash msg" by (auto split: if_splits)
  with rest row obtain t1 where t1: "execute_tx pf en (im_id msg) op hash dec
      \<lparr>tx_db = d1, tx_deferred = evs\<rparr> = Inr (res, t1)"
    and t: "t = (if i_completed row = None
        then t1\<lparr>tx_db := (tx_db t1)\<lparr>db_inbox := update_where (is_msg msg)
               (\<lambda>i. i\<lparr>i_completed := Some (en_dbnow en)\<rparr>) (db_inbox (tx_db t1))\<rparr>\<rparr>
        else t1)"
    by (auto simp: tx_bind_Inr tx_return_Inr tx_run_Inr split: if_splits)
  show thesis
    by (rule that [OF _ row h, of t1]) (use ins evs t1 t c in auto)
qed

context store_call
begin

lemma execute_inbox_integrity:
  assumes p: "platform_ok pf" and i: "integrity pf d"
  shows "integrity pf (snd (execute_inbox pf en msg op hash dec d))"
proof (cases "execute_inbox pf en msg op hash dec d")
  case (Pair r d')
  show ?thesis
  proof (cases r)
    case (Inl e)
    with Pair i show ?thesis by (auto simp: execute_inbox_def dest: with_tx_Inl)
  next
    case (Inr res)
    with Pair have "execute_inbox pf en msg op hash dec d = (Inr res, d')" by simp
    then obtain d1 and row :: inbox_row and t where ins: "insert_inbox_row (msg_row en msg) d = Inr (d1, [])"
      and ex: "execute_tx pf en (im_id msg) op hash dec \<lparr>tx_db = d1, tx_deferred = []\<rparr> = Inr (res, t)"
      and d': "d' = (if i_completed row = None
               then (tx_db t)\<lparr>db_inbox := update_where (is_msg msg)
                       (\<lambda>i. i\<lparr>i_completed := Some (en_dbnow en)\<rparr>) (db_inbox (tx_db t))\<rparr>
               else tx_db t)"
      by (rule execute_inbox_Inr)
    have "integrity pf d1"
      using insert_inbox_row_Inr [OF ins] i integrity_inbox [OF i]
      by (auto simp: integrity_keys)
    with execute_tx_integrity [OF p _ ex] have t: "integrity pf (tx_db t)" by simp
    have "clash_free inbox_clash (db_inbox (tx_db t))" using t by (simp add: integrity_def keys_ok_def)
    from integrity_inbox [OF t complete_inbox_clash_free [OF this]] t show ?thesis
      using d' Pair by simp
  qed
qed

end

end
