(* ===== verification/Resolving.thy ===== *)
theory Resolving
  imports StoreInvariant
begin

text \<open>
  \<^verbatim>\<open>ResolvePendingReference\<close> keeps the integrity of the stored state: postponing a row
  changes its schedule only, settling it posts the decision as an execution does.
\<close>

section \<open>Updating a transaction row\<close>

lemma update_wager_row_Inr:
  assumes "update_wager_row tid f d = Inr (d', evs)" and "find_wager d tid = Some old"
  shows "d' = d\<lparr>db_wagers := update_where (\<lambda>r. t_id r = tid) f (db_wagers d)\<rparr> \<and> evs = [] \<and>
    wager_row_checks (f old) \<and> \<not> terminal (t_status old) \<and> same_wager old (f old) \<and>
    (\<forall>x\<in>set (db_wagers d). t_id x \<noteq> tid \<longrightarrow> \<not> wager_clash (f old) x)"
  using assms unfolding update_wager_row_def
  by (auto simp: rbind_Inr_iff protect_financial_history_def terminal_def list_ex_iff same_wager_def
      split: if_splits)

lemma update_clash_free:
  assumes free: "clash_free wager_clash ws" and d: "distinct (map t_id ws)"
    and old: "old \<in> set ws" "t_id old = tid" "t_id (f old) = tid"
    and new: "\<forall>x\<in>set ws. t_id x \<noteq> tid \<longrightarrow> \<not> wager_clash (f old) x"
  shows "clash_free wager_clash (update_where (\<lambda>r. t_id r = tid) f ws)"
proof -
  let ?u = "\<lambda>r. if t_id r = tid then f r else r"
  have u: "?u x = f old" if "x \<in> set ws" "t_id x = tid" for x
    using that old distinct_map_eqD [OF d that(1) old(1)] by simp
  have "\<not> wager_clash (?u (ws ! i)) (?u (ws ! j))" if ij: "i < j" "j < length ws" for i j
  proof -
    have m: "ws ! i \<in> set ws" "ws ! j \<in> set ws" using ij by simp_all
    have ne: "t_id (ws ! i) \<noteq> t_id (ws ! j)"
      using d ij by (metis distinct_map distinct_conv_nth inj_onD m less_irrefl order_less_trans)
    have base: "\<not> wager_clash (ws ! i) (ws ! j)"
      using free ij by (simp add: clash_free_def sorted_wrt_iff_nth_less)
    consider "t_id (ws ! i) = tid" "t_id (ws ! j) \<noteq> tid"
      | "t_id (ws ! i) \<noteq> tid" "t_id (ws ! j) = tid"
      | "t_id (ws ! i) \<noteq> tid" "t_id (ws ! j) \<noteq> tid" using ne by metis
    then show ?thesis
    proof cases
      case 1
      with u [OF m(1) 1(1)] new m(2) show ?thesis by simp
    next
      case 2
      have "\<not> wager_clash (f old) (ws ! i)" using 2 new m(1) by blast
      then have "\<not> wager_clash (ws ! i) (f old)" using wager_clash_sym by blast
      with u [OF m(2) 2(2)] 2 show ?thesis by simp
    next
      case 3
      with base show ?thesis by simp
    qed
  qed
  then show ?thesis
    by (simp add: clash_free_def update_where_def sorted_wrt_iff_nth_less)
qed

lemma pending_kind:
  assumes "wager_ok pf d t" and "t_status t = PendingReference"
  shows "external_kind (t_kind t)"
proof -
  let ?d = "(row_data t)\<lparr>wd_created := 1, wd_updated := 1\<rparr>"
  have v: "validate_wager (pf_known pf) ?d = Inr ()" using assms(1) by (simp add: wager_ok_def)
  have "wd_kind ?d \<noteq> Opening"
    by (rule pending_not_opening [OF v]) (simp add: row_data_def assms(2))
  from validate_wager_operation [OF v this] show ?thesis
    by (auto simp: row_data_def external_kind_def validate_operation_ok)
qed

lemma unsettled_pending:
  "wager_ok pf d t \<Longrightarrow> \<not> terminal (t_status t) \<Longrightarrow> t_status t = PendingReference"
  unfolding wager_ok_def wager_row_checks_def terminal_def by blast

text \<open>An update that leaves the identity of the row alone keeps the table.\<close>

lemma update_keeps:
  assumes keys: "keys_ok d" and upd: "update_wager_row tid f d = Inr (d', evs)"
    and old: "find_wager d tid = Some old" and ok: "wager_ok pf d old"
    and same: "t_id (f old) = t_id old" "t_kind (f old) = t_kind old"
      "t_wallet (f old) = t_wallet old" "t_amount (f old) = t_amount old"
      "t_currency (f old) = t_currency old"
  shows "keeps (db_wagers d) (db_wagers d') (f old)"
proof -
  note u = update_wager_row_Inr [OF upd old]
  have o: "old \<in> set (db_wagers d)" "t_id old = tid" using old keys by (simp_all add: find_wager_Some)
  note dist = distinct_wagers [OF keys]
  let ?u = "\<lambda>r. if t_id r = tid then f r else r"
  have only: "x = old" if "x \<in> set (db_wagers d)" "t_id x = tid" for x
    using distinct_map_eqD [OF dist that(1) o(1)] that o by simp
  have "t_kind old \<noteq> Opening"
    using pending_kind [OF ok unsettled_pending [OF ok]] u by (auto simp: external_kind_def)
  moreover have "clash_free wager_clash (db_wagers d')"
    using u update_clash_free [OF _ dist o(1), of tid f] keys o same by (simp add: keys_ok_def)
  moreover have "f old \<in> set (db_wagers d')"
    using u o by (auto simp: set_update_where image_iff intro: bexI [of _ old])
  moreover have "\<exists>t'\<in>set (db_wagers d'). same_wager t t'" if t: "t \<in> set (db_wagers d)" for t
  proof (cases "t_id t = tid")
    case True
    with only [OF t] have "t = old" by simp
    moreover have "same_wager old (f old)" using u by blast
    ultimately show ?thesis using \<open>f old \<in> set (db_wagers d')\<close> by blast
  next
    case False
    with t have "t \<in> set (db_wagers d')" using u by (auto simp: set_update_where image_iff intro: bexI [of _ t])
    then show ?thesis by (auto simp: same_wager_def)
  qed
  moreover have "t' \<in> set (db_wagers d) \<or> t' = f old" if t': "t' \<in> set (db_wagers d')" for t'
  proof -
    from t' u obtain t where t: "t \<in> set (db_wagers d)" "t' = ?u t" by (auto simp: set_update_where)
    show ?thesis
    proof (cases "t_id t = tid")
      case True
      with t only [OF t(1)] show ?thesis by simp
    next
      case False
      with t show ?thesis by simp
    qed
  qed
  moreover have "\<not> terminal (t_status t)" if t: "t \<in> set (db_wagers d)" "t_id t = t_id (f old)" for t
  proof -
    from t(2) same o have "t_id t = tid" by simp
    with only [OF t(1)] u show ?thesis by simp
  qed
  ultimately show ?thesis using same by (simp add: keeps_def)
qed

section \<open>The row as an operation\<close>

lemma row_operation_Inr:
  assumes "row_operation pf r = Inr op"
  shows "op_wallet op = t_wallet r \<and> op_player op = t_player r \<and> op_kind op = t_kind r \<and>
    op_money op = \<lparr>minor = t_amount r, currency = t_currency r\<rparr> \<and>
    t_provider r = Some (op_provider op) \<and> t_external r = Some (op_external op) \<and>
    t_key r = Some (op_key op) \<and> t_round r = Some (op_round op) \<and>
    t_ref_external r = Some (op_reference op)"
  using assms
  by (auto simp: row_operation_def rbind_Inr_iff money_from_minor_Inr split: option.splits)

lemma next_due_Some:
  assumes "next_due en d = Some r"
  shows "r \<in> set (db_wagers d) \<and> t_status r = PendingReference \<and> due en r"
  using find_SomeD [OF assms [unfolded next_due_def]] by (auto simp: due_def)

text \<open>Postponing a row.\<close>

lemma postpone_ok:
  assumes "wager_ok pf d r" and "t_status r = PendingReference" and "0 \<le> n" and "n \<le> 9"
  shows "wager_ok pf d (postpone_row pf n delay now r)"
proof -
  have "(row_data (postpone_row pf n delay now r))\<lparr>wd_created := 1, wd_updated := 1\<rparr> =
      (row_data r)\<lparr>wd_created := 1, wd_updated := 1\<rparr>"
    by (simp add: row_data_def postpone_row_def split: option.split)
  moreover have "wager_row_checks (postpone_row pf n delay now r) = wager_row_checks r"
    by (simp only: wager_row_checks_def identity_columns_def postpone_row_def wager_row.simps)
       simp
  ultimately show ?thesis
    using assms by (simp add: wager_ok_def postpone_row_def split: option.splits)
qed

section \<open>Settling\<close>

text \<open>A decision function whose decisions carry a failure code exactly when they should.\<close>

locale settling_call = store_call +
  assumes dec_code: "dec w ref now = (dn, w') \<Longrightarrow>
    (d_failure dn \<noteq> [] \<longleftrightarrow> d_status dn = Rejected \<or> d_status dn = Failed)"
begin

lemma settled_ok:
  assumes ok: "wager_ok pf d r" and st: "t_status r = PendingReference"
    and w: "find_wallet d (t_wallet r) = Some wr" "load_wallet pf wr = Inr w"
    and dec: "dec w ref now = (dn, w')" and ext: "external_kind (op_kind op)"
    and next_st: "d_status dn = PendingReference \<or> terminal (d_status dn)"
    and checks: "wager_row_checks (settle_row pf dn w' now r)"
    and done_st: "d_status dn \<noteq> PendingReference"
  shows "wager_ok pf d (settle_row pf dn w' now r)"
proof -
  let ?d = "(row_data r)\<lparr>wd_created := 1, wd_updated := 1\<rparr>"
  have v: "validate_wager (pf_known pf) ?d = Inr ()" using ok by (simp add: wager_ok_def)
  have cur: "wr_currency wr = t_currency r" using ok w by (simp add: wager_ok_def)
  have wv: "wallet_valid (pf_known pf) w" "currency (w_balance w) = t_currency r"
    using w(2) cur by (auto simp: load_wallet_Inr)
  have w': "wallet_valid (pf_known pf) w'" "currency (w_balance w') = t_currency r"
    using dec_balance_valid [OF dec ext wv(1)] dec_still [OF dec ext] dec_movement [OF dec ext] wv(2)
    by metis+
  have ref: "d_reference dn \<noteq> 0 \<longrightarrow> d_status dn = Processed"
    using dec_still [OF dec ext] dec_moves [OF dec ext] by metis
  have "transition_allowed (pf_known pf) ?d (d_status dn) (d_failure dn) (w_balance w') (d_reference dn) 1"
    using st next_st w' ref dec_code [OF dec] wallet_validD(1,2) [OF w'(1)]
    by (simp add: transition_allowed_def row_data_def)
  from validate_wager_next [OF v this]
  have "validate_wager (pf_known pf) ((row_data (settle_row pf dn w' now r))\<lparr>wd_created := 1, wd_updated := 1\<rparr>)
    = Inr ()"
  proof -
    have "\<lparr>minor = minor (w_balance w'), currency = t_currency r\<rparr> = w_balance w'"
      using w'(2) by (simp add: money_mk)
    with \<open>validate_wager (pf_known pf) (?d\<lparr>wd_status := _, wd_failure := _, wd_result := _,
        wd_ref_id := _, wd_updated := _\<rparr>) = Inr ()\<close> show ?thesis
      by (simp add: row_data_def settle_row_def)
  qed
  then show ?thesis
    using ok checks w done_st next_st cur
    by (auto simp: wager_ok_def settle_row_def)
qed

lemma settled:
  assumes p: "platform_ok pf" and i: "integrity pf d"
    and r: "r \<in> set (db_wagers d)" "t_status r = PendingReference" "row_operation pf r = Inr op"
    and w: "find_wallet d (op_wallet op) = Some wr" "load_wallet pf wr = Inr w"
    and ref: "ref = None \<or> load_reference pf rp rx d = Inr ref"
    and dec: "dec w ref (en_now en) = (dn, w')" and st: "d_status dn \<noteq> PendingReference"
    and settle: "settle pf en op (t_id r) dn w' \<lparr>tx_db = d, tx_deferred = evs\<rparr> = Inr (b, t')"
  shows "integrity pf (tx_db t') \<and> b \<and> terminal (d_status dn) \<and>
    keeps (db_wagers d)
      (update_where (\<lambda>x. t_id x = t_id r) (settle_row pf dn w' (en_now en)) (db_wagers d))
      (settle_row pf dn w' (en_now en) r) \<and>
    (\<exists>os. queued_all en (op_wallet op) (event_types dn) os \<and> tx_db t' = emit (posted_db pf en op
       (update_where (\<lambda>x. t_id x = t_id r) (settle_row pf dn w' (en_now en)) (db_wagers d))
       (t_id r) dn w' (en_now en) wr d) os) \<and>
    (d_direction dn = no_direction \<longrightarrow> w' = w \<and> tx_deferred t' = evs) \<and>
    (d_direction dn \<noteq> no_direction \<longrightarrow>
       tx_deferred t' = evs @ [WalletUpdated wr (moved_row pf w' (en_now en) wr),
         LedgerInserted (movement_entry pf en op (t_id r) dn w' (en_now en))])"
proof -
  let ?f = "settle_row pf dn w' (en_now en)"
  have keys: "keys_ok d" using i by (simp add: integrity_def)
  have old: "find_wager d (t_id r) = Some r" using keys r(1) by (simp add: find_wager_Some)
  note ok = integrity_wager [OF i r(1)]
  note op = row_operation_Inr [OF r(3)]
  have ext: "external_kind (op_kind op)" using pending_kind [OF ok r(2)] op by simp
  from settle obtain d1 evs1 t1 u u' where
    fin: "d_status dn = PendingReference \<or> terminal (d_status dn)"
    and upd: "update_wager_row (t_id r) ?f d = Inr (d1, evs1)"
    and post: "post_movement pf en [] op (t_id r) dn w' (en_now en)
      \<lparr>tx_db = d1, tx_deferred = evs @ evs1\<rparr> = Inr (u, t1)"
    and ev: "add_wager_event pf en [] (op_wallet op) (t_id r) (op_provider op) (op_kind op)
      (d_status dn) (d_failure dn) t1 = Inr (u', t')" and b: b
    by (auto simp: settle_def Let_def tx_bind_Inr tx_lift_Inr tx_run_Inr tx_return_Inr
        rehydrate_state_Inr state_transition_Inr)
  note u = update_wager_row_Inr [OF upd old]
  have same: "t_id (?f r) = t_id r" "t_kind (?f r) = t_kind r" "t_wallet (?f r) = t_wallet r"
    "t_amount (?f r) = t_amount r" "t_currency (?f r) = t_currency r"
    by (simp_all add: settle_row_def)
  have keeps: "keeps (db_wagers d) (db_wagers d1) (?f r)"
    by (rule update_keeps [OF keys upd old ok same])
  have new_ok: "wager_ok pf d (?f r)"
    by (rule settled_ok [OF ok r(2) _ w(2) dec ext fin _ st]) (use w op u in simp_all)
  have tr: "t_id (?f r) = t_id r" "t_wallet (?f r) = op_wallet op" "t_kind (?f r) = op_kind op"
    "t_amount (?f r) = minor (op_money op)" "t_currency (?f r) = currency (op_money op)"
    "t_status (?f r) = d_status dn" "t_ref (?f r) = nullable_id (d_reference dn)"
    using op by (simp_all add: settle_row_def)
  have "post_movement pf en [] op (t_id r) dn w' (en_now en)
      \<lparr>tx_db = d\<lparr>db_wagers := db_wagers d1\<rparr>, tx_deferred = evs\<rparr> = Inr (u, t1)"
    using post u by simp
  from call_posted [OF p i w dec ext ref keeps new_ok tr this ev] u b fin st keeps
  show ?thesis by simp
qed

end

text \<open>
  The two decisions a row is settled with: that of \<^verbatim>\<open>Decide\<close>, and, after the tenth
  attempt, the rejection that replaces it.
\<close>

definition expire_decision ::
    "wallet \<Rightarrow> reference option \<Rightarrow> time \<Rightarrow> decision \<times> wallet" where
  "expire_decision w ref now = (plain_decision Rejected ''REFERENCE_NOT_FOUND'', w)"

lemma decide_code:
  assumes "decide known op w ref now = (dn, w')"
  shows "(d_failure dn \<noteq> [] \<longleftrightarrow> d_status dn = Rejected \<or> d_status dn = Failed) \<and>
    d_status dn \<in> {Processed, PendingReference, Rejected}"
  using assms
proof (cases rule: decide_cases)
  case checks
  from decide_checks_outcome [OF checks(1)] show ?thesis by auto
qed auto

lemma pending_keeps_wallet:
  assumes "decide known op w ref now = (dn, w')" and "d_status dn = PendingReference"
  shows "w' = w"
  using assms(1) by (cases rule: decide_cases) (use assms(2) in auto)

interpretation dsc: settling_call pf op "decide (pf_known pf) op" for pf op
proof
  show "(d_failure dn \<noteq> [] \<longleftrightarrow> d_status dn = Rejected \<or> d_status dn = Failed)"
    if "decide (pf_known pf) op w ref now = (dn, w')" for w ref now dn w'
    using decide_code [OF that] by simp
qed

interpretation fsc: store_call pf op "fail_decision failure" for pf op failure ..

interpretation esc: settling_call pf op expire_decision for pf op
  by unfold_locales (auto simp: expire_decision_def)

section \<open>The resolver\<close>

text \<open>A call that finds a row due reads its operation, the wallet and the reference.\<close>

lemma resolve_due:
  assumes "resolve_pending_reference pf en d = (Inr b, d')" and "next_due en d = Some r"
  obtains op wr w ref t where "row_operation pf r = Inr op"
    and "find_wallet d (op_wallet op) = Some wr" and "load_wallet pf wr = Inr w"
    and "load_reference pf (op_provider op) (op_reference op) d = Inr ref"
    and "resolve_row pf en r op w ref \<lparr>tx_db = d, tx_deferred = []\<rparr> = Inr (b, t)"
    and "d' = tx_db t" and "list_all (deferred_ok d') (tx_deferred t)"
  using assms unfolding resolve_pending_reference_def
  by (auto simp: with_tx_Inr tx_bind_Inr tx_get_Inr tx_lift_Inr locked_wallet_Inr)

text \<open>Postponing a row writes it and leaves nothing to check at the commit.\<close>

lemma postponed_Inr:
  assumes "tx_bind (tx_run (update_wager_row u (postpone_row pf n delay now))) (\<lambda>_. tx_return True)
      \<lparr>tx_db = d, tx_deferred = []\<rparr> = Inr (b, t)"
  shows "b \<and> update_wager_row u (postpone_row pf n delay now) d = Inr (tx_db t, [])"
  using assms
  by (auto simp: tx_bind_Inr tx_run_Inr tx_return_Inr update_wager_row_def rbind_Inr_iff
      split: option.splits if_splits)

text \<open>What a successful call did: found nothing due, postponed a row, or settled one.\<close>

lemma resolve_cases:
  assumes "resolve_pending_reference pf en d = (Inr b, d')"
  obtains (idle) "next_due en d = None" "\<not> b" "d' = d"
  | (postponed) r op wr w ref dn delay where "next_due en d = Some r" "row_operation pf r = Inr op"
      "find_wallet d (op_wallet op) = Some wr" "load_wallet pf wr = Inr w"
      "load_reference pf (op_provider op) (op_reference op) d = Inr ref"
      "decide (pf_known pf) op w ref (en_now en) = (dn, w)" "d_status dn = PendingReference"
      "t_attempts r + 1 < 10" "retry_delay (t_attempts r + 1) = Some delay" "b"
      "update_wager_row (t_id r) (postpone_row pf (t_attempts r + 1) delay (en_now en)) d = Inr (d', [])"
  | (expired) r op wr w ref dn t where "next_due en d = Some r" "row_operation pf r = Inr op"
      "find_wallet d (op_wallet op) = Some wr" "load_wallet pf wr = Inr w"
      "load_reference pf (op_provider op) (op_reference op) d = Inr ref"
      "decide (pf_known pf) op w ref (en_now en) = (dn, w)" "d_status dn = PendingReference"
      "10 \<le> t_attempts r + 1"
      "settle pf en op (t_id r) (plain_decision Rejected ''REFERENCE_NOT_FOUND'') w
         \<lparr>tx_db = d, tx_deferred = []\<rparr> = Inr (b, t)"
      "d' = tx_db t" "list_all (deferred_ok d') (tx_deferred t)"
  | (resolved) r op wr w ref dn w' t where "next_due en d = Some r" "row_operation pf r = Inr op"
      "find_wallet d (op_wallet op) = Some wr" "load_wallet pf wr = Inr w"
      "load_reference pf (op_provider op) (op_reference op) d = Inr ref"
      "decide (pf_known pf) op w ref (en_now en) = (dn, w')" "d_status dn \<noteq> PendingReference"
      "settle pf en op (t_id r) dn w' \<lparr>tx_db = d, tx_deferred = []\<rparr> = Inr (b, t)"
      "d' = tx_db t" "list_all (deferred_ok d') (tx_deferred t)"
proof (cases "next_due en d")
  case None
  with assms show thesis
    by (intro idle)
       (auto simp: resolve_pending_reference_def with_tx_Inr tx_bind_Inr tx_get_Inr tx_return_Inr)
next
  case (Some r)
  from resolve_due [OF assms Some] obtain op wr w ref t where o: "row_operation pf r = Inr op"
    "find_wallet d (op_wallet op) = Some wr" "load_wallet pf wr = Inr w"
    "load_reference pf (op_provider op) (op_reference op) d = Inr ref"
    and rest: "resolve_row pf en r op w ref \<lparr>tx_db = d, tx_deferred = []\<rparr> = Inr (b, t)"
    and c: "d' = tx_db t" "list_all (deferred_ok d') (tx_deferred t)" .
  obtain dn w' where dec: "decide (pf_known pf) op w ref (en_now en) = (dn, w')" by fastforce
  show thesis
  proof (cases "d_status dn = PendingReference")
    case False
    with rest dec have "settle pf en op (t_id r) dn w' \<lparr>tx_db = d, tx_deferred = []\<rparr> = Inr (b, t)"
      by (simp add: resolve_row_def)
    with Some o dec False c show thesis by (intro resolved)
  next
    case True
    have w: "w' = w" using pending_keeps_wallet [OF dec True] .
    note base = Some o dec [unfolded w] True
    show thesis
    proof (cases "10 \<le> t_attempts r + 1")
      case late: True
      with rest dec True w have "settle pf en op (t_id r)
          (plain_decision Rejected ''REFERENCE_NOT_FOUND'') w
          \<lparr>tx_db = d, tx_deferred = []\<rparr> = Inr (b, t)"
        by (simp add: resolve_row_def)
      with base late c show thesis by (intro expired)
    next
      case early: False
      with rest dec True obtain delay where delay: "retry_delay (t_attempts r + 1) = Some delay"
        by (cases "retry_delay (t_attempts r + 1)") (auto simp: resolve_row_def)
      with early rest dec True c have "b"
        "update_wager_row (t_id r) (postpone_row pf (t_attempts r + 1) delay (en_now en)) d = Inr (d', [])"
        using postponed_Inr [of "t_id r" pf "t_attempts r + 1" delay "en_now en" d b t]
        by (simp_all add: resolve_row_def)
      with base early delay show thesis by (intro postponed) auto
    qed
  qed
qed

lemma postpone_integrity:
  assumes i: "integrity pf d" and r: "r \<in> set (db_wagers d)" "t_status r = PendingReference"
    and n: "0 \<le> n" "n \<le> 9"
    and upd: "update_wager_row (t_id r) (postpone_row pf n delay now) d = Inr (d', [])"
  shows "integrity pf d'"
proof -
  let ?f = "postpone_row pf n delay now"
  have keys: "keys_ok d" using i by (simp add: integrity_def)
  have old: "find_wager d (t_id r) = Some r" using keys r(1) by (simp add: find_wager_Some)
  note ok = integrity_wager [OF i r(1)]
  have keeps: "keeps (db_wagers d) (db_wagers d') (?f r)"
    by (rule update_keeps [OF keys upd old ok]) (simp_all add: postpone_row_def)
  have d': "d' = d\<lparr>db_wagers := db_wagers d'\<rparr>"
    using update_wager_row_Inr [OF upd old] by simp
  have st: "t_status (?f r) = PendingReference" using r(2) by (simp add: postpone_row_def)
  have "integrity_but pf d' (t_id (?f r))"
    using one_row_changes [OF i keeps postpone_ok [OF ok r(2) n]] st d'
    by (simp add: reversal_ok_def processed_reversal_def)
  then show ?thesis
    by (rule no_movement) (use keeps st in \<open>auto simp: keeps_def moves_money_def\<close>)
qed

lemma resolve_integrity:
  assumes p: "platform_ok pf" and i: "integrity pf d"
  shows "integrity pf (snd (resolve_pending_reference pf en d))"
proof (cases "resolve_pending_reference pf en d")
  case (Pair res d')
  show ?thesis
  proof (cases res)
    case (Inl e)
    with Pair i show ?thesis by (auto simp: resolve_pending_reference_def dest: with_tx_Inl)
  next
    case (Inr b)
    with Pair have "resolve_pending_reference pf en d = (Inr b, d')" by simp
    then have "integrity pf d'"
    proof (cases rule: resolve_cases)
      case idle
      with i show ?thesis by simp
    next
      case (postponed r)
      note n = next_due_Some [OF postponed(1)]
      have "0 \<le> t_attempts r" using integrity_wager [OF i] n by (simp add: wager_ok_def)
      then show ?thesis
        using postpone_integrity [OF i _ _ _ _ postponed(11)] n postponed(8) by simp
    next
      case (expired r op wr w ref dn t)
      note n = next_due_Some [OF expired(1)]
      from esc.settled [OF p i _ _ expired(2,3,4) disjI2 [OF expired(5)] _ _ expired(9)] n
      show ?thesis by (simp add: expire_decision_def expired(10))
    next
      case (resolved r op wr w ref dn w' t)
      note n = next_due_Some [OF resolved(1)]
      from dsc.settled [OF p i _ _ resolved(2,3,4) disjI2 [OF resolved(5)] resolved(6,7,8)] n
      show ?thesis by (simp add: resolved(9))
    qed
    with Pair show ?thesis by simp
  qed
qed

end
