(* ===== verification/Opening.thy ===== *)
theory Opening
  imports Resolving
begin

text \<open>
  \<^verbatim>\<open>CreateWallet\<close> keeps the integrity of the stored state: an empty wallet starts at
  balance 0 and version 1 with no ledger, a funded one with its OPENING transaction and the
  credit of version 1.
\<close>

definition new_wallet_row :: "platform \<Rightarrow> wallet \<Rightarrow> wallet_row" where
  "new_wallet_row pf w =
     \<lparr>wr_id = w_id w, wr_player = w_player w, wr_currency = currency (w_balance w),
      wr_balance = minor (w_balance w), wr_version = 1,
      wr_created = pf_stamp pf (w_created w), wr_updated = pf_stamp pf (w_created w)\<rparr>"

definition opening_row :: "env \<Rightarrow> wallet \<Rightarrow> wager_row" where
  "opening_row en w =
     \<lparr>t_id = en_tx en, t_external = None, t_provider = None, t_key = None, t_hash = None,
      t_wallet = w_id w, t_player = w_player w, t_round = None, t_game = None,
      t_kind = Opening, t_amount = minor (w_balance w), t_currency = currency (w_balance w),
      t_ref_external = None, t_ref = None, t_status = Processed, t_failure = None,
      t_result = Some (minor (w_balance w)), t_attempts = 0, t_next = None,
      t_created = en_dbnow en, t_updated = en_dbnow en\<rparr>"

definition opening_entry :: "platform \<Rightarrow> env \<Rightarrow> wallet \<Rightarrow> ledger_row" where
  "opening_entry pf en w =
     \<lparr>l_id = en_entry en, l_wallet = w_id w, l_transaction = en_tx en, l_direction = Credit,
      l_amount = minor (w_balance w), l_before = 0, l_after = minor (w_balance w), l_version = 1,
      l_created = pf_stamp pf (w_created w)\<rparr>"

definition add_wallet :: "wallet_row \<Rightarrow> db \<Rightarrow> db" where
  "add_wallet r d = d\<lparr>db_wallets := db_wallets d @ [r]\<rparr>"

definition add_opening :: "wager_row \<Rightarrow> ledger_row \<Rightarrow> db \<Rightarrow> db" where
  "add_opening t l d = d\<lparr>db_wagers := db_wagers d @ [t], db_ledger := db_ledger d @ [l]\<rparr>"

section \<open>What the statements did\<close>

lemma insert_wallet_row_Inr:
  assumes "insert_wallet_row r d = Inr (d', evs)"
  shows "d' = add_wallet r d \<and> evs = [WalletInserted r] \<and>
    (\<forall>x\<in>set (db_wallets d). \<not> wallet_clash r x)"
  using assms
  by (auto simp: insert_wallet_row_def add_wallet_def wallet_clash_def list_ex_iff split: if_splits)

lemma insert_ledger_row_Inr:
  assumes "insert_ledger_row l d = Inr (d', evs)"
  shows "d' = d\<lparr>db_ledger := db_ledger d @ [l]\<rparr> \<and> evs = [LedgerInserted l] \<and>
    ledger_row_checks l \<and> (\<forall>x\<in>set (db_ledger d). \<not> ledger_clash l x)"
  using assms by (auto simp: insert_ledger_row_def list_ex_iff split: if_splits)

text \<open>The statements of an opening; \<open>os\<close> are its events.\<close>

lemma post_opening_Inr:
  assumes "is_positive (pf_known pf) (w_balance w)" and "clash_free outbox_clash (db_outbox d)"
    and "post_opening pf en w \<lparr>tx_db = d, tx_deferred = evs\<rparr> = Inr (u, t)"
  obtains os where
      "new_opening (pf_known pf) (en_tx en) (w_id w) (w_player w) (w_balance w) (w_created w) \<noteq>
         Inl ErrInvalidTransaction"
      "t = \<lparr>tx_db = emit (add_opening (opening_row en w) (opening_entry pf en w) d) os,
            tx_deferred = evs @ [LedgerInserted (opening_entry pf en w)]\<rparr>"
      "wager_row_checks (opening_row en w)"
      "\<forall>x\<in>set (db_wagers d). \<not> wager_clash (opening_row en w) x"
      "ledger_row_checks (opening_entry pf en w)"
      "\<forall>x\<in>set (db_ledger d). \<not> ledger_clash (opening_entry pf en w) x"
      "clash_free outbox_clash (db_outbox d @ os)"
proof -
  let ?z = "\<lparr>minor = 0, currency = currency (w_balance w)\<rparr>"
  have z: "money_of_zero (pf_known pf) (currency (w_balance w)) = ?z"
    using assms(1) by (simp add: money_of_zero_def money_from_minor_def is_positive_def money_valid_def)
  have row: "insert_wager_row
        \<lparr>t_id = wd_id opn, t_external = None, t_provider = None, t_key = None,
         t_hash = None, t_wallet = w_id w, t_player = w_player w, t_round = None,
         t_game = None, t_kind = Opening, t_amount = minor (wd_money opn),
         t_currency = currency (wd_money opn), t_ref_external = None, t_ref = None,
         t_status = Processed, t_failure = None, t_result = Some (minor (wd_money opn)),
         t_attempts = 0, t_next = None, t_created = en_dbnow en, t_updated = en_dbnow en\<rparr> =
      insert_wager_row (opening_row en w)"
    if "new_opening (pf_known pf) (en_tx en) (w_id w) (w_player w) (w_balance w) (w_created w) = Inr opn" for opn
    using that by (auto simp: new_opening_def opening_row_def Let_def rbind_Inr_iff)
  from assms(3) obtain opn d2 evs2 t4 t5 where
    opn: "new_opening (pf_known pf) (en_tx en) (w_id w) (w_player w) (w_balance w) (w_created w) = Inr opn"
    and wag: "insert_wager_row (opening_row en w) d = Inr (d2, evs2)"
    and led: "insert_ledger pf en (w_id w) (en_tx en) Credit (w_balance w) ?z (w_balance w) 1 (w_created w)
       \<lparr>tx_db = d2, tx_deferred = evs @ evs2\<rparr> = Inr ((), t4)"
    and ev1: "add_wager_event pf en [] (w_id w) (en_tx en) [] Opening Processed [] t4 = Inr ((), t5)"
    and ev2: "add_balance_event pf en [] (w_id w) (en_tx en) Credit (w_balance w) ?z (w_balance w) 1 t5 = Inr (u, t)"
    unfolding post_opening_def Let_def z
    by (auto simp: tx_bind_Inr tx_lift_Inr tx_run_Inr row)
  note w' = insert_wager_row_Inr [OF wag] and l' = insert_ledger_Inr [OF led]
  have "clash_free outbox_clash (db_outbox (tx_db t4))" using assms(2) l' w' by simp
  from add_wager_event_Inr [OF ev1 this] obtain os where
    os: "clash_free outbox_clash (db_outbox (tx_db t4) @ os)"
      "t5 = \<lparr>tx_db = emit (tx_db t4) os, tx_deferred = tx_deferred t4\<rparr>" by blast
  from ev2 obtain e where e: "add_event pf en e t5 = Inr (u, t)"
    by (auto simp: add_balance_event_def tx_bind_Inr tx_lift_Inr)
  have "clash_free outbox_clash (db_outbox (tx_db t5))" using os by simp
  from add_event_Inr [OF e this] obtain ob where
    ob: "clash_free outbox_clash (db_outbox (tx_db t5) @ [ob])"
      "t = \<lparr>tx_db = emit (tx_db t5) [ob], tx_deferred = tx_deferred t5\<rparr>" by blast
  show thesis
    by (rule that [of "os @ [ob]"])
       (use opn w' l' os ob in \<open>auto simp: opening_entry_def add_opening_def\<close>)
qed

text \<open>\<open>os\<close> are the events of the opening, none for an empty wallet.\<close>

lemma create_wallet_Inr:
  assumes "create_wallet pf en w d = (Inr u, d')" and "clash_free outbox_clash (db_outbox d)"
  obtains (empty) "\<not> is_positive (pf_known pf) (w_balance w)" "d' = add_wallet (new_wallet_row pf w) d"
      "\<forall>x\<in>set (db_wallets d). \<not> wallet_clash (new_wallet_row pf w) x"
      "deferred_ok d' (WalletInserted (new_wallet_row pf w))"
  | (funded) os where "is_positive (pf_known pf) (w_balance w)"
      "new_opening (pf_known pf) (en_tx en) (w_id w) (w_player w) (w_balance w) (w_created w) \<noteq>
         Inl ErrInvalidTransaction"
      "d' = emit (add_opening (opening_row en w) (opening_entry pf en w)
                   (add_wallet (new_wallet_row pf w) d)) os"
      "\<forall>x\<in>set (db_wallets d). \<not> wallet_clash (new_wallet_row pf w) x"
      "wager_row_checks (opening_row en w)"
      "\<forall>x\<in>set (db_wagers d). \<not> wager_clash (opening_row en w) x"
      "ledger_row_checks (opening_entry pf en w)"
      "\<forall>x\<in>set (db_ledger d). \<not> ledger_clash (opening_entry pf en w) x"
      "clash_free outbox_clash (db_outbox d @ os)"
      "list_all (deferred_ok d') [WalletInserted (new_wallet_row pf w),
         LedgerInserted (opening_entry pf en w)]"
proof -
  let ?r = "new_wallet_row pf w"
  from assms(1) obtain d1 evs t where ins: "insert_wallet_row ?r d = Inr (d1, evs)"
    and rest: "(if \<not> is_positive (pf_known pf) (w_balance w) then tx_return () else post_opening pf en w)
        \<lparr>tx_db = d1, tx_deferred = evs\<rparr> = Inr (u, t)"
    and c: "d' = tx_db t" "list_all (deferred_ok d') (tx_deferred t)"
    unfolding create_wallet_def new_wallet_row_def Let_def
    by (auto simp: with_tx_Inr tx_bind_Inr tx_run_Inr tx_classify_def simp del: if_split
        split: sum.splits)
  note r = insert_wallet_row_Inr [OF ins]
  show thesis
  proof (cases "is_positive (pf_known pf) (w_balance w)")
    case False
    with rest r c show thesis by (intro empty) (auto simp: tx_return_Inr)
  next
    case True
    have "clash_free outbox_clash (db_outbox d1)" using r assms(2) by (simp add: add_wallet_def)
    moreover have "post_opening pf en w \<lparr>tx_db = d1, tx_deferred = evs\<rparr> = Inr (u, t)"
      using rest True by simp
    ultimately show thesis
      by (rule post_opening_Inr [OF True])
         (rule funded [OF True], use c r in \<open>auto simp: add_wallet_def\<close>)
  qed
qed

section \<open>Adding rows\<close>

text \<open>Every row an identifier finds is still found.\<close>

definition extends :: "db \<Rightarrow> db \<Rightarrow> bool" where
  "extends d d' \<longleftrightarrow>
     (\<forall>i r. find_wallet d i = Some r \<longrightarrow> find_wallet d' i = Some r) \<and>
     (\<forall>i t. find_wager d i = Some t \<longrightarrow> find_wager d' i = Some t)"

lemma extends_wager_ok: "extends d d' \<Longrightarrow> wager_ok pf d t \<Longrightarrow> wager_ok pf d' t"
  by (auto simp: wager_ok_def extends_def split: option.splits)

lemma extends_reversal_ok: "extends d d' \<Longrightarrow> reversal_ok d t \<Longrightarrow> reversal_ok d' t"
  by (fastforce simp: reversal_ok_def extends_def split: option.splits)

lemma extends_direction:
  "extends d d' \<Longrightarrow> expected_direction d s = Some x \<Longrightarrow> expected_direction d' s = Some x"
  by (cases "t_kind s") (auto simp: expected_direction_def extends_def split: option.splits)

lemma extends_entry_ok:
  assumes e: "extends d d'" and ok: "entry_ok d l"
  shows "entry_ok d' l"
proof -
  from ok obtain s w where s: "find_wager d (l_transaction l) = Some s"
    and w: "find_wallet d (l_wallet l) = Some w"
    by (auto simp: entry_ok_def ledger_transaction_ok_def split: option.splits)
  with e have "find_wager d' (l_transaction l) = Some s" "find_wallet d' (l_wallet l) = Some w"
    by (auto simp: extends_def)
  with ok s w extends_direction [OF e] show ?thesis
    by (auto simp: entry_ok_def ledger_transaction_ok_def)
qed

lemma find_append: "find P (xs @ [y]) = (case find P xs of None \<Rightarrow> if P y then Some y else None | Some x \<Rightarrow> Some x)"
  by (induction xs) auto

lemma extends_add_wallet: "extends d (add_wallet r d)"
  by (simp add: extends_def add_wallet_def find_wallet_def find_wager_def find_append)

lemma extends_add_opening: "extends d (add_opening t l d)"
  by (simp add: extends_def add_opening_def find_wallet_def find_wager_def find_append)

lemma extends_trans: "extends d d' \<Longrightarrow> extends d' d'' \<Longrightarrow> extends d d''"
  by (simp add: extends_def)

lemma fresh_wallet:
  assumes i: "integrity pf d" and fresh: "\<forall>x\<in>set (db_wallets d). \<not> wallet_clash r x"
  shows "entries d (wr_id r) = [] \<and> \<not> opened d (wr_id r) \<and> find_wallet d (wr_id r) = None"
proof -
  have keys: "keys_ok d" using i by (simp add: integrity_def)
  have none: "find_wallet d (wr_id r) = None"
    using fresh by (auto simp: find_wallet_def find_None_iff wallet_clash_def)
  have "l_wallet l \<noteq> wr_id r" if "l \<in> set (db_ledger d)" for l
    using i that none by (auto simp: integrity_def list_all_iff entry_ok_def)
  moreover have "t_wallet t \<noteq> wr_id r" if "t \<in> set (db_wagers d)" for t
    using integrity_wager [OF i that] none by (auto simp: wager_ok_def)
  ultimately show ?thesis
    using none by (auto simp: entries_def opened_def list_ex_iff filter_empty_conv)
qed

lemma new_wallet_row_ok:
  assumes "platform_ok pf" and "wallet_valid (pf_known pf) w" and "0 < pf_stamp pf (w_created w)"
  shows "wallet_ok pf (new_wallet_row pf w)"
  using assms
  by (auto simp: wallet_ok_iff load_wallet_Inr new_wallet_row_def wallet_valid_def money_valid_def
      platform_ok_def go_int)

lemma wallet_clash_free_append:
  assumes "clash_free wallet_clash rs" and "\<forall>x\<in>set rs. \<not> wallet_clash r x"
  shows "clash_free wallet_clash (rs @ [r])"
  using assms by (auto simp: clash_free_append wallet_clash_def)

lemma empty_wallet_integrity:
  assumes i: "integrity pf d" and ok: "wallet_ok pf r" and fresh: "\<forall>x\<in>set (db_wallets d). \<not> wallet_clash r x"
    and zero: "wr_balance r = 0" "wr_version r = 1"
  shows "integrity pf (add_wallet r d)"
proof -
  let ?d = "add_wallet r d"
  note e = extends_add_wallet [of d r] and f = fresh_wallet [OF i fresh]
  have t [simp]: "db_wallets ?d = db_wallets d @ [r]" "db_wagers ?d = db_wagers d"
    "db_ledger ?d = db_ledger d" "db_outbox ?d = db_outbox d" "db_inbox ?d = db_inbox d"
    by (simp_all add: add_wallet_def)
  have bal: "balanced ?d x = balanced d x" for x
    by (simp add: balanced_def chain_start_def entries_def opened_def)
  have "balanced d r" using f zero by (simp add: balanced_def chain_start_def)
  moreover have "posted ?d x = posted d x" for x by (simp add: posted_def)
  ultimately show ?thesis
    using i ok fresh extends_wager_ok [OF e] extends_reversal_ok [OF e] extends_entry_ok [OF e]
    by (auto simp: integrity_def keys_ok_def list_all_iff bal intro: wallet_clash_free_append)
qed

lemma funded_wallet_integrity:
  assumes i: "integrity pf d" and ok: "wallet_ok pf r" and fresh: "\<forall>x\<in>set (db_wallets d). \<not> wallet_clash r x"
    and t: "wager_ok pf (add_wallet r d) t" "t_kind t = Opening" "t_status t = Processed"
      "t_wallet t = wr_id r" "t_currency t = wr_currency r"
      "\<forall>x\<in>set (db_wagers d). \<not> wager_clash t x"
    and l: "ledger_row_checks l" "l_transaction l = t_id t" "l_wallet l = wr_id r"
      "l_direction l = Credit" "l_amount l = t_amount t" "l_before l = 0" "l_after l = wr_balance r"
      "l_version l = 1" "\<forall>x\<in>set (db_ledger d). \<not> ledger_clash l x"
    and r: "wr_balance r = t_amount t" "wr_version r = 1"
  shows "integrity pf (add_opening t l (add_wallet r d))"
proof -
  let ?d1 = "add_wallet r d" and ?d = "add_opening t l (add_wallet r d)"
  note f = fresh_wallet [OF i fresh]
  have e: "extends d ?d" by (rule extends_trans [OF extends_add_wallet extends_add_opening])
  have tab [simp]: "db_wallets ?d = db_wallets d @ [r]" "db_wagers ?d = db_wagers d @ [t]"
    "db_ledger ?d = db_ledger d @ [l]" "db_outbox ?d = db_outbox d" "db_inbox ?d = db_inbox d"
    by (simp_all add: add_wallet_def add_opening_def)
  have keys: "keys_ok ?d"
    using i fresh t(6) l(9) wager_clash_sym ledger_clash_sym
    by (auto simp: integrity_def keys_ok_def clash_free_append intro!: wallet_clash_free_append)
       (auto simp: wallet_clash_def)
  have fw: "find_wallet ?d (wr_id r) = Some r" using keys by (simp add: find_wallet_Some)
  have ft: "find_wager ?d (t_id t) = Some t" using keys by (simp add: find_wager_Some)
  have br: "balanced ?d r"
    using f l r t by (simp add: balanced_def chain_start_def entries_def opened_def ledger_row_checks_def)
  have bx: "balanced ?d x" if x: "x \<in> set (db_wallets d)" for x
  proof -
    have ne: "wr_id x \<noteq> wr_id r" using fresh x by (auto simp: wallet_clash_def)
    then have "balanced ?d x = balanced d x"
      using l t by (simp add: balanced_def chain_start_def entries_def opened_def)
    with i x show ?thesis by (simp add: integrity_def list_all_iff)
  qed
  have px: "posted ?d x" if "posted d x" for x using that by (auto simp: posted_def)
  have pt: "posted ?d t" using l by (simp add: posted_def)
  have et: "entry_ok ?d l"
    using l t r fw ft
    by (simp add: entry_ok_def ledger_transaction_ok_def expected_direction_def)
  have rt: "reversal_ok ?d t" using t by (simp add: reversal_ok_def processed_reversal_def)
  have wt: "wager_ok pf ?d t" using t(1) by (rule extends_wager_ok [OF extends_add_opening])
  show ?thesis
    using keys i ok br bx px pt et rt wt
      extends_wager_ok [OF e] extends_reversal_ok [OF e] extends_entry_ok [OF e]
    by (simp add: integrity_def list_all_iff)
qed

section \<open>Opening a wallet\<close>

lemma create_wallet_integrity:
  assumes p: "platform_ok pf" and i: "integrity pf d" and v: "wallet_valid (pf_known pf) w"
    and clock: "0 < pf_stamp pf (w_created w)"
  shows "integrity pf (snd (create_wallet pf en w d))"
proof (cases "create_wallet pf en w d")
  case (Pair res d')
  show ?thesis
  proof (cases res)
    case (Inl e)
    with Pair i show ?thesis by (auto simp: create_wallet_def Let_def dest: with_tx_Inl)
  next
    case (Inr u)
    have box: "clash_free outbox_clash (db_outbox d)" using i by (simp add: integrity_def keys_ok_def)
    note ok = new_wallet_row_ok [OF p v clock]
    from Pair Inr have "create_wallet pf en w d = (Inr u, d')" by simp
    then have "integrity pf d'" using box
    proof (cases rule: create_wallet_Inr)
      case empty
      have "minor (w_balance w) = 0"
        using empty(1) wallet_validD(1,2) [OF v] by (simp add: is_positive_sint int64_eq_iff)
      with empty_wallet_integrity [OF i ok empty(3)] empty(2) show ?thesis
        by (simp add: new_wallet_row_def)
    next
      case (funded os)
      let ?t = "opening_row en w" and ?l = "opening_entry pf en w" and ?r = "new_wallet_row pf w"
      have val: "validate_wager (pf_known pf) ((row_data ?t)\<lparr>wd_created := 1, wd_updated := 1\<rparr>) = Inr ()"
        using funded(1,2) v
        by (simp add: row_data_def opening_row_def new_opening_def validate_wager_def Let_def
            rehydrate_transaction_state_def money_mk [THEN iffD2] wallet_valid_def is_positive_def
            split: if_splits)
      have fw: "find_wallet (add_wallet ?r d) (w_id w) = Some ?r"
        using fresh_wallet [OF i funded(4)]
        by (simp add: find_wallet_def add_wallet_def find_append new_wallet_row_def)
      have wag: "wager_ok pf (add_wallet ?r d) ?t"
        using val funded(5) fw by (simp add: wager_ok_def opening_row_def new_wallet_row_def)
      have "integrity pf (add_opening ?t ?l (add_wallet ?r d))"
        by (rule funded_wallet_integrity [OF i ok funded(4) wag _ _ _ _ funded(6,7) _ _ _ _ _ _ _ funded(8)])
           (simp_all add: opening_row_def opening_entry_def new_wallet_row_def)
      from integrity_emit [OF this, of os] funded(3,9) show ?thesis
        by (simp add: add_opening_def add_wallet_def)
    qed
    with Pair show ?thesis by simp
  qed
qed

end
