(* ===== verification/StoreSystem.thy ===== *)
theory StoreSystem
  imports Opening Outbox StoreRead
begin

text \<open>
  The store as a system: its state is the database, its steps are the calls the services and
  the workers make of it, in any order and with any clocks and fresh identifiers. What holds of
  every reachable state is concluded here from the lemmas about the single operations.
\<close>

section \<open>Steps\<close>

inductive store_step :: "platform \<Rightarrow> db \<Rightarrow> db \<Rightarrow> bool" for pf :: platform where
  open_wallet: "new_wallet (pf_known pf) wid player initial now = Inr w \<Longrightarrow> 0 < pf_stamp pf now \<Longrightarrow>
    store_step pf d (snd (create_wallet pf en w d))"
| process: "store_step pf d (snd (execute pf en op hash (decide (pf_known pf) op) d))"
| process_inbox:
    "store_step pf d (snd (execute_inbox pf en msg op hash (decide (pf_known pf) op) d))"
| fail: "store_step pf d (snd (execute pf en op hash (fail_decision failure) d))"
| resolve: "store_step pf d (snd (resolve_pending_reference pf en d))"
| claim: "store_step pf d (snd (claim_outbox en limit d))"
| mark: "store_step pf d (snd (mark_outbox_published en i d))"
| retry: "store_step pf d (snd (retry_outbox en i delay d))"

inductive reachable :: "platform \<Rightarrow> db \<Rightarrow> bool" for pf :: platform where
  start: "reachable pf empty_db"
| step: "reachable pf d \<Longrightarrow> store_step pf d d' \<Longrightarrow> reachable pf d'"

inductive_cases store_stepE: "store_step pf d d'"

lemma step_integrity:
  assumes p: "platform_ok pf" and i: "integrity pf d" and s: "store_step pf d d'"
  shows "integrity pf d'"
  using s
proof cases
  case (open_wallet wid player initial now w en)
  then have "wallet_valid (pf_known pf) w" "w_created w = now"
    by (auto simp: new_wallet_Inr)
  with create_wallet_integrity [OF p i] open_wallet show ?thesis by simp
next
  case process
  with dsc.execute_integrity [OF p i] show ?thesis by simp
next
  case process_inbox
  with dsc.execute_inbox_integrity [OF p i] show ?thesis by simp
next
  case fail
  with fsc.execute_integrity [OF p i] show ?thesis by simp
next
  case resolve
  with resolve_integrity [OF p i] show ?thesis by simp
next
  case claim
  with outbox_integrity(1) [OF i] show ?thesis by simp
next
  case mark
  with outbox_integrity(2) [OF i] show ?thesis by simp
next
  case retry
  with outbox_integrity(3) [OF i] show ?thesis by simp
qed

lemma reachable_ok:
  assumes "platform_ok pf" and "reachable pf d"
  shows "integrity pf d"
  using assms(2)
  by (induction rule: reachable.induct) (auto intro: integrity_empty step_integrity [OF assms(1)])

section \<open>History\<close>

text \<open>
  What a step keeps of the past: the ledger only grows at its end, a settled transaction never
  changes and an unsettled one keeps its identity, a wallet keeps its identity and its version
  never decreases, a message received stays received and an event queued stays queued until it
  is published.
\<close>

definition same_wallet :: "wallet_row \<Rightarrow> wallet_row \<Rightarrow> bool" where
  "same_wallet r r' \<longleftrightarrow>
     wr_id r' = wr_id r \<and> wr_player r' = wr_player r \<and> wr_currency r' = wr_currency r \<and>
     wr_created r' = wr_created r \<and> sint (wr_version r) \<le> sint (wr_version r')"

definition same_message :: "inbox_row \<Rightarrow> inbox_row \<Rightarrow> bool" where
  "same_message i i' \<longleftrightarrow>
     i_consumer i' = i_consumer i \<and> i_message i' = i_message i \<and> i_hash i' = i_hash i \<and>
     i_received i' = i_received i"

definition same_event :: "outbox_row \<Rightarrow> outbox_row \<Rightarrow> bool" where
  "same_event e e' \<longleftrightarrow>
     o_id e' = o_id e \<and> o_aggregate e' = o_aggregate e \<and> o_type e' = o_type e \<and>
     o_payload e' = o_payload e \<and> o_occurred e' = o_occurred e \<and> o_attempts e \<le> o_attempts e' \<and>
     (o_published e \<noteq> None \<longrightarrow> o_published e' = o_published e)"

definition history :: "db \<Rightarrow> db \<Rightarrow> bool" where
  "history d d' \<longleftrightarrow>
     (\<exists>ls. db_ledger d' = db_ledger d @ ls) \<and>
     (\<forall>t\<in>set (db_wagers d). \<exists>t'\<in>set (db_wagers d'). same_wager t t') \<and>
     (\<forall>r\<in>set (db_wallets d). \<exists>r'\<in>set (db_wallets d'). same_wallet r r') \<and>
     (\<forall>i\<in>set (db_inbox d). \<exists>i'\<in>set (db_inbox d'). same_message i i') \<and>
     (\<forall>e\<in>set (db_outbox d). \<exists>e'\<in>set (db_outbox d'). same_event e e')"

lemma same_message_refl [simp]: "same_message i i"
  by (simp add: same_message_def)

lemma same_event_refl [simp]: "same_event e e"
  by (simp add: same_event_def)

lemma kept_message: "i \<in> set is \<Longrightarrow> \<exists>i'\<in>set is. same_message i i'"
  by (rule bexI [of _ i]) simp_all

lemma kept_event: "e \<in> set es \<Longrightarrow> \<exists>e'\<in>set es. same_event e e'"
  by (rule bexI [of _ e]) simp_all

lemma kept_event_append: "e \<in> set es \<Longrightarrow> \<exists>e'\<in>set es \<union> set os. same_event e e'"
  by (rule bexI [of _ e]) simp_all

lemma kept_message_append: "i \<in> set is \<Longrightarrow> \<exists>i'\<in>set is \<union> X. same_message i i'"
  by (rule bexI [of _ i]) simp_all

lemma same_wager_refl [simp]: "same_wager t t"
  by (simp add: same_wager_def)

lemma same_wallet_refl [simp]: "same_wallet r r"
  by (simp add: same_wallet_def)

lemma kept_wager: "t \<in> set ws \<Longrightarrow> \<exists>t'\<in>set ws. same_wager t t'"
  by (rule bexI [of _ t]) simp_all

lemma kept_wallet: "r \<in> set rs \<Longrightarrow> \<exists>r'\<in>set rs. same_wallet r r'"
  by (rule bexI [of _ r]) simp_all

lemma history_refl [simp]: "history d d"
  by (simp add: history_def kept_wager kept_wallet kept_message kept_event)

lemma history_tables:
  "db_ledger d' = db_ledger d \<Longrightarrow> db_wagers d' = db_wagers d \<Longrightarrow> db_wallets d' = db_wallets d \<Longrightarrow>
   (\<And>i. i \<in> set (db_inbox d) \<Longrightarrow> \<exists>i'\<in>set (db_inbox d'). same_message i i') \<Longrightarrow>
   (\<And>e. e \<in> set (db_outbox d) \<Longrightarrow> \<exists>e'\<in>set (db_outbox d'). same_event e e') \<Longrightarrow> history d d'"
  by (simp add: history_def kept_wager kept_wallet kept_message kept_event)

lemma same_wager_trans: "same_wager t t' \<Longrightarrow> same_wager t' t'' \<Longrightarrow> same_wager t t''"
  by (auto simp: same_wager_def)

lemma same_wallet_trans: "same_wallet t t' \<Longrightarrow> same_wallet t' t'' \<Longrightarrow> same_wallet t t''"
  by (auto simp: same_wallet_def)

lemma same_message_trans: "same_message i i' \<Longrightarrow> same_message i' i'' \<Longrightarrow> same_message i i''"
  by (auto simp: same_message_def)

lemma same_event_trans: "same_event e e' \<Longrightarrow> same_event e' e'' \<Longrightarrow> same_event e e''"
  by (auto simp: same_event_def)

lemma same_message_complete [simp]: "same_message i (i\<lparr>i_completed := c\<rparr>)"
  by (simp add: same_message_def)

lemma same_event_updates [simp]:
  "same_event e (e\<lparr>o_claimed := c\<rparr>)"
  "o_published e = None \<Longrightarrow> same_event e (e\<lparr>o_published := p, o_claimed := c\<rparr>)"
  "same_event e (e\<lparr>o_attempts := o_attempts e + 1, o_next := n, o_claimed := c\<rparr>)"
  by (simp_all add: same_event_def)

lemma updated_event:
  assumes "\<And>e. p e \<Longrightarrow> same_event e (f e)" and "e \<in> set es"
  shows "\<exists>e'\<in>set (update_where p f es). same_event e e'"
  using assms by (intro bexI [of _ "if p e then f e else e"]) (auto simp: set_update_where)

lemma updated_message:
  assumes "\<And>i. p i \<Longrightarrow> same_message i (f i)" and "i \<in> set is"
  shows "\<exists>i'\<in>set (update_where p f is). same_message i i'"
  using assms by (intro bexI [of _ "if p i then f i else i"]) (auto simp: set_update_where)

lemma history_trans:
  assumes "history d d'" and "history d' d''"
  shows "history d d''"
  unfolding history_def
proof (intro conjI ballI)
  show "\<exists>ls. db_ledger d'' = db_ledger d @ ls"
    using assms by (auto simp: history_def)
  show "\<exists>t'\<in>set (db_wagers d''). same_wager t t'" if "t \<in> set (db_wagers d)" for t
    using assms that same_wager_trans unfolding history_def by meson
  show "\<exists>r'\<in>set (db_wallets d''). same_wallet r r'" if "r \<in> set (db_wallets d)" for r
    using assms that same_wallet_trans unfolding history_def by meson
  show "\<exists>i'\<in>set (db_inbox d''). same_message i i'" if "i \<in> set (db_inbox d)" for i
    using assms that same_message_trans unfolding history_def by meson
  show "\<exists>e'\<in>set (db_outbox d''). same_event e e'" if "e \<in> set (db_outbox d)" for e
    using assms that same_event_trans unfolding history_def by meson
qed

text \<open>A posting keeps history.\<close>

lemma posted_history:
  assumes k: "keeps (db_wagers d) ws tr" and keys: "keys_ok d"
    and r: "find_wallet d (wr_id r) = Some r"
    and v: "d_direction dn \<noteq> no_direction \<Longrightarrow> sint (wr_version r) \<le> sint (w_version w)"
  shows "history d (emit (posted_db pf en op ws tid dn w now r d) os)"
proof -
  have wag: "\<exists>t'\<in>set ws. same_wager t t'" if "t \<in> set (db_wagers d)" for t
    using k that by (auto simp: keeps_def)
  have wal: "\<exists>r'\<in>set (update_where (\<lambda>x. wr_id x = wr_id r) (\<lambda>_. moved_row pf w now r) (db_wallets d)).
      same_wallet x r'" if x: "x \<in> set (db_wallets d)" and dir: "d_direction dn \<noteq> no_direction" for x
  proof (cases "wr_id x = wr_id r")
    case True
    then have "x = r" using r x keys by (simp add: find_wallet_Some distinct_map_eqD [OF distinct_wallets])
    then show ?thesis
      using x v [OF dir]
      by (intro bexI [of _ "moved_row pf w now r"])
         (auto simp: same_wallet_def moved_row_def set_update_where image_iff)
  next
    case False
    with x show ?thesis by (intro bexI [of _ x]) (auto simp: set_update_where image_iff)
  qed
  show ?thesis
    using wag wal
    by (auto simp: history_def posted_db_def move_wallet_def moved_row_def kept_wallet kept_message
        kept_event_append)
qed

context store_call
begin

lemma call_version:
  assumes "dec w ref now = (dn, w')" and "load_wallet pf r = Inr w" and "external_kind (op_kind op)"
    and "d_direction dn \<noteq> no_direction"
  shows "sint (wr_version r) \<le> sint (w_version w')"
  using dec_movement [OF assms(1,3,4)] assms(2) by (auto simp: load_wallet_Inr)

lemma execute_tx_history:
  assumes p: "platform_ok pf" and i: "integrity pf (tx_db t)"
    and ex: "execute_tx pf en causation op hash dec t = Inr (res, t')"
  shows "history (tx_db t) (tx_db t')"
  using ex
proof (cases rule: execute_tx_cases)
  case replay
  then show ?thesis by simp
next
  case (fresh r w ref)
  have ref: "ref = None \<or> load_reference pf (op_provider op) (op_reference op) (tx_db t) = Inr ref"
    using fresh(4) by (auto split: if_splits)
  have keys: "keys_ok (tx_db t)" using i by (simp add: integrity_def)
  have r: "find_wallet (tx_db t) (wr_id r) = Some r"
    using fresh(1) keys by (simp add: find_wallet_Some)
  show ?thesis
  proof (rule call_executed [OF p i fresh(1,2) ref fresh(5)])
    fix dn w' os
    assume dec: "dec w ref (en_now en) = (dn, w')" and ext: "external_kind (op_kind op)"
      and k: "keeps (db_wagers (tx_db t))
           (db_wagers (tx_db t) @ [operation_row pf en op hash (en_tx en) dn w' (en_now en)])
           (operation_row pf en op hash (en_tx en) dn w' (en_now en))"
      and t': "tx_db t' = emit (posted_db pf en op
           (db_wagers (tx_db t) @ [operation_row pf en op hash (en_tx en) dn w' (en_now en)])
           (en_tx en) dn w' (en_now en) r (tx_db t)) os"
    show ?thesis
      unfolding t' by (rule posted_history [OF k keys r call_version [OF dec fresh(2) ext]])
  qed
qed

lemma execute_history:
  assumes "platform_ok pf" and "integrity pf d"
  shows "history d (snd (execute pf en op hash dec d))"
proof (cases "execute pf en op hash dec d")
  case (Pair r d')
  show ?thesis
  proof (cases r)
    case (Inl e)
    with Pair show ?thesis by (auto simp: execute_def dest: with_tx_Inl)
  next
    case (Inr res)
    with Pair obtain t where "execute_tx pf en [] op hash dec \<lparr>tx_db = d, tx_deferred = []\<rparr> = Inr (res, t)"
      "d' = tx_db t" by (auto simp: execute_def with_tx_Inr)
    with execute_tx_history [OF assms(1) _ this(1)] assms(2) Pair show ?thesis by simp
  qed
qed

lemma execute_inbox_history:
  assumes p: "platform_ok pf" and i: "integrity pf d"
  shows "history d (snd (execute_inbox pf en msg op hash dec d))"
proof (cases "execute_inbox pf en msg op hash dec d")
  case (Pair r d')
  show ?thesis
  proof (cases r)
    case (Inl e)
    with Pair show ?thesis by (auto simp: execute_inbox_def dest: with_tx_Inl)
  next
    case (Inr res)
    with Pair have "execute_inbox pf en msg op hash dec d = (Inr res, d')" by simp
    then obtain d1 and row :: inbox_row and t where ins: "insert_inbox_row (msg_row en msg) d = Inr (d1, [])"
      and ex: "execute_tx pf en (im_id msg) op hash dec \<lparr>tx_db = d1, tx_deferred = []\<rparr> = Inr (res, t)"
      and d': "d' = (if i_completed row = None
               then (tx_db t)\<lparr>db_inbox := update_where (is_msg msg)
                       (\<lambda>i. i\<lparr>i_completed := Some (en_dbnow en)\<rparr>) (db_inbox (tx_db t))\<rparr>
               else tx_db t)"
      by (rule execute_inbox_Inr)
    obtain ib where d1: "d1 = d\<lparr>db_inbox := ib\<rparr>" "clash_free inbox_clash ib"
      using insert_inbox_row_Inr [OF ins integrity_keys [OF i]] by blast
    have "\<exists>i'\<in>set (db_inbox d1). same_message i i'" if "i \<in> set (db_inbox d)" for i
      using ins that kept_message [OF that] kept_message_append [OF that]
      by (auto simp: insert_inbox_row_def split: if_splits)
    then have "history d d1" unfolding d1 by (intro history_tables) (simp_all add: kept_event)
    moreover have "history d1 (tx_db t)"
      using execute_tx_history [OF p _ ex] integrity_inbox [OF i d1(2)] d1(1) by simp
    moreover have "history (tx_db t) d'"
      unfolding d'
      by (rule history_tables)
         (auto simp: kept_event kept_message intro!: updated_message)
    ultimately have "history d d'" by (blast intro: history_trans)
    with Pair show ?thesis by simp
  qed
qed

end

lemma resolve_history:
  assumes p: "platform_ok pf" and i: "integrity pf d"
  shows "history d (snd (resolve_pending_reference pf en d))"
proof (cases "resolve_pending_reference pf en d")
  case (Pair res d')
  have keys: "keys_ok d" using i by (simp add: integrity_def)
  have fw: "find_wallet d (wr_id r) = Some r" if "find_wallet d j = Some r" for r j
    using that keys by (simp add: find_wallet_Some)
  show ?thesis
  proof (cases res)
    case (Inl e)
    with Pair show ?thesis by (auto simp: resolve_pending_reference_def dest: with_tx_Inl)
  next
    case (Inr b)
    with Pair have "resolve_pending_reference pf en d = (Inr b, d')" by simp
    then have "history d d'"
    proof (cases rule: resolve_cases)
      case idle
      then show ?thesis by simp
    next
      case (postponed r op wr w ref dn delay)
      note n = next_due_Some [OF postponed(1)]
      have old: "find_wager d (t_id r) = Some r" using keys n by (simp add: find_wager_Some)
      have "keeps (db_wagers d) (db_wagers d') (postpone_row pf (t_attempts r + 1) delay (en_now en) r)"
        by (rule update_keeps [OF keys postponed(11) old integrity_wager [OF i conjunct1 [OF n]]])
           (simp_all add: postpone_row_def)
      then show ?thesis
        using update_wager_row_Inr [OF postponed(11) old]
        by (auto simp: history_def keeps_def kept_wallet kept_message kept_event)
    next
      case (expired r op wr w ref dn t)
      note n = next_due_Some [OF expired(1)]
      from esc.settled [OF p i _ _ expired(2,3,4) disjI2 [OF expired(5)] _ _ expired(9)] n
      show ?thesis
        by (auto simp: expire_decision_def expired(10)
            intro!: posted_history [OF _ keys fw [OF expired(3)]])
    next
      case (resolved r op wr w ref dn w' t)
      note n = next_due_Some [OF resolved(1)]
      have ext: "external_kind (op_kind op)"
        using pending_kind [OF integrity_wager [OF i]] n row_operation_Inr [OF resolved(2)] by simp
      from dsc.settled [OF p i _ _ resolved(2,3,4) disjI2 [OF resolved(5)] resolved(6,7,8)] n
      show ?thesis
        by (auto simp: resolved(9) intro!: posted_history [OF _ keys fw [OF resolved(3)]]
            dsc.call_version [OF resolved(6,4) ext])
    qed
    with Pair show ?thesis by simp
  qed
qed

lemma create_wallet_history:
  assumes i: "integrity pf d"
  shows "history d (snd (create_wallet pf en w d))"
proof (cases "create_wallet pf en w d")
  case (Pair res d')
  have box: "clash_free outbox_clash (db_outbox d)" using i by (simp add: integrity_def keys_ok_def)
  show ?thesis
  proof (cases res)
    case (Inl e)
    with Pair show ?thesis by (auto simp: create_wallet_def post_opening_def Let_def dest: with_tx_Inl)
  next
    case (Inr u)
    with Pair have "create_wallet pf en w d = (Inr u, d')" by simp
    then have "history d d'" using box
    proof (cases rule: create_wallet_Inr)
      case empty
      then show ?thesis
        by (auto simp: history_def add_wallet_def kept_wager kept_message kept_event dest: kept_wallet)
    next
      case (funded os)
      then show ?thesis
        by (auto simp: history_def add_wallet_def add_opening_def kept_message kept_event_append
            dest: kept_wager kept_wallet)
    qed
    with Pair show ?thesis by simp
  qed
qed

lemma step_history:
  assumes p: "platform_ok pf" and i: "integrity pf d" and s: "store_step pf d d'"
  shows "history d d'"
  using s
proof cases
  case open_wallet
  with create_wallet_history [OF i] show ?thesis by simp
next
  case process
  with dsc.execute_history [OF p i] show ?thesis by simp
next
  case process_inbox
  with dsc.execute_inbox_history [OF p i] show ?thesis by simp
next
  case fail
  with fsc.execute_history [OF p i] show ?thesis by simp
next
  case resolve
  with resolve_history [OF p i] show ?thesis by simp
next
  case claim
  then show ?thesis
    by (auto simp: claim_outbox_def Let_def kept_message kept_event
        intro!: history_tables updated_event)
next
  case mark
  then show ?thesis
    by (auto simp: mark_outbox_published_def kept_message
        intro!: history_tables updated_event)
next
  case retry
  then show ?thesis
    by (auto simp: retry_outbox_def kept_message kept_event
        intro!: history_tables updated_event)
qed

end
