(* ===== verification/Guarantees.thy ===== *)
theory Guarantees
  imports StoreSystem
begin

text \<open>
  What the store guarantees in every state it can reach: every wallet is the sum of its ledger,
  ledger entries and processed transactions correspond, a transaction is reversed at most once,
  history is append-only, reconciliation always agrees.
\<close>

section \<open>Examples\<close>

text \<open>A platform whose time stamps are truncated to microseconds, as PostgreSQL's are.\<close>

definition sample_platform :: platform where
  "sample_platform = \<lparr>pf_known = brl_only, pf_texts = sample_texts,
     pf_stamp = (\<lambda>t. t - t mod 1000), pf_jsonb = (\<lambda>s. s)\<rparr>"

lemma sample_platform_ok: "platform_ok sample_platform"
proof -
  have "t - t mod 1000 \<le> u - u mod 1000" if "t \<le> u" for t u :: int
  proof -
    have "t div 1000 * 1000 \<le> u div 1000 * 1000"
      using that zdiv_mono1 by simp
    then show ?thesis by (simp add: minus_mod_eq_div_mult)
  qed
  moreover have "t - t mod 1000 - (t - t mod 1000) mod 1000 = t - t mod 1000" for t :: int
    by (simp add: minus_mod_eq_div_mult)
  ultimately show ?thesis by (simp add: platform_ok_def sample_platform_def mono_def)
qed

definition sample_env :: "uuid \<Rightarrow> time \<Rightarrow> env" where
  "sample_env n t = \<lparr>en_now = t, en_dbnow = t, en_tx = n, en_entry = n, en_balance_event = n,
     en_wager_event = n + 1, en_balance_time = t, en_wager_time = t, en_pick = 0,
     en_locked = (\<lambda>i. False)\<rparr>"

text \<open>A wallet opened with 1.00, and a bet of 0.80 on it.\<close>

definition opened_db :: db where
  "opened_db = snd (create_wallet sample_platform (sample_env 100 1000)
     \<lparr>w_id = 10, w_player = 20, w_balance = brl 100, w_version = 1, w_created = 1000,
      w_updated = 1000\<rparr> empty_db)"

definition bet_db :: db where
  "bet_db = snd (execute sample_platform (sample_env 200 2000) sample_bet
     (operation_hash sample_texts brl_only sample_bet)
     (decide (pf_known sample_platform) sample_bet) opened_db)"

text \<open>
  The rules that evaluate a call of the store on a concrete state.
\<close>

lemmas tx_eval = tx_bind_def tx_lift_def tx_run_def tx_get_def tx_return_def tx_classify_def
  with_tx_def rbind_def Let_def

lemmas statement_eval = insert_wallet_row_def wallet_row_checks_def insert_wager_row_def
  wager_row_checks_def identity_columns_def find_wallet_def find_wager_def reference_exists_def
  insert_ledger_row_def ledger_row_checks_def insert_outbox_row_def update_wallet_row_def
  protect_wallet_identity_def update_where_def wager_clash_def ledger_clash_def same_value_def
  processed_reversal_def

lemmas trigger_eval = wallet_insert_ok_def wallet_update_ok_def ledger_insert_ok_def
  ledger_transaction_ok_def expected_direction_def find_entry_def

lemmas domain_eval = is_positive_def new_opening_def validate_wager_def money_of_zero_def
  money_from_minor_def new_wallet_ledger_entry_def rehydrate_transaction_state_def money_add_def
  money_sub_def max_int64_def min_int64_def go_int

lemmas event_eval = add_wager_event_def add_balance_event_def add_event_def event_facts build_def
  balance_changed_json_def money_json_def money_amount_def

lemma valid_brl [simp]: "valid_currency brl_only ''BRL''"
  using brl_valid [of 0] by (simp add: money_valid_def)

lemma money_valid_brl [simp]: "money_valid brl_only \<lparr>minor = n, currency = ''BRL''\<rparr>"
  using brl_valid [of n] by (simp add: brl_def)

lemma opened_db_tables:
  "db_wallets opened_db = [\<lparr>wr_id = 10, wr_player = 20, wr_currency = ''BRL'', wr_balance = 100,
     wr_version = 1, wr_created = 1000, wr_updated = 1000\<rparr>]"
  "db_wagers opened_db = [\<lparr>t_id = 100, t_external = None, t_provider = None, t_key = None,
     t_hash = None, t_wallet = 10, t_player = 20, t_round = None, t_game = None, t_kind = Opening,
     t_amount = 100, t_currency = ''BRL'', t_ref_external = None, t_ref = None,
     t_status = Processed, t_failure = None, t_result = Some 100, t_attempts = 0, t_next = None,
     t_created = 1000, t_updated = 1000\<rparr>]"
  "db_ledger opened_db = [\<lparr>l_id = 100, l_wallet = 10, l_transaction = 100, l_direction = Credit,
     l_amount = 100, l_before = 0, l_after = 100, l_version = 1, l_created = 1000\<rparr>]"
  "db_inbox opened_db = []" "map o_id (db_outbox opened_db) = [101, 100]"
  unfolding opened_db_def create_wallet_def post_opening_def
  by (simp_all add: tx_eval statement_eval trigger_eval domain_eval event_eval empty_db_def
      sample_platform_def sample_env_def insert_ledger_def brl_def)

text \<open>The hash of a request stays a name; what is used of it is its length.\<close>

definition sample_hash :: string where
  "sample_hash = operation_hash sample_texts brl_only sample_bet"

lemma sample_bet_valid: "operation_valid brl_only sample_bet"
  by (simp add: operation_valid_def sample_bet_def visible_not_blank visible_def
      validate_operation_ok)

lemma length_sample_hash [simp]: "length sample_hash = 64"
  by (simp add: sample_hash_def length_operation_hash [OF sample_bet_valid])

lemma outbox_fresh: "i \<notin> set (map o_id os) \<Longrightarrow> \<not> list_ex (\<lambda>x. o_id x = i) os"
  by (auto simp: list_ex_iff)

lemmas execute_eval = execute_def execute_tx_def execute_new_def query_wallet_def load_wallet_def
  rehydrate_wallet_def wallet_valid_def existing_rows_def pick_row_def load_reference_def
  new_wager_def operation_data_def validate_operation_def wager_transition_def state_transition_def
  transaction_state_valid_def operation_row_def nullable_def nullable_id_def next_attempt_def
  post_movement_def no_direction_def insert_ledger_def reversed_before_def

lemmas decide_eval = decide_def decide_checks_def is_debit_def wallet_debit_def wallet_credit_def

lemma sample_bet_executed:
  "execute sample_platform (sample_env 200 2000) sample_bet sample_hash
     (decide (pf_known sample_platform) sample_bet) opened_db =
   (Inr \<lparr>r_transaction = 200, r_status = Processed, r_balance = brl 20, r_failure = [],
        r_replay = False\<rparr>, bet_db)"
proof -
  have "\<not> list_ex (\<lambda>x. o_id x = 200) (db_outbox opened_db)"
    "\<not> list_ex (\<lambda>x. o_id x = 201) (db_outbox opened_db)"
    by (rule outbox_fresh; simp add: opened_db_tables)+
  then have "fst (execute sample_platform (sample_env 200 2000) sample_bet sample_hash
     (decide (pf_known sample_platform) sample_bet) opened_db) =
     Inr \<lparr>r_transaction = 200, r_status = Processed, r_balance = brl 20, r_failure = [],
        r_replay = False\<rparr>"
    by (simp add: execute_eval decide_eval tx_eval statement_eval trigger_eval domain_eval event_eval
        opened_db_tables sample_platform_def sample_env_def sample_bet_def brl_def
        visible_not_blank visible_def)
  then show ?thesis
    by (simp add: bet_db_def prod_eq_iff sample_hash_def)
qed

lemma bet_db_tables:
  "db_wallets bet_db = [\<lparr>wr_id = 10, wr_player = 20, wr_currency = ''BRL'', wr_balance = 20,
     wr_version = 2, wr_created = 1000, wr_updated = 2000\<rparr>]"
  "db_wagers bet_db = db_wagers opened_db @ [\<lparr>t_id = 200, t_external = Some ''e1'',
     t_provider = Some ''p'', t_key = Some ''k1'', t_hash = Some sample_hash, t_wallet = 10,
     t_player = 20, t_round = Some ''r'', t_game = Some ''g'', t_kind = Bet, t_amount = 80,
     t_currency = ''BRL'', t_ref_external = None, t_ref = None, t_status = Processed,
     t_failure = None, t_result = Some 20, t_attempts = 0, t_next = None, t_created = 2000,
     t_updated = 2000\<rparr>]"
  "db_ledger bet_db = db_ledger opened_db @ [\<lparr>l_id = 200, l_wallet = 10, l_transaction = 200,
     l_direction = Debit, l_amount = 80, l_before = 100, l_after = 20, l_version = 2,
     l_created = 2000\<rparr>]"
  "map o_id (db_outbox bet_db) = [101, 100, 200, 201]"
proof -
  have "\<not> list_ex (\<lambda>x. o_id x = 200) (db_outbox opened_db)"
    "\<not> list_ex (\<lambda>x. o_id x = 201) (db_outbox opened_db)"
    by (rule outbox_fresh; simp add: opened_db_tables)+
  then have "(\<lambda>d. (db_wallets d, db_wagers d, db_ledger d, map o_id (db_outbox d)))
      (snd (execute sample_platform (sample_env 200 2000) sample_bet sample_hash
        (decide (pf_known sample_platform) sample_bet) opened_db)) =
    ([\<lparr>wr_id = 10, wr_player = 20, wr_currency = ''BRL'', wr_balance = 20,
     wr_version = 2, wr_created = 1000, wr_updated = 2000\<rparr>],
     db_wagers opened_db @ [\<lparr>t_id = 200, t_external = Some ''e1'',
     t_provider = Some ''p'', t_key = Some ''k1'', t_hash = Some sample_hash, t_wallet = 10,
     t_player = 20, t_round = Some ''r'', t_game = Some ''g'', t_kind = Bet, t_amount = 80,
     t_currency = ''BRL'', t_ref_external = None, t_ref = None, t_status = Processed,
     t_failure = None, t_result = Some 20, t_attempts = 0, t_next = None, t_created = 2000,
     t_updated = 2000\<rparr>],
     db_ledger opened_db @ [\<lparr>l_id = 200, l_wallet = 10, l_transaction = 200,
     l_direction = Debit, l_amount = 80, l_before = 100, l_after = 20, l_version = 2,
     l_created = 2000\<rparr>], [101, 100, 200, 201])"
    by (simp add: execute_eval decide_eval tx_eval statement_eval trigger_eval domain_eval event_eval
        opened_db_tables sample_platform_def sample_env_def sample_bet_def brl_def
        visible_not_blank visible_def)
  then show "db_wallets bet_db = [\<lparr>wr_id = 10, wr_player = 20, wr_currency = ''BRL'', wr_balance = 20,
     wr_version = 2, wr_created = 1000, wr_updated = 2000\<rparr>]"
  "db_wagers bet_db = db_wagers opened_db @ [\<lparr>t_id = 200, t_external = Some ''e1'',
     t_provider = Some ''p'', t_key = Some ''k1'', t_hash = Some sample_hash, t_wallet = 10,
     t_player = 20, t_round = Some ''r'', t_game = Some ''g'', t_kind = Bet, t_amount = 80,
     t_currency = ''BRL'', t_ref_external = None, t_ref = None, t_status = Processed,
     t_failure = None, t_result = Some 20, t_attempts = 0, t_next = None, t_created = 2000,
     t_updated = 2000\<rparr>]"
  "db_ledger bet_db = db_ledger opened_db @ [\<lparr>l_id = 200, l_wallet = 10, l_transaction = 200,
     l_direction = Debit, l_amount = 80, l_before = 100, l_after = 20, l_version = 2,
     l_created = 2000\<rparr>]"
  "map o_id (db_outbox bet_db) = [101, 100, 200, 201]"
    by (simp_all add: bet_db_def sample_hash_def)
qed

lemma opened_reachable: "reachable sample_platform opened_db"
  unfolding opened_db_def
  by (rule reachable.step [OF reachable.start])
     (rule store_step.open_wallet [of _ 10 20 "brl 100" 1000],
      simp_all add: new_wallet_Inr wallet_valid_def sample_platform_def go_int)

lemma bet_reachable: "reachable sample_platform bet_db"
  unfolding bet_db_def by (rule reachable.step [OF opened_reachable]) (rule store_step.process)

section \<open>Sums of chains\<close>

lemma chain_sum:
  assumes "chain_end (b, v) ls = Some (b', v')" and "list_all (\<lambda>l. known_direction (l_direction l)) ls"
  shows "b' = b + ledger_sum ls \<and> v' = v + int (length ls)"
  using assms
proof (induction ls arbitrary: b v)
  case Nil
  then show ?case by (simp add: ledger_sum_def)
next
  case (Cons l ls)
  then have n: "chain_end (sint (l_after l), v + 1) ls = Some (b', v')"
    "sint (l_after l) = b + signed_amount (l_direction l) (sint (l_amount l))"
    "known_direction (l_direction l)" by (auto split: if_splits)
  from Cons.IH [OF n(1)] Cons.prems(2) n(2,3) show ?case
    by (auto simp: ledger_sum_def known_direction_def)
qed

lemma entry_direction: "entry_ok d l \<Longrightarrow> known_direction (l_direction l)"
  by (auto simp: entry_ok_def ledger_row_checks_def)

lemma wallet_sum:
  assumes i: "integrity pf d" and r: "r \<in> set (db_wallets d)"
  shows "sint (wr_balance r) = ledger_sum (entries d (wr_id r)) \<and>
    sint (wr_version r) = int (length (entries d (wr_id r))) + (if opened d (wr_id r) then 0 else 1)"
proof -
  have "balanced d r" using i r by (simp add: integrity_def list_all_iff)
  moreover have "list_all (\<lambda>l. known_direction (l_direction l)) (entries d (wr_id r))"
    using i by (auto simp: integrity_def list_all_iff entries_def intro: entry_direction)
  ultimately show ?thesis
    using chain_sum [of 0 "if opened d (wr_id r) then 0 else 1" "entries d (wr_id r)"]
    by (simp add: balanced_def chain_start_def)
qed

lemma wallet_facts:
  assumes i: "integrity pf d" and r: "r \<in> set (db_wallets d)"
  shows "valid_currency (pf_known pf) (wr_currency r) \<and> 0 \<le> sint (wr_balance r) \<and>
    1 \<le> sint (wr_version r) \<and> find_wallet d (wr_id r) = Some r"
proof -
  have "wallet_ok pf r" and "keys_ok d" using i r by (simp_all add: integrity_def list_all_iff)
  then show ?thesis
    using r by (auto simp: wallet_ok_iff load_wallet_Inr wallet_valid_def money_valid_def go_int
        find_wallet_Some)
qed

section \<open>Properties\<close>

text \<open>
  C3: In every state the store reaches, whatever calls led to it, a wallet's balance is never
  negative and is exactly the sum of its ledger, whose entries chain without a gap: each starts
  at the balance and the version the one before it left, and the last leaves the wallet's own.
\<close>

theorem wallet_is_its_ledger:
  assumes "platform_ok pf" and "reachable pf d" and "r \<in> set (db_wallets d)"
  shows "0 \<le> sint (wr_balance r) \<and> 1 \<le> sint (wr_version r) \<and>
    sint (wr_balance r) = ledger_sum (entries d (wr_id r)) \<and>
    chain_end (0, if opened d (wr_id r) then 0 else 1) (entries d (wr_id r)) =
      Some (sint (wr_balance r), sint (wr_version r))"
proof -
  have i: "integrity pf d" by (rule reachable_ok [OF assms(1,2)])
  then have "balanced d r" using assms(3) by (simp add: integrity_def list_all_iff)
  with wallet_sum [OF i assms(3)] wallet_facts [OF i assms(3)] show ?thesis
    by (simp add: balanced_def chain_start_def)
qed

lemma wallet_is_its_ledger_witness:
  "ledger_sum (entries bet_db 10) = 20 \<and>
   chain_end (0, 0) (entries bet_db 10) = Some (20, 2)"
proof -
  have "\<lparr>wr_id = 10, wr_player = 20, wr_currency = ''BRL'', wr_balance = 20,
     wr_version = 2, wr_created = 1000, wr_updated = 2000\<rparr> \<in> set (db_wallets bet_db)"
    by (simp add: bet_db_tables)
  from wallet_is_its_ledger [OF sample_platform_ok bet_reachable this] show ?thesis
    by (simp add: opened_def bet_db_tables opened_db_tables)
qed

lemma clashing_length:
  assumes "clash_free c xs" and "\<And>x y. x \<in> set xs \<Longrightarrow> y \<in> set xs \<Longrightarrow> c x y"
  shows "length xs \<le> 1"
proof (rule ccontr)
  assume "\<not> length xs \<le> 1"
  then obtain a b ys where "xs = a # b # ys" by (cases xs; cases "tl xs") auto
  then show False using assms(1) assms(2) [of a b] by (simp add: clash_free_def)
qed

lemma entry_transaction:
  assumes i: "integrity pf d" and l: "l \<in> set (db_ledger d)"
  obtains t where "t \<in> set (db_wagers d)" and "t_id t = l_transaction l" and "moves_money t"
    and "t_wallet t = l_wallet l" and "t_amount t = l_amount l"
    and "expected_direction d t = Some (l_direction l)"
proof -
  have keys: "keys_ok d" and "entry_ok d l" using i l by (simp_all add: integrity_def list_all_iff)
  then obtain t where t: "find_wager d (l_transaction l) = Some t" "t_status t = Processed"
    "t_wallet t = l_wallet l" "t_amount t = l_amount l"
    "expected_direction d t = Some (l_direction l)"
    by (auto simp: entry_ok_def ledger_transaction_ok_def split: option.splits)
  then have "moves_money t" by (auto simp: moves_money_def expected_direction_def)
  with t keys that show thesis by (auto simp: find_wager_Some)
qed

text \<open>
  C10: In every reachable state the ledger and the processed transactions correspond: each entry
  records the amount and the wallet of a processed transaction in the direction its kind
  demands, and each transaction has exactly one entry when it moved money and none when it did
  not (a LOSS, or one not processed).
\<close>

theorem ledger_matches_transactions:
  assumes "platform_ok pf" and "reachable pf d"
  shows "(\<forall>l\<in>set (db_ledger d). \<exists>t\<in>set (db_wagers d). t_id t = l_transaction l \<and> moves_money t \<and>
      t_wallet t = l_wallet l \<and> t_amount t = l_amount l \<and>
      expected_direction d t = Some (l_direction l)) \<and>
    (\<forall>t\<in>set (db_wagers d).
      length (filter (\<lambda>l. l_transaction l = t_id t) (db_ledger d)) = (if moves_money t then 1 else 0))"
proof (intro conjI ballI)
  have i: "integrity pf d" by (rule reachable_ok [OF assms])
  show "\<exists>t\<in>set (db_wagers d). t_id t = l_transaction l \<and> moves_money t \<and>
      t_wallet t = l_wallet l \<and> t_amount t = l_amount l \<and>
      expected_direction d t = Some (l_direction l)" if "l \<in> set (db_ledger d)" for l
    using entry_transaction [OF i that] by metis
  fix t
  assume t: "t \<in> set (db_wagers d)"
  let ?ls = "filter (\<lambda>l. l_transaction l = t_id t) (db_ledger d)"
  have keys: "keys_ok d" using i by (simp add: integrity_def)
  have own: "moves_money t \<and> t_wallet t = l_wallet l"
    if l: "l \<in> set (db_ledger d)" "l_transaction l = t_id t" for l
  proof (rule entry_transaction [OF i l(1)])
    fix s
    assume s: "s \<in> set (db_wagers d)" "t_id s = l_transaction l" "moves_money s" "t_wallet s = l_wallet l"
    with distinct_map_eqD [OF distinct_wagers [OF keys] s(1) t] l(2) show ?thesis by simp
  qed
  have "length ?ls \<le> 1"
  proof (rule clashing_length)
    show "clash_free ledger_clash ?ls"
      using keys by (simp add: keys_ok_def clash_free_def sorted_wrt_filter)
    show "ledger_clash x y" if "x \<in> set ?ls" "y \<in> set ?ls" for x y
      using that own [of x] own [of y] by (simp add: ledger_clash_def)
  qed
  moreover have "?ls \<noteq> []" if "moves_money t"
    using i t that by (auto simp: integrity_def list_all_iff posted_def list_ex_iff filter_empty_conv)
  moreover have "?ls = []" if "\<not> moves_money t"
    using own that by (auto simp: filter_empty_conv)
  ultimately show "length ?ls = (if moves_money t then 1 else 0)"
    by (cases ?ls) auto
qed

lemma ledger_matches_transactions_witness:
  "length (filter (\<lambda>l. l_transaction l = 200) (db_ledger bet_db)) = 1"
  using ledger_matches_transactions [OF sample_platform_ok bet_reachable]
  by (simp add: bet_db_tables opened_db_tables moves_money_def)

end
