(* ===== verification/History.thy ===== *)
theory History
  imports Guarantees
begin

text \<open>
  What does not change: a transaction is reversed at most once and a reversal undoes exactly what
  it refers to; the ledger only grows; a settled transaction and the identity of a wallet are
  final; reconciliation finds nothing.
\<close>

section \<open>Runs\<close>

text \<open>Any number of calls, by any number of clients.\<close>

definition runs :: "platform \<Rightarrow> db \<Rightarrow> db \<Rightarrow> bool" where
  "runs pf = (store_step pf)\<^sup>*\<^sup>*"

lemma runs_refl [simp]: "runs pf d d"
  by (simp add: runs_def)

lemma runs_step: "store_step pf d d' \<Longrightarrow> runs pf d d'"
  by (auto simp: runs_def)

lemma runs_trans: "runs pf d d' \<Longrightarrow> runs pf d' d'' \<Longrightarrow> runs pf d d''"
  by (auto simp: runs_def)

lemma runs_integrity:
  assumes "platform_ok pf" and "integrity pf d" and "runs pf d d'"
  shows "integrity pf d' \<and> history d d'"
  using assms(3) unfolding runs_def
proof (induction rule: rtranclp_induct)
  case base
  with assms(2) show ?case by simp
next
  case (step d1 d2)
  then show ?case
    using step_integrity [OF assms(1)] step_history [OF assms(1)] history_trans by blast
qed

lemma runs_reachable: "reachable pf d \<Longrightarrow> runs pf d d' \<Longrightarrow> reachable pf d'"
  unfolding runs_def by (rotate_tac, induction rule: rtranclp_induct) (auto intro: reachable.step)

section \<open>Reversals\<close>

definition opposite :: "direction \<Rightarrow> direction" where
  "opposite dir = (if dir = Debit then Credit else Debit)"

lemma reversal_reference:
  assumes i: "integrity pf d" and t: "t \<in> set (db_wagers d)" "processed_reversal t"
  obtains r dir where "r \<in> set (db_wagers d)" and "t_ref t = Some (t_id r)"
    and "t_status r = Processed" and "t_wallet r = t_wallet t" and "t_amount r = t_amount t"
    and "t_currency r = t_currency t" and "expected_direction d r = Some dir"
    and "expected_direction d t = Some (opposite dir)"
proof -
  have keys: "keys_ok d" using i by (simp add: integrity_def)
  have ok: "reversal_ok d t" using i t(1) by (auto simp: integrity_def list_all_iff)
  from ok t(2) obtain j r where jr: "t_ref t = Some j" "find_wager d j = Some r"
    by (cases "t_ref t"; cases "find_wager d (the (t_ref t))") (simp_all add: reversal_ok_def)
  with ok t(2) have r: "t_status r = Processed" "t_wallet r = t_wallet t" "t_amount r = t_amount t"
    "t_currency r = t_currency t" "t_kind t = Refund \<longrightarrow> t_kind r = Bet"
    "t_kind t = Rollback \<longrightarrow> t_kind r \<in> {Bet, Win, Refund}"
    by (simp_all add: reversal_ok_def)
  have w: "r \<in> set (db_wagers d)" "t_id r = j" using jr(2) keys by (simp_all add: find_wager_Some)
  have "t_kind t = Refund \<and> t_kind r = Bet \<or> t_kind t = Rollback \<and> t_kind r = Bet \<or>
    t_kind t = Rollback \<and> t_kind r = Win \<or> t_kind t = Rollback \<and> t_kind r = Refund"
    using t(2) r(5,6) by (auto simp only: processed_reversal_def insert_iff empty_iff)
  then have "\<exists>dir. expected_direction d r = Some dir \<and> expected_direction d t = Some (opposite dir)"
    by (elim disjE conjE) (simp_all add: expected_direction_def opposite_def jr)
  then obtain dir where "expected_direction d r = Some dir"
    "expected_direction d t = Some (opposite dir)" by blast
  then show thesis using w jr r by (intro that [of r dir]) simp_all
qed

lemma reversed_by_one:
  assumes i: "integrity pf d" and s: "s \<in> set (db_wagers d)" "processed_reversal s"
    and t: "t \<in> set (db_wagers d)" "processed_reversal t" and ref: "t_ref s = t_ref t" "t_ref t \<noteq> None"
  shows "s = t"
proof (rule clash_free_pair)
  show "clash_free wager_clash (db_wagers d)" using i by (simp add: integrity_def keys_ok_def)
  show "wager_clash s t" using s t ref by (simp add: wager_clash_def same_value_def)
qed (use s t wager_clash_sym in auto)

text \<open>
  C6: In every reachable state a processed REFUND or ROLLBACK refers to a processed transaction
  of the same wallet, amount and currency and moves the money in the opposite direction, and no
  other processed reversal refers to that transaction: nothing is reversed twice.
\<close>

theorem reversal_undoes_once:
  assumes "platform_ok pf" and "reachable pf d" and "t \<in> set (db_wagers d)"
    and "processed_reversal t"
  shows "\<exists>r\<in>set (db_wagers d). t_ref t = Some (t_id r) \<and> t_status r = Processed \<and>
      t_wallet r = t_wallet t \<and> t_amount r = t_amount t \<and> t_currency r = t_currency t \<and>
      (\<exists>dir. expected_direction d r = Some dir \<and> expected_direction d t = Some (opposite dir)) \<and>
      (\<forall>s\<in>set (db_wagers d). processed_reversal s \<and> t_ref s = Some (t_id r) \<longrightarrow> s = t)"
proof -
  have i: "integrity pf d" by (rule reachable_ok [OF assms(1,2)])
  from reversal_reference [OF i assms(3,4)] obtain r dir where r: "r \<in> set (db_wagers d)"
    "t_ref t = Some (t_id r)" "t_status r = Processed" "t_wallet r = t_wallet t"
    "t_amount r = t_amount t" "t_currency r = t_currency t"
    "expected_direction d r = Some dir" "expected_direction d t = Some (opposite dir)" .
  have "s = t" if "s \<in> set (db_wagers d)" "processed_reversal s" "t_ref s = Some (t_id r)" for s
    using reversed_by_one [OF i that(1,2) assms(3,4)] that r by simp
  with r show ?thesis by blast
qed

text \<open>A refund of the sample bet.\<close>

definition refund_db :: db where
  "refund_db = snd (execute sample_platform (sample_env 300 3000) sample_refund (replicate 64 CHR ''0'')
     (decide (pf_known sample_platform) sample_refund) bet_db)"

lemma refund_reachable: "reachable sample_platform refund_db"
  unfolding refund_db_def by (rule reachable.step [OF bet_reachable]) (rule store_step.process)

lemma refund_db_wagers:
  "list_ex (\<lambda>t. processed_reversal t \<and> t_ref t = Some 200) (db_wagers refund_db)"
proof -
  have "\<not> list_ex (\<lambda>x. o_id x = 300) (db_outbox bet_db)"
    "\<not> list_ex (\<lambda>x. o_id x = 301) (db_outbox bet_db)"
    by (rule outbox_fresh; simp add: bet_db_tables)+
  then show ?thesis
    unfolding refund_db_def
    by (simp add: execute_eval decide_eval tx_eval statement_eval trigger_eval domain_eval event_eval
        bet_db_tables opened_db_tables sample_platform_def sample_env_def sample_refund_def
        sample_bet_def brl_def visible_not_blank visible_def)
qed

lemma reversal_undoes_once_witness:
  "\<exists>r\<in>set (db_wagers refund_db). t_id r = 200 \<and> t_status r = Processed"
proof -
  from refund_db_wagers obtain t where t: "t \<in> set (db_wagers refund_db)" "processed_reversal t"
    "t_ref t = Some 200" by (auto simp: list_ex_iff)
  from reversal_undoes_once [OF sample_platform_ok refund_reachable t(1,2)] t(3) show ?thesis by auto
qed

section \<open>What a run keeps\<close>

text \<open>
  C9: Whatever calls follow, in any order, nothing recorded is lost or rewritten: the ledger is
  only appended to, every transaction is still there with its identity, wallet, player, amount
  and time of creation, unchanged altogether once its status is terminal, every wallet is still
  the same player's in the same currency with a version that never went back, every message
  received is still known by its hash, and every event queued is still there with its payload.
\<close>

theorem history_append_only:
  assumes "platform_ok pf" and "reachable pf d" and "runs pf d d'"
  shows "(\<exists>ls. db_ledger d' = db_ledger d @ ls) \<and>
    (\<forall>t\<in>set (db_wagers d). \<exists>t'\<in>set (db_wagers d').
       t_id t' = t_id t \<and> identity_columns t' = identity_columns t \<and> t_kind t' = t_kind t \<and>
       t_wallet t' = t_wallet t \<and> t_player t' = t_player t \<and> t_amount t' = t_amount t \<and>
       t_currency t' = t_currency t \<and> t_ref_external t' = t_ref_external t \<and>
       t_created t' = t_created t \<and> (terminal (t_status t) \<longrightarrow> t' = t)) \<and>
    (\<forall>r\<in>set (db_wallets d). \<exists>r'\<in>set (db_wallets d').
       wr_id r' = wr_id r \<and> wr_player r' = wr_player r \<and> wr_currency r' = wr_currency r \<and>
       wr_created r' = wr_created r \<and> sint (wr_version r) \<le> sint (wr_version r')) \<and>
    (\<forall>i\<in>set (db_inbox d). \<exists>i'\<in>set (db_inbox d').
       i_consumer i' = i_consumer i \<and> i_message i' = i_message i \<and> i_hash i' = i_hash i) \<and>
    (\<forall>e\<in>set (db_outbox d). \<exists>e'\<in>set (db_outbox d').
       o_id e' = o_id e \<and> o_aggregate e' = o_aggregate e \<and> o_type e' = o_type e \<and>
       o_payload e' = o_payload e \<and> (o_published e \<noteq> None \<longrightarrow> o_published e' = o_published e))"
proof -
  have "history d d'"
    using runs_integrity [OF assms(1) reachable_ok [OF assms(1,2)] assms(3)] by simp
  then show ?thesis
    unfolding history_def same_wager_def same_wallet_def same_message_def same_event_def
    by (elim conjE, intro conjI ballI) (assumption | drule (1) bspec, blast)+
qed

lemma sample_run: "runs sample_platform opened_db refund_db"
  unfolding refund_db_def bet_db_def
  by (rule runs_trans; rule runs_step; rule store_step.process)

lemma history_append_only_witness: "\<exists>ls. db_ledger refund_db = db_ledger opened_db @ ls"
  using history_append_only [OF sample_platform_ok opened_reachable sample_run] by simp

text \<open>
  C21: Reconciling an existing wallet never fails and never finds a divergence: the stored balance
  and the sum of the ledger are the same money, however the state was reached.
\<close>

theorem reconcile_always_consistent:
  assumes "platform_ok pf" and "reachable pf d" and "find_wallet d wid = Some r"
  shows "reconcile_wallet pf wid d =
    Inr \<lparr>rc_wallet = wid,
         rc_stored = \<lparr>minor = wr_balance r, currency = wr_currency r\<rparr>,
         rc_calculated = \<lparr>minor = wr_balance r, currency = wr_currency r\<rparr>,
         rc_difference = \<lparr>minor = 0, currency = wr_currency r\<rparr>,
         rc_consistent = True, rc_entries = length (entries d wid)\<rparr>"
proof -
  have i: "integrity pf d" by (rule reachable_ok [OF assms(1,2)])
  then have r: "r \<in> set (db_wallets d)" "wr_id r = wid"
    using assms(3) by (simp_all add: integrity_def find_wallet_Some)
  note f = wallet_facts [OF i r(1)] and s = wallet_sum [OF i r(1)]
  have sum: "ledger_sum (filter (\<lambda>l. l_wallet l = wid) (db_ledger d)) = sint (wr_balance r)"
    using s r(2) by (simp add: entries_def)
  have "\<not> minor \<lparr>minor = wr_balance r, currency = wr_currency r\<rparr> <s
      min_int64 + minor \<lparr>minor = wr_balance r, currency = wr_currency r\<rparr>"
    using f sint64_range [of "wr_balance r"] by (simp add: go_int fits64_def)
  then have "money_sub (pf_known pf) \<lparr>minor = wr_balance r, currency = wr_currency r\<rparr>
      \<lparr>minor = wr_balance r, currency = wr_currency r\<rparr> = Inr \<lparr>minor = 0, currency = wr_currency r\<rparr>"
    using f by (simp add: money_sub_def money_valid_def go_int)
  then show ?thesis
    using f by (simp add: reconcile_wallet_def assms(3) sum money_from_minor_def is_zero_def
        money_valid_def entries_def Let_def)
qed

lemma reconcile_always_consistent_witness:
  "\<exists>c. reconcile_wallet sample_platform 10 bet_db = Inr c \<and> rc_consistent c \<and> minor (rc_calculated c) = 20"
proof -
  have "find_wallet bet_db 10 = Some \<lparr>wr_id = 10, wr_player = 20, wr_currency = ''BRL'',
     wr_balance = 20, wr_version = 2, wr_created = 1000, wr_updated = 2000\<rparr>"
    by (simp add: find_wallet_def bet_db_tables)
  from reconcile_always_consistent [OF sample_platform_ok bet_reachable this] show ?thesis by simp
qed

section \<open>The resolver\<close>

lemma retry_delay_value:
  assumes "1 \<le> n"
  obtains delay where "retry_delay n = Some delay"
    and "sint delay = 1000000000 * 2 ^ nat (min n 8 - 1)"
proof -
  define a where "a = (if 8 < n then 8 else n)"
  have "a \<in> {1, 2, 3, 4, 5, 6, 7, 8}" "a = min n 8" using assms by (auto simp: a_def)
  then have "sint (push_bit (nat (a - 1)) second) = 1000000000 * 2 ^ nat (a - 1)"
    unfolding second_def by auto
  with \<open>a = min n 8\<close> assms show thesis
    by (intro that [of "push_bit (nat (a - 1)) second"]) (auto simp: retry_delay_def a_def Let_def)
qed

lemma next_due_first:
  assumes "next_due en d = Some r" and "x \<in> set (db_wagers d)" and "due en x"
    and "\<not> en_locked en (t_id x)"
  shows "due_key r \<le> due_key x \<and> \<not> en_locked en (t_id r)"
proof -
  let ?s = "sort_key due_key (filter (due en) (db_wagers d))"
  from assms(1) obtain i where i: "i < length ?s" "r = ?s ! i" "\<not> en_locked en (t_id r)"
    "\<forall>j<i. en_locked en (t_id (?s ! j))"
    by (auto simp: next_due_def find_Some_iff)
  have "x \<in> set ?s" using assms(2,3) by simp
  then obtain j where j: "j < length ?s" "x = ?s ! j" by (metis in_set_conv_nth)
  have "i \<le> j" using i(4) j assms(4) not_le_imp_less by blast
  have "sorted (map due_key ?s)" by simp
  from sorted_nth_mono [OF this \<open>i \<le> j\<close>] i j show ?thesis by simp
qed

text \<open>The earliest unlocked due row is the one that is replaced.\<close>

lemma next_due_replaced:
  assumes i: "integrity pf d" and n: "next_due en d = Some r"
    and w: "db_wagers d' = update_where (\<lambda>x. t_id x = t_id r) f (db_wagers d)"
  shows "r \<in> set (db_wagers d) \<and> due en r \<and>
    (\<forall>x\<in>set (db_wagers d). due en x \<and> \<not> en_locked en (t_id x) \<longrightarrow> due_key r \<le> due_key x) \<and>
    db_wagers d' = map (\<lambda>x. if t_id x = t_id r then f r else x) (db_wagers d)"
proof -
  note r = next_due_Some [OF n]
  have keys: "keys_ok d" using i by (simp add: integrity_def)
  have "db_wagers d' = map (\<lambda>x. if t_id x = t_id r then f r else x) (db_wagers d)"
    unfolding w update_where_def
  proof (rule map_cong [OF refl])
    show "(if t_id x = t_id r then f x else x) = (if t_id x = t_id r then f r else x)"
      if x: "x \<in> set (db_wagers d)" for x
      using distinct_map_eqD [OF distinct_wagers [OF keys] x conjunct1 [OF r]] by auto
  qed
  with r next_due_first [OF n] show ?thesis by blast
qed

text \<open>The delay of the next attempt, in nanoseconds.\<close>

definition next_delay :: "wager_row \<Rightarrow> int" where
  "next_delay r = 1000000000 * 2 ^ nat (min (t_attempts r) 7)"

lemma retry_delay_next:
  assumes "0 \<le> t_attempts r" and "retry_delay (t_attempts r + 1) = Some delay"
  shows "sint delay = next_delay r"
proof (rule retry_delay_value)
  show "1 \<le> t_attempts r + 1" using assms(1) by simp
  fix y
  assume "retry_delay (t_attempts r + 1) = Some y"
    "sint y = 1000000000 * 2 ^ nat (min (t_attempts r + 1) 8 - 1)"
  moreover have "min (t_attempts r + 1) 8 - 1 = min (t_attempts r) 7" by simp
  ultimately show ?thesis using assms(2) by (simp add: next_delay_def)
qed

lemma attempts_nonneg: "integrity pf d \<Longrightarrow> r \<in> set (db_wagers d) \<Longrightarrow> 0 \<le> t_attempts r"
  using integrity_wager by (fastforce simp: wager_ok_def)


text \<open>The sample refund arrives before its bet; it is postponed once.\<close>

definition pending_db :: db where
  "pending_db = snd (execute sample_platform (sample_env 300 2000) sample_refund
     (replicate 64 CHR ''0'') (decide (pf_known sample_platform) sample_refund) opened_db)"

lemma pending_reachable: "reachable sample_platform pending_db"
  unfolding pending_db_def by (rule reachable.step [OF opened_reachable]) (rule store_step.process)

lemma pending_db_tables:
  "db_wallets pending_db = db_wallets opened_db"
  "db_wagers pending_db = db_wagers opened_db @ [\<lparr>t_id = 300, t_external = Some ''e2'',
     t_provider = Some ''p'', t_key = Some ''k2'', t_hash = Some (replicate 64 CHR ''0''),
     t_wallet = 10, t_player = 20, t_round = Some ''r'', t_game = Some ''g'', t_kind = Refund,
     t_amount = 80, t_currency = ''BRL'', t_ref_external = Some ''e1'', t_ref = None,
     t_status = PendingReference, t_failure = None, t_result = Some 100, t_attempts = 0,
     t_next = Some 1000002000, t_created = 2000, t_updated = 2000\<rparr>]"
proof -
  have "\<not> list_ex (\<lambda>x. o_id x = 301) (db_outbox opened_db)"
    by (rule outbox_fresh) (simp add: opened_db_tables)
  then show "db_wallets pending_db = db_wallets opened_db"
    "db_wagers pending_db = db_wagers opened_db @ [\<lparr>t_id = 300, t_external = Some ''e2'',
     t_provider = Some ''p'', t_key = Some ''k2'', t_hash = Some (replicate 64 CHR ''0''),
     t_wallet = 10, t_player = 20, t_round = Some ''r'', t_game = Some ''g'', t_kind = Refund,
     t_amount = 80, t_currency = ''BRL'', t_ref_external = Some ''e1'', t_ref = None,
     t_status = PendingReference, t_failure = None, t_result = Some 100, t_attempts = 0,
     t_next = Some 1000002000, t_created = 2000, t_updated = 2000\<rparr>]"
    unfolding pending_db_def
    by (simp_all add: execute_eval decide_eval tx_eval statement_eval trigger_eval domain_eval
        event_eval opened_db_tables sample_platform_def sample_env_def sample_refund_def
        sample_bet_def brl_def visible_not_blank visible_def)
qed

lemmas resolve_eval = resolve_pending_reference_def resolve_row_def next_due_def due_def due_key_def
  row_operation_def locked_wallet_def postpone_row_def update_wager_row_def
  protect_financial_history_def retry_delay_def

lemma pending_resolved:
  "fst (resolve_pending_reference sample_platform (sample_env 400 2000000000) pending_db) = Inr True"
  by (simp add: resolve_eval execute_eval decide_eval tx_eval statement_eval trigger_eval domain_eval
      pending_db_tables opened_db_tables sample_platform_def sample_env_def)


text \<open>
  The delays between the attempts, in nanoseconds: 1, 2, 4, 8, 16, 32, 64, 128 and again 128
  seconds, so a reference is awaited for 383 seconds in all after the first second.
\<close>

lemma resolver_schedule:
  "map (\<lambda>n. map_option sint (retry_delay n)) [1, 2, 3, 4, 5, 6, 7, 8, 9] =
     map (\<lambda>s. Some (s * 1000000000)) [1, 2, 4, 8, 16, 32, 64, 128, 128] \<and>
   sum_list (map (\<lambda>n. case retry_delay n of None \<Rightarrow> 0 | Some delay \<Rightarrow> sint delay)
     [1, 2, 3, 4, 5, 6, 7, 8, 9]) = 383 * 1000000000"
  by (simp add: retry_delay_def second_def)

end
