(* ===== verification/StoreContract.thy ===== *)
theory StoreContract
  imports Usecases Transaction
begin

text \<open>
  The interfaces \<^verbatim>\<open>WagerStore\<close> and \<^verbatim>\<open>WalletStore\<close> of
  \<^verbatim>\<open>internal/usecases\<close> with the laws the services rely on, and what follows for the
  services \<^verbatim>\<open>Wager\<close> and \<^verbatim>\<open>Wallets\<close> from the laws alone. A call has an
  environment \<open>'e\<close> (its clocks, fresh identifiers and luck) and works on a state \<open>'s\<close>.
\<close>

text \<open>A later answer to the same request: same transaction, flagged as a replay, and the same outcome if it was final.\<close>

definition same_answer :: "result \<Rightarrow> result \<Rightarrow> bool" where
  "same_answer r r' \<longleftrightarrow>
     r_transaction r' = r_transaction r \<and> r_replay r' \<and>
     (terminal (r_status r) \<longrightarrow> r' = r\<lparr>r_replay := True\<rparr>)"

text \<open>The callbacks the service \<^verbatim>\<open>Wager\<close> passes.\<close>

definition service_decision :: "(string \<Rightarrow> bool) \<Rightarrow> operation \<Rightarrow> decide_fn \<Rightarrow> bool" where
  "service_decision known op dec \<longleftrightarrow>
     dec = decide known op \<or> (\<exists>failure. dec = fail_decision failure)"

lemma service_decision_simps [simp]:
  "service_decision known op (decide known op)" "service_decision known op (fail_decision failure)"
  by (auto simp: service_decision_def)

section \<open>WagerStore\<close>

text \<open>
  \<open>answered s op h r\<close>: the store \<open>s\<close> remembers that \<open>op\<close> with payload hash \<open>h\<close>
  was answered by \<open>r\<close>; \<open>books s\<close> is what it holds of money and events.
\<close>

locale wager_store =
  fixes known :: "string \<Rightarrow> bool"
    and good :: "'s \<Rightarrow> bool"
    and runs :: "'s \<Rightarrow> 's \<Rightarrow> bool"
    and books :: "'s \<Rightarrow> 'b"
    and answered :: "'s \<Rightarrow> operation \<Rightarrow> string \<Rightarrow> result \<Rightarrow> bool"
    and execute :: "'e \<Rightarrow> 's execute_fn"
    and execute_inbox :: "'e \<Rightarrow> inbox_message \<Rightarrow> 's execute_fn"
  assumes good_execute: "good s \<Longrightarrow> service_decision known op dec \<Longrightarrow>
      good (snd (execute e op h dec s))"
    and good_execute_inbox: "good s \<Longrightarrow> service_decision known op dec \<Longrightarrow>
      good (snd (execute_inbox e m op h dec s))"
    and good_runs: "good s \<Longrightarrow> runs s s' \<Longrightarrow> good s'"
    and answers: "good s \<Longrightarrow> service_decision known op dec \<Longrightarrow>
      execute e op h dec s = (Inr r, s') \<Longrightarrow> \<not> r_replay r \<Longrightarrow> answered s' op h r"
    and answers_inbox: "good s \<Longrightarrow> service_decision known op dec \<Longrightarrow>
      execute_inbox e m op h dec s = (Inr r, s') \<Longrightarrow> \<not> r_replay r \<Longrightarrow> answered s' op h r"
    and remembers: "good s \<Longrightarrow> runs s s' \<Longrightarrow> answered s op h r \<Longrightarrow> answered s' op h r"
    and replays: "good s \<Longrightarrow> answered s op h r \<Longrightarrow>
      \<exists>r'. execute e op h dec s = (Inr r', s) \<and> same_answer r r'"
    and replays_inbox: "good s \<Longrightarrow> answered s op h r \<Longrightarrow>
      execute_inbox e m op h dec s = (Inl ErrConflict, s) \<or>
      (\<exists>r' s'. execute_inbox e m op h dec s = (Inr r', s') \<and> same_answer r r' \<and> books s' = books s)"
    and conflicts: "good s \<Longrightarrow> answered s op h r \<Longrightarrow> op_provider op' = op_provider op \<Longrightarrow>
      op_key op' = op_key op \<Longrightarrow> op_wallet op' = op_wallet op \<Longrightarrow> h' \<noteq> h \<Longrightarrow>
      execute e op' h' dec s = (Inl ErrConflict, s)"
begin

text \<open>A request that was processed, by HTTP or from the queue.\<close>

lemma process_answered:
  assumes "good s" and "wager_process x known (execute e) (execute_inbox e) op inbox s = (Inr r, s')"
    and "\<not> r_replay r"
  shows "operation_valid known op \<and> good s' \<and> answered s' op (operation_hash x known op) r"
proof -
  have v: "operation_valid known op" using assms(2) by (auto simp: wager_process_eq split: if_splits)
  show ?thesis
  proof (cases inbox)
    case None
    with assms v have ex: "execute e op (operation_hash x known op) (decide known op) s = (Inr r, s')"
      by (simp add: wager_process_eq)
    from good_execute [OF assms(1), of op "decide known op" e "operation_hash x known op"]
      answers [OF assms(1) _ ex assms(3)] v ex
    show ?thesis by simp
  next
    case (Some m)
    with assms v have ex: "execute_inbox e m op (operation_hash x known op) (decide known op) s = (Inr r, s')"
      by (simp add: wager_process_eq)
    from good_execute_inbox [OF assms(1), of op "decide known op" e m "operation_hash x known op"]
      answers_inbox [OF assms(1) _ ex assms(3)] v ex
    show ?thesis by simp
  qed
qed

text \<open>It is answered the same way ever after, without a further effect on the books.\<close>

lemma process_again:
  assumes "good s" and "wager_process x known (execute e) (execute_inbox e) op inbox s = (Inr r, s1)"
    and "\<not> r_replay r" and "runs s1 s2"
  shows "(\<exists>r'. wager_process x known (execute e') (execute_inbox e') op None s2 = (Inr r', s2) \<and>
      same_answer r r') \<and>
    (wager_process x known (execute e') (execute_inbox e') op (Some m) s2 = (Inl ErrConflict, s2) \<or>
     (\<exists>r' s3. wager_process x known (execute e') (execute_inbox e') op (Some m) s2 = (Inr r', s3) \<and>
        same_answer r r' \<and> books s3 = books s2)) \<and>
    (\<not> blank failure \<longrightarrow>
      (\<exists>r'. wager_fail x known (execute e') op failure s2 = (Inr r', s2) \<and> same_answer r r'))"
proof -
  note a = process_answered [OF assms(1-3)]
  have g: "good s2" and ans: "answered s2 op (operation_hash x known op) r"
    using a good_runs remembers assms(4) by blast+
  show ?thesis
    using replays [OF g ans] replays_inbox [OF g ans] a
    by (simp add: wager_process_eq wager_fail_eq)
qed

text \<open>The key cannot be used for another request.\<close>

lemma key_conflict:
  assumes "good s" and "execute e op h (decide known op) s = (Inr r, s1)"
    and "\<not> r_replay r" and "runs s1 s2" and "op_provider op' = op_provider op"
    and "op_key op' = op_key op" and "op_wallet op' = op_wallet op" and "h' \<noteq> h"
  shows "execute e' op' h' dec s2 = (Inl ErrConflict, s2)"
proof (rule conflicts)
  have "good s1" using good_execute [OF assms(1), of op "decide known op" e h] assms(2) by simp
  moreover have "answered s1 op h r" using answers [OF assms(1) _ assms(2,3)] by simp
  ultimately show "good s2" and "answered s2 op h r"
    using good_runs remembers assms(4) by blast+
qed (use assms in auto)

end

section \<open>WalletStore\<close>

text \<open>\<open>kept\<close> is what the store keeps of the time it is given.\<close>

locale wallet_store =
  fixes known :: "string \<Rightarrow> bool"
    and good :: "'s \<Rightarrow> bool"
    and runs :: "'s \<Rightarrow> 's \<Rightarrow> bool"
    and kept :: "time \<Rightarrow> time"
    and create :: "'e \<Rightarrow> wallet \<Rightarrow> 's \<Rightarrow> (err + unit) \<times> 's"
    and get :: "uuid \<Rightarrow> 's \<Rightarrow> err + wallet"
  assumes good_create: "good s \<Longrightarrow> new_wallet known wid p b now = Inr w \<Longrightarrow> 0 < kept now \<Longrightarrow>
      good (snd (create e w s))"
    and good_runs: "good s \<Longrightarrow> runs s s' \<Longrightarrow> good s'"
    and get_created: "good s \<Longrightarrow> new_wallet known wid p b now = Inr w \<Longrightarrow> 0 < kept now \<Longrightarrow>
      create e w s = (Inr u, s') \<Longrightarrow>
      get wid s' = Inr (w\<lparr>w_created := kept now, w_updated := kept now\<rparr>)"
    and get_later: "good s \<Longrightarrow> runs s s' \<Longrightarrow> get wid s = Inr w \<Longrightarrow>
      \<exists>w'. get wid s' = Inr w' \<and> w_id w' = wid \<and> w_player w' = w_player w \<and>
        currency (w_balance w') = currency (w_balance w) \<and> sint (w_version w) \<le> sint (w_version w')"
    and one_per_player: "good s \<Longrightarrow> get wid s = Inr w \<Longrightarrow> w_player w = w_player w' \<Longrightarrow>
      currency (w_balance w) = currency (w_balance w') \<Longrightarrow>
      wallet_valid known w' \<Longrightarrow> w_version w' = 1 \<Longrightarrow> create e w' s = (Inl ErrConflict, s)"
    and create_error: "create e w s = (Inl x, s') \<Longrightarrow> s' = s"
begin

lemma open_then_get:
  assumes "good s" and "wallets_open known (create e) wid now player initial s = (Inr w, s')"
    and "0 < kept now"
  shows "good s' \<and> w_id w = wid \<and> w_player w = player \<and> w_balance w = initial \<and> w_version w = 1 \<and>
    wallets_get get wid s' = Inr (w\<lparr>w_created := kept now, w_updated := kept now\<rparr>)"
proof -
  obtain u where w: "new_wallet known wid player initial now = Inr w" "create e w s = (Inr u, s')"
    using assms(2) by (auto simp: wallets_open_def split: sum.splits prod.splits)
  from good_create [OF assms(1) w(1) assms(3), of e] get_created [OF assms(1) w(1) assms(3) w(2)] w
  show ?thesis by (simp add: wallets_get_def new_wallet_Inr)
qed

lemma open_twice:
  assumes "good s" and "wallets_open known (create e) wid now player initial s = (Inr w, s1)"
    and "0 < kept now" and "runs s1 s2" and "currency initial' = currency initial"
  shows "wallets_open known (create e') wid' now' player initial' s2 = (Inl ErrConflict, s2) \<or>
    wallets_open known (create e') wid' now' player initial' s2 = (Inl ErrInvalidWallet, s2)"
proof (cases "new_wallet known wid' player initial' now'")
  case (Inl x)
  then show ?thesis by (auto simp: wallets_open_def new_wallet_def Let_def split: if_splits)
next
  case (Inr w')
  note o = open_then_get [OF assms(1-3)]
  then have "get wid s1 = Inr (w\<lparr>w_created := kept now, w_updated := kept now\<rparr>)"
    by (simp add: wallets_get_def)
  from get_later [OF conjunct1 [OF o] assms(4) this] obtain w2 where w2: "get wid s2 = Inr w2"
    "w_player w2 = player" "currency (w_balance w2) = currency initial"
    using o by auto
  have "create e' w' s2 = (Inl ErrConflict, s2)"
    by (rule one_per_player [OF good_runs [OF conjunct1 [OF o] assms(4)] w2(1)])
       (use w2 Inr assms(5) in \<open>auto simp: new_wallet_Inr\<close>)
  with Inr show ?thesis by (simp add: wallets_open_def)
qed

end

end
