(* ===== verification/StoreService.thy ===== *)
theory StoreService
  imports History StoreContract
begin

text \<open>
  The PostgreSQL store keeps the laws of the interfaces \<open>wager_store\<close> and
  \<open>wallet_store\<close>: what it answered it remembers whatever happens next, and answers again
  without a further effect. What follows for the services is stated over the store's own model.
\<close>

section \<open>Remembering an answer\<close>

definition pg_answered :: "db \<Rightarrow> operation \<Rightarrow> string \<Rightarrow> result \<Rightarrow> bool" where
  "pg_answered d op h r \<longleftrightarrow>
     list_ex (\<lambda>t. t_id t = r_transaction r \<and> t_wallet t = op_wallet op \<and>
       t_provider t = Some (op_provider op) \<and> t_external t = Some (op_external op) \<and>
       t_key t = Some (op_key op) \<and> t_hash t = Some h \<and>
       (terminal (r_status r) \<longrightarrow>
          t_status t = r_status r \<and> t_result t = Some (minor (r_balance r)) \<and>
          t_currency t = currency (r_balance r) \<and> string_value (t_failure t) = r_failure r))
       (db_wagers d)"

definition pg_books :: "db \<Rightarrow> wallet_row list \<times> wager_row list \<times> ledger_row list \<times> outbox_row list" where
  "pg_books d = (db_wallets d, db_wagers d, db_ledger d, db_outbox d)"

lemma pg_remembers:
  assumes h: "history d d'" and a: "pg_answered d op h r"
  shows "pg_answered d' op h r"
proof -
  from a obtain t where t: "t \<in> set (db_wagers d)" "t_id t = r_transaction r" "t_wallet t = op_wallet op"
    "t_provider t = Some (op_provider op)" "t_external t = Some (op_external op)"
    "t_key t = Some (op_key op)" "t_hash t = Some h"
    "terminal (r_status r) \<Longrightarrow>
          t_status t = r_status r \<and> t_result t = Some (minor (r_balance r)) \<and>
          t_currency t = currency (r_balance r) \<and> string_value (t_failure t) = r_failure r"
    unfolding pg_answered_def list_ex_iff by blast
  from h t(1) obtain t' where t': "t' \<in> set (db_wagers d')" "same_wager t t'"
    by (auto simp: history_def)
  have "terminal (r_status r) \<Longrightarrow> t' = t" using t(8) t'(2) by (simp add: same_wager_def)
  then show ?thesis
    unfolding pg_answered_def list_ex_iff
    using t t' by (intro bexI [of _ t']) (simp_all add: same_wager_def identity_columns_def)
qed

text \<open>A fresh execution is remembered.\<close>

context store_call
begin

lemma execute_tx_answered:
  assumes p: "platform_ok pf" and i: "integrity pf (tx_db t)"
    and ex: "execute_tx pf en causation op hash dec t = Inr (res, t')" and new: "\<not> r_replay res"
  shows "pg_answered (tx_db t') op hash res"
  using ex
proof (cases rule: execute_tx_cases)
  case (replay r w row)
  then show ?thesis using new by (auto simp: replay_result_def split: option.splits if_splits)
next
  case (fresh r w ref)
  have ref: "ref = None \<or> load_reference pf (op_provider op) (op_reference op) (tx_db t) = Inr ref"
    using fresh(4) by (auto split: if_splits)
  show ?thesis
  proof (rule call_executed [OF p i fresh(1,2) ref fresh(5)])
    fix dn w' os
    let ?row = "operation_row pf en op hash (en_tx en) dn w' (en_now en)"
    assume res: "res = \<lparr>r_transaction = en_tx en, r_status = d_status dn, r_balance = w_balance w',
                r_failure = d_failure dn, r_replay = False\<rparr>"
      and cur: "currency (op_money op) = currency (w_balance w')"
      and t': "tx_db t' = emit (posted_db pf en op (db_wagers (tx_db t) @ [?row]) (en_tx en) dn w'
           (en_now en) r (tx_db t)) os"
    have row: "?row \<in> set (db_wagers (tx_db t'))" by (simp add: t' posted_db_def move_wallet_def)
    have "t_currency ?row = currency (w_balance w')" using cur by (simp add: operation_row_def)
    with row show ?thesis
      unfolding pg_answered_def list_ex_iff
      by (intro bexI [of _ ?row]) (simp_all add: operation_row_def res)
  qed
qed

end

text \<open>The row is the only one the store finds for the request.\<close>

lemma only_row:
  assumes "distinct xs" and "t \<in> set xs" and "P t" and "\<forall>x\<in>set xs. P x \<longrightarrow> x = t"
  shows "filter P xs = [t]"
proof -
  have "x = t" if "x \<in> set (filter P xs)" for x
    using bspec [OF assms(4), of x] that by simp
  moreover have "t \<in> set (filter P xs)" using assms(2,3) by simp
  ultimately have "set (filter P xs) = {t}" by blast
  moreover have "distinct (filter P xs)" using assms(1) by simp
  ultimately show ?thesis
  proof (cases "filter P xs")
    case (Cons a as)
    assume "set (filter P xs) = {t}" "distinct (filter P xs)"
    with Cons have "a = t" "set as \<subseteq> {t}" "t \<notin> set as" by auto
    then show ?thesis using Cons by (cases as) auto
  qed simp
qed

lemma existing_rows_only:
  assumes k: "keys_ok d" and t: "t \<in> set (db_wagers d)" "t_provider t = Some (op_provider op)"
    "t_external t = Some (op_external op)" "t_key t = Some (op_key op)"
  shows "existing_rows d op = [t]"
  unfolding existing_rows_def
proof (rule only_row)
  have free: "clash_free wager_clash (db_wagers d)" using k by (simp add: keys_ok_def)
  show "distinct (db_wagers d)" using distinct_wagers [OF k] by (simp add: distinct_map)
  have "x = t" if x: "x \<in> set (db_wagers d)" "t_provider x = Some (op_provider op) \<and>
      (t_key x = Some (op_key op) \<or> t_external x = Some (op_external op))" for x
  proof (rule clash_free_pair [OF free x(1) t(1)])
    show "wager_clash x t" using x(2) t by (auto simp: wager_clash_def same_value_def)
  qed (rule wager_clash_sym)
  then show "\<forall>x\<in>set (db_wagers d). t_provider x = Some (op_provider op) \<and>
      (t_key x = Some (op_key op) \<or> t_external x = Some (op_external op)) \<longrightarrow> x = t" by blast
qed (use t in auto)

lemma stored_wallet:
  assumes i: "integrity pf d" and t: "t \<in> set (db_wagers d)"
  obtains r w where "find_wallet d (t_wallet t) = Some r" and "load_wallet pf r = Inr w"
    and "currency (w_balance w) = t_currency t" and "valid_currency (pf_known pf) (t_currency t)"
proof -
  from integrity_wager [OF i t] obtain r where r: "find_wallet d (t_wallet t) = Some r"
    "wr_currency r = t_currency t"
    by (auto simp: wager_ok_def split: option.splits)
  then have rr: "r \<in> set (db_wallets d)" using i by (simp add: integrity_def find_wallet_Some)
  then have "wallet_ok pf r" using i by (simp add: integrity_def list_all_iff)
  then obtain w where w: "load_wallet pf r = Inr w" by (auto simp: wallet_ok_iff)
  then have "currency (w_balance w) = t_currency t" using r(2) by (simp add: load_wallet_Inr)
  moreover have "valid_currency (pf_known pf) (t_currency t)"
    using wallet_facts [OF i rr] r(2) by simp
  ultimately show thesis using that [OF r(1) w] by blast
qed

lemma execute_tx_replays:
  assumes i: "integrity pf (tx_db t)" and a: "pg_answered (tx_db t) op h r"
  shows "\<exists>r'. execute_tx pf en causation op h dec t = Inr (r', t) \<and> same_answer r r'"
proof -
  from a obtain row where row: "row \<in> set (db_wagers (tx_db t))" "t_id row = r_transaction r"
    "t_wallet row = op_wallet op" "t_provider row = Some (op_provider op)"
    "t_external row = Some (op_external op)" "t_key row = Some (op_key op)" "t_hash row = Some h"
    and fin: "terminal (r_status r) \<Longrightarrow>
          t_status row = r_status r \<and> t_result row = Some (minor (r_balance r)) \<and>
          t_currency row = currency (r_balance r) \<and> string_value (t_failure row) = r_failure r"
    unfolding pg_answered_def list_ex_iff by blast
  have keys: "keys_ok (tx_db t)" using i by (simp add: integrity_def)
  from stored_wallet [OF i row(1)] obtain wr w where w: "find_wallet (tx_db t) (op_wallet op) = Some wr"
    "load_wallet pf wr = Inr w" "currency (w_balance w) = t_currency row"
    "valid_currency (pf_known pf) (t_currency row)"
    unfolding row(3) .
  obtain b where b: "t_result row = Some b"
    using integrity_wager [OF i row(1)] by (auto simp: wager_ok_def)
  let ?r = "\<lparr>r_transaction = t_id row, r_status = t_status row,
      r_balance = \<lparr>minor = b, currency = t_currency row\<rparr>,
      r_failure = string_value (t_failure row), r_replay = True\<rparr>"
  have "replay_result pf op h (currency (w_balance w)) row = Inr ?r"
    using row w b by (simp add: replay_result_def money_from_minor_def string_value_def)
  then have "execute_tx pf en causation op h dec t = Inr (?r, t)"
    using w existing_rows_only [OF keys row(1,4,5,6)]
    by (simp add: execute_tx_def tx_bind_def tx_get_def tx_lift_def query_wallet_def pick_row_def)
  moreover have "same_answer r ?r"
    using fin b row(2) by (cases r) (auto simp: same_answer_def)
  ultimately show ?thesis by blast
qed

lemma execute_replays:
  assumes "integrity pf d" and "pg_answered d op h r"
  shows "\<exists>r'. execute pf en op h dec d = (Inr r', d) \<and> same_answer r r'"
  using execute_tx_replays [of pf "\<lparr>tx_db = d, tx_deferred = []\<rparr>" op h r en "[]" dec] assms
  by (auto simp: execute_def with_tx_def)

lemma execute_key_conflict:
  assumes i: "integrity pf d" and a: "pg_answered d op h r" and k: "op_provider op' = op_provider op"
    "op_key op' = op_key op" "op_wallet op' = op_wallet op" "h' \<noteq> h"
  shows "execute pf en op' h' dec d = (Inl ErrConflict, d)"
proof -
  from a obtain row where row: "row \<in> set (db_wagers d)"
    "t_wallet row = op_wallet op" "t_provider row = Some (op_provider op)"
    "t_key row = Some (op_key op)" "t_hash row = Some h"
    unfolding pg_answered_def list_ex_iff by blast
  have free: "clash_free wager_clash (db_wagers d)" using i by (simp add: integrity_def keys_ok_def)
  from stored_wallet [OF i row(1)] obtain wr w where w: "find_wallet d (op_wallet op) = Some wr"
    "load_wallet pf wr = Inr w" unfolding row(2) .
  have in_ex: "row \<in> set (existing_rows d op')"
    using row k by (simp add: existing_rows_def)
  then obtain x where x: "pick_row (en_pick en) (existing_rows d op') = Some x"
    "x \<in> set (existing_rows d op')"
    by (cases "pick_row (en_pick en) (existing_rows d op')") (auto simp: pick_row_None dest: pick_row_Some)
  then have xs: "x \<in> set (db_wagers d)" "t_provider x = Some (op_provider op)"
    "t_key x = Some (op_key op) \<or> t_external x = Some (op_external op')"
    using k by (auto simp: existing_rows_def)
  have same: "x = row" if "t_key x = Some (op_key op)"
    by (rule clash_free_pair [OF free xs(1) row(1)])
       (use that xs row wager_clash_sym in \<open>auto simp: wager_clash_def same_value_def\<close>)
  have ok: "wager_ok pf d x" by (rule integrity_wager [OF i xs(1)])
  have "list_all (\<lambda>c. c \<noteq> None) (identity_columns x)"
    using ok xs(2) by (auto simp: wager_ok_def wager_row_checks_def identity_columns_def)
  then obtain hx kx where hx: "t_hash x = Some hx" "t_key x = Some kx"
    by (auto simp: identity_columns_def)
  obtain b where b: "t_result x = Some b" using ok by (auto simp: wager_ok_def)
  have "hx \<noteq> h' \<or> kx \<noteq> op_key op'"
    using same hx row k by auto
  then have "replay_result pf op' h' (currency (w_balance w)) x = Inl ErrConflict"
    using hx b by (auto simp: replay_result_def)
  then show ?thesis
    using w x k
    by (simp add: execute_def with_tx_def execute_tx_def tx_bind_def tx_get_def tx_lift_def
        query_wallet_def)
qed

section \<open>The inbox\<close>

lemma insert_inbox_row_ok:
  obtains d1 row where "insert_inbox_row (msg_row en m) d = Inr (d1, [])"
    and "d1 = d\<lparr>db_inbox := db_inbox d1\<rparr>" and "find (is_msg m) (db_inbox d1) = Some row"
proof (cases "find (is_msg m) (db_inbox d)")
  case None
  then have "\<forall>x\<in>set (db_inbox d). \<not> is_msg m x" by (simp add: find_None_iff)
  then show thesis
    using None
    by (intro that [of "d\<lparr>db_inbox := db_inbox d @ [msg_row en m]\<rparr>" "msg_row en m"])
       (auto simp: insert_inbox_row_def list_ex_iff is_msg_def msg_row_def find_append)
next
  case (Some row)
  then show thesis
    using find_SomeD [OF Some]
    by (intro that [of d row]) (auto simp: insert_inbox_row_def list_ex_iff is_msg_def msg_row_def)
qed

lemma execute_inbox_step:
  "execute_inbox pf en m op h dec d =
   with_tx (
     tx_bind (tx_run (insert_inbox_row (msg_row en m))) (\<lambda>_.
     tx_bind tx_get (\<lambda>d.
       case find (is_msg m) (db_inbox d) of
         None \<Rightarrow> tx_fail ErrNoRows
       | Some row \<Rightarrow>
           if i_hash row \<noteq> im_hash m then tx_fail ErrConflict
           else
             tx_bind (execute_tx pf en (im_id m) op h dec) (\<lambda>result.
             tx_bind
               (if i_completed row = None
                then tx_run (\<lambda>d. Inr (d\<lparr>db_inbox := update_where (is_msg m)
                         (\<lambda>i. i\<lparr>i_completed := Some (en_dbnow en)\<rparr>) (db_inbox d)\<rparr>, []))
                else tx_return ()) (\<lambda>_.
             tx_return result))))) d"
proof -
  have im: "(\<lambda>i. i_consumer i = im_consumer m \<and> i_message i = im_id m) = is_msg m"
    by (rule ext) (simp add: is_msg_def)
  show ?thesis unfolding execute_inbox_def im msg_row_def ..
qed

text \<open>A message of another hash is refused; one of the same hash gets the answer again.\<close>

lemma execute_inbox_refused:
  assumes "find (is_msg m) (db_inbox d) = Some row" and "i_hash row \<noteq> im_hash m"
  shows "execute_inbox pf en m op h dec d = (Inl ErrConflict, d)"
proof -
  have "insert_inbox_row (msg_row en m) d = Inr (d, [])"
    using find_SomeD [OF assms(1)]
    by (auto simp: insert_inbox_row_def list_ex_iff is_msg_def msg_row_def)
  then show ?thesis
    using assms
    by (simp add: execute_inbox_step with_tx_def tx_bind_def tx_run_def tx_get_def tx_fail_def)
qed

lemma execute_inbox_replays:
  assumes i: "integrity pf d" and a: "pg_answered d op h r"
  shows "execute_inbox pf en m op h dec d = (Inl ErrConflict, d) \<and>
      (\<exists>row. find (is_msg m) (db_inbox d) = Some row \<and> i_hash row \<noteq> im_hash m) \<or>
    (\<exists>r' d'. execute_inbox pf en m op h dec d = (Inr r', d') \<and> same_answer r r' \<and>
      pg_books d' = pg_books d)"
proof -
  obtain d1 row where ins: "insert_inbox_row (msg_row en m) d = Inr (d1, [])"
    and d1: "d1 = d\<lparr>db_inbox := db_inbox d1\<rparr>" and row: "find (is_msg m) (db_inbox d1) = Some row"
    by (rule insert_inbox_row_ok)
  show ?thesis
  proof (cases "i_hash row = im_hash m")
    case False
    have "\<not> list_all (\<lambda>x. \<not> is_msg m x) (db_inbox d) \<and> d1 = d"
    proof (rule ccontr)
      assume "\<not> (\<not> list_all (\<lambda>x. \<not> is_msg m x) (db_inbox d) \<and> d1 = d)"
      then have "row = msg_row en m"
        using ins row unfolding insert_inbox_row_def
        by (auto simp: list_ex_iff list_all_iff is_msg_def msg_row_def find_append find_None_iff
            split: if_splits option.splits dest!: find_SomeD)
      with False show False by (simp add: msg_row_def)
    qed
    with row False have "find (is_msg m) (db_inbox d) = Some row" by simp
    with execute_inbox_refused [OF this False] False show ?thesis by blast
  next
    case True
    have keys: "clash_free inbox_clash (db_inbox d1)"
      using insert_inbox_row_Inr [OF ins integrity_keys [OF i]] d1 by auto
    have i1: "integrity pf d1" using integrity_inbox [OF i keys] d1 by simp
    have "db_wagers d1 = db_wagers d" by (subst d1) simp
    then have "pg_answered d1 op h r" using a by (simp add: pg_answered_def)
    from execute_tx_replays [of pf "\<lparr>tx_db = d1, tx_deferred = []\<rparr>", simplified, OF i1 this]
    obtain r' where r': "execute_tx pf en (im_id m) op h dec \<lparr>tx_db = d1, tx_deferred = []\<rparr> =
        Inr (r', \<lparr>tx_db = d1, tx_deferred = []\<rparr>)" "same_answer r r'"
      by blast
    have books: "pg_books (d1\<lparr>db_inbox := ib\<rparr>) = pg_books d" "pg_books d1 = pg_books d" for ib
      by (subst d1, simp add: pg_books_def)+
    have "\<exists>d'. execute_inbox pf en m op h dec d = (Inr r', d') \<and> pg_books d' = pg_books d"
      using ins row True r'(1) books
      by (simp add: execute_inbox_step with_tx_def tx_bind_def tx_run_def tx_get_def tx_return_def)
    with r'(2) show ?thesis by blast
  qed
qed

section \<open>The laws hold\<close>

definition pg_good :: "platform \<Rightarrow> db \<Rightarrow> bool" where
  "pg_good pf d \<longleftrightarrow> platform_ok pf \<and> integrity pf d"

lemma pg_good_runs: "pg_good pf d \<Longrightarrow> runs pf d d' \<Longrightarrow> pg_good pf d' \<and> history d d'"
  using runs_integrity by (auto simp: pg_good_def)

lemma service_cases:
  assumes "service_decision (pf_known pf) op dec"
  shows "store_call pf op dec"
  using assms dsc.store_call_axioms fsc.store_call_axioms by (auto simp: service_decision_def)

context store_call
begin

lemma execute_answered:
  assumes "pg_good pf d" and "execute pf en op h dec d = (Inr r, d')" and "\<not> r_replay r"
  shows "pg_answered d' op h r"
proof -
  from assms(2) obtain t where "execute_tx pf en [] op h dec \<lparr>tx_db = d, tx_deferred = []\<rparr> = Inr (r, t)"
    "d' = tx_db t" by (auto simp: execute_def with_tx_Inr)
  with execute_tx_answered [OF _ _ this(1) assms(3)] assms(1) show ?thesis by (simp add: pg_good_def)
qed

lemma execute_inbox_answered:
  assumes "pg_good pf d" and "execute_inbox pf en m op h dec d = (Inr r, d')" and "\<not> r_replay r"
  shows "pg_answered d' op h r"
proof -
  from assms(2) obtain d1 and row :: inbox_row and t
    where ins: "insert_inbox_row (msg_row en m) d = Inr (d1, [])"
    and ex: "execute_tx pf en (im_id m) op h dec \<lparr>tx_db = d1, tx_deferred = []\<rparr> = Inr (r, t)"
    and d': "d' = (if i_completed row = None
             then (tx_db t)\<lparr>db_inbox := update_where (is_msg m)
                     (\<lambda>i. i\<lparr>i_completed := Some (en_dbnow en)\<rparr>) (db_inbox (tx_db t))\<rparr>
             else tx_db t)"
    by (rule execute_inbox_Inr)
  have g: "platform_ok pf" "integrity pf d" using assms(1) by (simp_all add: pg_good_def)
  have "integrity pf d1"
    using insert_inbox_row_Inr [OF ins integrity_keys [OF g(2)]] integrity_inbox [OF g(2)] by auto
  with execute_tx_answered [OF g(1) _ ex assms(3)] have "pg_answered (tx_db t) op h r" by simp
  then show ?thesis by (simp add: d' pg_answered_def)
qed

end

lemma get_wallet_Inr:
  "get_wallet pf wid d = Inr w \<longleftrightarrow> (\<exists>r. find_wallet d wid = Some r \<and> load_wallet pf r = Inr w)"
  by (simp add: get_wallet_def query_wallet_Inr)

lemma get_wallet_later:
  assumes g: "pg_good pf d" and "runs pf d d'" and w: "get_wallet pf wid d = Inr w"
  shows "\<exists>w'. get_wallet pf wid d' = Inr w' \<and> w_id w' = wid \<and> w_player w' = w_player w \<and>
    currency (w_balance w') = currency (w_balance w) \<and> sint (w_version w) \<le> sint (w_version w')"
proof -
  have k: "keys_ok d" using g by (simp add: pg_good_def integrity_def)
  from w obtain r where r: "r \<in> set (db_wallets d)" "wr_id r = wid" "load_wallet pf r = Inr w"
    using k by (auto simp: get_wallet_Inr find_wallet_Some)
  from pg_good_runs [OF g assms(2)] have g': "integrity pf d'" and h: "history d d'"
    by (simp_all add: pg_good_def)
  from h r(1) obtain r' where r': "r' \<in> set (db_wallets d')" "same_wallet r r'"
    by (auto simp: history_def)
  have "wallet_ok pf r'" using g' r'(1) by (simp add: integrity_def list_all_iff)
  then obtain w' where w': "load_wallet pf r' = Inr w'" by (auto simp: wallet_ok_iff)
  have "find_wallet d' wid = Some r'"
    using g' r' r(2) by (simp add: integrity_def find_wallet_Some same_wallet_def)
  with w' r r' show ?thesis
    by (intro exI [of _ w']) (auto simp: get_wallet_Inr load_wallet_Inr same_wallet_def)
qed

lemma get_wallet_created:
  assumes p: "pg_good pf d" and new: "new_wallet (pf_known pf) wid player b now = Inr w"
    and stamp: "0 < pf_stamp pf now" and c: "create_wallet pf en w d = (Inr u, d')"
  shows "get_wallet pf wid d' = Inr (w\<lparr>w_created := pf_stamp pf now, w_updated := pf_stamp pf now\<rparr>)"
proof -
  have i: "integrity pf d" and pf: "platform_ok pf" using p by (simp_all add: pg_good_def)
  then have box: "clash_free outbox_clash (db_outbox d)" by (simp add: integrity_def keys_ok_def)
  let ?r = "new_wallet_row pf w"
  have "\<exists>rest. db_wallets d' = db_wallets d @ [?r] \<and> (\<forall>x\<in>set (db_wallets d). \<not> wallet_clash ?r x)"
    using c box by (cases rule: create_wallet_Inr) (simp_all add: add_wallet_def add_opening_def)
  then have f: "find_wallet d' wid = Some ?r"
    using new by (auto simp: find_wallet_def find_append find_None_iff wallet_clash_def
        new_wallet_Inr new_wallet_row_def split: option.split dest!: find_SomeD)
  show ?thesis
    unfolding get_wallet_Inr
    by (intro exI [of _ ?r])
       (use f new stamp in \<open>auto simp: load_wallet_Inr new_wallet_row_def new_wallet_Inr
          wallet_valid_def\<close>)
qed

lemma create_wallet_conflict:
  assumes g: "pg_good pf d" and w: "get_wallet pf wid d = Inr w" and "w_player w = w_player w'"
    and "currency (w_balance w) = currency (w_balance w')" and v: "wallet_valid (pf_known pf) w'"
  shows "create_wallet pf en w' d = (Inl ErrConflict, d)"
proof -
  have k: "keys_ok d" using g by (simp add: pg_good_def integrity_def)
  from w obtain r where r: "r \<in> set (db_wallets d)" "load_wallet pf r = Inr w"
    using k by (auto simp: get_wallet_Inr find_wallet_Some)
  then have "list_ex (\<lambda>x. wr_id x = w_id w' \<or>
      wr_player x = w_player w' \<and> wr_currency x = currency (w_balance w')) (db_wallets d)"
    using assms(3,4) by (auto simp: list_ex_iff load_wallet_Inr intro!: bexI [of _ r])
  moreover have "0 \<le>s minor (w_balance w')" using v by (auto simp: wallet_valid_def go_int)
  ultimately show ?thesis
    by (simp add: create_wallet_def post_opening_def Let_def with_tx_def tx_bind_def tx_classify_def tx_run_def
        insert_wallet_row_def wallet_row_checks_def classify_def go_int)
qed

interpretation pgw: wager_store "pf_known pf" "pg_good pf" "runs pf" pg_books pg_answered
  "execute pf" "execute_inbox pf" for pf
proof unfold_locales
  fix op e h dec s m
  assume g: "pg_good pf s" and dec: "service_decision (pf_known pf) op dec"
  note call = service_cases [OF dec]
  show "pg_good pf (snd (execute pf e op h dec s))"
    using g store_call.execute_integrity [OF call] by (simp add: pg_good_def)
  show "pg_good pf (snd (execute_inbox pf e m op h dec s))"
    using g store_call.execute_inbox_integrity [OF call] by (simp add: pg_good_def)
  show "execute pf e op h dec s = (Inr r, s') \<Longrightarrow> \<not> r_replay r \<Longrightarrow> pg_answered s' op h r" for r s'
    by (rule store_call.execute_answered [OF call g])
  show "execute_inbox pf e m op h dec s = (Inr r, s') \<Longrightarrow> \<not> r_replay r \<Longrightarrow> pg_answered s' op h r"
    for r s'
    by (rule store_call.execute_inbox_answered [OF call g])
next
  fix s s'
  assume g: "pg_good pf s" and r: "runs pf s s'"
  show "pg_good pf s'" using pg_good_runs [OF g r] by simp
  show "pg_answered s op h r \<Longrightarrow> pg_answered s' op h r" for op h r
    using pg_good_runs [OF g r] pg_remembers by blast
next
  fix s op h r e dec m
  assume "pg_good pf s" and a: "pg_answered s op h r"
  then have i: "integrity pf s" by (simp add: pg_good_def)
  show "\<exists>r'. execute pf e op h dec s = (Inr r', s) \<and> same_answer r r'"
    by (rule execute_replays [OF i a])
  show "execute_inbox pf e m op h dec s = (Inl ErrConflict, s) \<or>
      (\<exists>r' s'. execute_inbox pf e m op h dec s = (Inr r', s') \<and> same_answer r r' \<and>
         pg_books s' = pg_books s)"
    using execute_inbox_replays [OF i a] by blast
  show "execute pf e op' h' dec s = (Inl ErrConflict, s)"
    if "op_provider op' = op_provider op" "op_key op' = op_key op" "op_wallet op' = op_wallet op"
      "h' \<noteq> h" for op' h'
    by (rule execute_key_conflict [OF i a that])
qed

interpretation pgs: wallet_store "pf_known pf" "pg_good pf" "runs pf" "pf_stamp pf"
  "create_wallet pf" "get_wallet pf" for pf
proof unfold_locales
  fix s wid p b now w e
  assume g: "pg_good pf s" and w: "new_wallet (pf_known pf) wid p b now = Inr w"
    and t: "0 < pf_stamp pf now"
  show "pg_good pf (snd (create_wallet pf e w s))"
    using g w t by (auto simp: pg_good_def new_wallet_Inr intro!: create_wallet_integrity)
  show "create_wallet pf e w s = (Inr u, s') \<Longrightarrow>
      get_wallet pf wid s' = Inr (w\<lparr>w_created := pf_stamp pf now, w_updated := pf_stamp pf now\<rparr>)"
    for u s'
    by (rule get_wallet_created [OF g w t])
next
  fix s s'
  assume g: "pg_good pf s" and r: "runs pf s s'"
  show "pg_good pf s'" using pg_good_runs [OF g r] by simp
  show "get_wallet pf wid s = Inr w \<Longrightarrow>
      \<exists>w'. get_wallet pf wid s' = Inr w' \<and> w_id w' = wid \<and> w_player w' = w_player w \<and>
        currency (w_balance w') = currency (w_balance w) \<and> sint (w_version w) \<le> sint (w_version w')"
    for wid w
    by (rule get_wallet_later [OF g r])
next
  show "create_wallet pf e w' s = (Inl ErrConflict, s)"
    if "pg_good pf s" "get_wallet pf wid s = Inr w" "w_player w = w_player w'"
      "currency (w_balance w) = currency (w_balance w')" "wallet_valid (pf_known pf) w'"
    for s wid w w' e
    by (rule create_wallet_conflict [OF that])
  show "create_wallet pf e w s = (Inl x, s') \<Longrightarrow> s' = s" for e w s x s'
    by (auto simp: create_wallet_def post_opening_def Let_def dest: with_tx_Inl)
qed

section \<open>Properties\<close>

lemma reachable_good: "platform_ok pf \<Longrightarrow> reachable pf d \<Longrightarrow> pg_good pf d"
  by (simp add: pg_good_def reachable_ok)

text \<open>
  C5: A request that was processed once, by HTTP or from a message, is answered with the same
  transaction ever after, whatever happened in between: sent again by HTTP it changes nothing at
  all; as a message it changes nothing but the inbox (or is refused, when the message id was used
  for another body); giving it up with \<^verbatim>\<open>Fail\<close> does not undo it. The answer is flagged as a
  replay, and is the same in full once the transaction is final.
\<close>

theorem processing_is_idempotent:
  assumes "platform_ok pf" and "reachable pf d"
    and "wager_process x (pf_known pf) (execute pf en) (execute_inbox pf en) op inbox d = (Inr r, d1)"
    and "\<not> r_replay r" and "runs pf d1 d2" and "\<not> blank failure"
  shows "(\<exists>r'. wager_process x (pf_known pf) (execute pf en') (execute_inbox pf en') op None d2 =
        (Inr r', d2) \<and> same_answer r r') \<and>
    (wager_process x (pf_known pf) (execute pf en') (execute_inbox pf en') op (Some m) d2 =
        (Inl ErrConflict, d2) \<or>
     (\<exists>r' d3. wager_process x (pf_known pf) (execute pf en') (execute_inbox pf en') op (Some m) d2 =
        (Inr r', d3) \<and> same_answer r r' \<and> db_wallets d3 = db_wallets d2 \<and>
        db_wagers d3 = db_wagers d2 \<and> db_ledger d3 = db_ledger d2 \<and> db_outbox d3 = db_outbox d2)) \<and>
    (\<exists>r'. wager_fail x (pf_known pf) (execute pf en') op failure d2 = (Inr r', d2) \<and> same_answer r r')"
  using pgw.process_again [OF reachable_good [OF assms(1,2)] assms(3-5), of en' m failure] assms(6)
  by (simp add: pg_books_def)

lemma sample_processed:
  "wager_process sample_texts brl_only (execute sample_platform (sample_env 200 2000))
     (execute_inbox sample_platform (sample_env 200 2000)) sample_bet None opened_db =
   (Inr \<lparr>r_transaction = 200, r_status = Processed, r_balance = brl 20, r_failure = [],
        r_replay = False\<rparr>, bet_db)"
  using sample_bet_executed sample_bet_valid
  by (simp add: wager_process_eq sample_hash_def sample_platform_def)

lemma processing_is_idempotent_witness:
  "\<exists>r'. wager_process sample_texts brl_only (execute sample_platform (sample_env 900 9000))
     (execute_inbox sample_platform (sample_env 900 9000)) sample_bet None refund_db = (Inr r', refund_db) \<and>
     r_transaction r' = 200 \<and> r_balance r' = brl 20"
proof -
  have k: "pf_known sample_platform = brl_only" by (simp add: sample_platform_def)
  have run: "runs sample_platform bet_db refund_db"
    unfolding refund_db_def by (rule runs_step) (rule store_step.process)
  show ?thesis
    using processing_is_idempotent [OF sample_platform_ok opened_reachable
        sample_processed [folded k] _ run, of "''x''" "sample_env 900 9000"]
    by (auto simp: same_answer_def visible_not_blank visible_def k)
qed

text \<open>
  C23: The idempotency key of a processed request cannot serve another payload on the wallet: the
  second is refused as a conflict, whatever happened in between, and changes nothing.
\<close>

theorem idempotency_key_conflict:
  assumes "platform_ok pf" and "reachable pf d"
    and "execute pf en op h (decide (pf_known pf) op) d = (Inr r, d1)"
    and "\<not> r_replay r" and "runs pf d1 d2" and "op_provider op' = op_provider op"
    and "op_key op' = op_key op" and "op_wallet op' = op_wallet op" and "h' \<noteq> h"
  shows "execute pf en' op' h' dec d2 = (Inl ErrConflict, d2)"
  by (rule pgw.key_conflict [OF reachable_good [OF assms(1,2)] assms(3-9)])

lemma idempotency_key_conflict_witness:
  "execute sample_platform (sample_env 900 9000) (sample_bet\<lparr>op_external := ''e9''\<rparr>) ''other''
     (fail_decision ''x'') bet_db = (Inl ErrConflict, bet_db)"
proof -
  have "sample_hash \<noteq> ''other''"
  proof
    assume "sample_hash = ''other''"
    then have "length ''other'' = 64" using length_sample_hash by simp
    then show False by simp
  qed
  with idempotency_key_conflict [OF sample_platform_ok opened_reachable sample_bet_executed _ runs_refl]
  show ?thesis by simp
qed

text \<open>
  C25: A wallet that was opened is found from then on, with its player and currency; until money
  moves it is the wallet that was asked for, but for the resolution of its time stamps.
  Opening another wallet for the player in the same currency is refused ever after and changes
  nothing.
\<close>

theorem open_wallet_once:
  assumes "platform_ok pf" and "reachable pf d" and "0 < pf_stamp pf now"
    and "wallets_open (pf_known pf) (create_wallet pf en) wid now player initial d = (Inr w, d1)"
    and "runs pf d1 d2" and "currency initial' = currency initial"
  shows "wallets_get (get_wallet pf) wid d1 =
      Inr (w\<lparr>w_created := pf_stamp pf now, w_updated := pf_stamp pf now\<rparr>) \<and>
    w_id w = wid \<and> w_player w = player \<and> w_balance w = initial \<and> w_version w = 1 \<and>
    (\<exists>w2. wallets_get (get_wallet pf) wid d2 = Inr w2 \<and> w_player w2 = player \<and>
      currency (w_balance w2) = currency initial) \<and>
    (\<exists>e\<in>{ErrConflict, ErrInvalidWallet}.
      wallets_open (pf_known pf) (create_wallet pf en') wid' now' player initial' d2 = (Inl e, d2))"
proof -
  note g = reachable_good [OF assms(1,2)]
  note o = pgs.open_then_get [OF g assms(4,3)]
  have "get_wallet pf wid d1 = Inr (w\<lparr>w_created := pf_stamp pf now, w_updated := pf_stamp pf now\<rparr>)"
    using o by (simp add: wallets_get_def)
  from pgs.get_later [OF conjunct1 [OF o] assms(5) this] obtain w2 where
    "wallets_get (get_wallet pf) wid d2 = Inr w2" "w_player w2 = player"
    "currency (w_balance w2) = currency initial"
    using o by (auto simp: wallets_get_def)
  with o pgs.open_twice [OF g assms(4,3,5,6), of en' wid' now'] show ?thesis by auto
qed

lemma sample_opened:
  "wallets_open brl_only (create_wallet sample_platform (sample_env 100 1000)) 10 1000 20 (brl 100)
     empty_db =
   (Inr \<lparr>w_id = 10, w_player = 20, w_balance = brl 100, w_version = 1, w_created = 1000,
      w_updated = 1000\<rparr>, opened_db)"
proof -
  have "fst (create_wallet sample_platform (sample_env 100 1000)
     \<lparr>w_id = 10, w_player = 20, w_balance = brl 100, w_version = 1, w_created = 1000,
      w_updated = 1000\<rparr> empty_db) = Inr ()"
    unfolding create_wallet_def post_opening_def
    by (simp add: tx_eval statement_eval trigger_eval domain_eval event_eval empty_db_def
      sample_platform_def sample_env_def insert_ledger_def brl_def)
  then show ?thesis
    by (simp add: wallets_open_def new_wallet_def wallet_valid_def go_int opened_db_def prod_eq_iff
        split: prod.split sum.split)
qed

lemma open_wallet_once_witness:
  "\<exists>w2. wallets_get (get_wallet sample_platform) 10 bet_db = Inr w2 \<and> w_player w2 = 20"
proof -
  have k: "pf_known sample_platform = brl_only" by (simp add: sample_platform_def)
  have run: "runs sample_platform opened_db bet_db"
    unfolding bet_db_def by (rule runs_step) (rule store_step.process)
  have stamp: "0 < pf_stamp sample_platform 1000" by (simp add: sample_platform_def)
  from open_wallet_once [OF sample_platform_ok reachable.start stamp sample_opened [folded k] run refl,
      where en' = "sample_env 1 1" and wid' = 11 and now' = 1]
  show ?thesis by auto
qed

section \<open>One execution\<close>

lemma execute_new_effect:
  assumes p: "platform_ok pf" and i: "integrity pf d"
    and ex: "execute pf en op hash (decide (pf_known pf) op) d = (Inr r, d')"
  shows "r_replay r \<and> d' = d \<or>
    (\<exists>wr w ref dn w' os. find_wallet d (op_wallet op) = Some wr \<and> load_wallet pf wr = Inr w \<and>
      existing_rows d op = [] \<and>
      (if op_reference op \<noteq> [] then load_reference pf (op_provider op) (op_reference op) d
       else Inr None) = Inr ref \<and>
      decide (pf_known pf) op w ref (en_now en) = (dn, w') \<and> external_kind (op_kind op) \<and>
      r = \<lparr>r_transaction = en_tx en, r_status = d_status dn, r_balance = w_balance w',
           r_failure = d_failure dn, r_replay = False\<rparr> \<and>
      queued_all en (op_wallet op) (event_types dn) os \<and>
      d' = emit (posted_db pf en op
             (db_wagers d @ [operation_row pf en op hash (en_tx en) dn w' (en_now en)])
             (en_tx en) dn w' (en_now en) wr d) os)"
proof -
  from ex obtain t where tx: "execute_tx pf en [] op hash (decide (pf_known pf) op)
      \<lparr>tx_db = d, tx_deferred = []\<rparr> = Inr (r, t)" and d': "d' = tx_db t"
    by (auto simp: execute_def with_tx_Inr)
  from tx show ?thesis
  proof (cases rule: execute_tx_cases)
    case (replay wr w row)
    then show ?thesis using d' by (auto simp: replay_result_def split: option.splits if_splits)
  next
    case (fresh wr w ref)
    have ref: "ref = None \<or> load_reference pf (op_provider op) (op_reference op) d = Inr ref"
      using fresh(4) by (auto split: if_splits)
    from fresh(1,3,4) have f: "find_wallet d (op_wallet op) = Some wr" "existing_rows d op = []"
      "(if op_reference op \<noteq> [] then load_reference pf (op_provider op) (op_reference op) d
        else Inr None) = Inr ref" by (simp_all split: if_splits)
    show ?thesis
    proof (rule dsc.call_executed [OF p _ _ fresh(2) _ fresh(5)])
      show "integrity pf (tx_db \<lparr>tx_db = d, tx_deferred = []\<rparr>)" using i by simp
      show "find_wallet (tx_db \<lparr>tx_db = d, tx_deferred = []\<rparr>) (op_wallet op) = Some wr"
        using f(1) by simp
      show "ref = None \<or> load_reference pf (op_provider op) (op_reference op)
          (tx_db \<lparr>tx_db = d, tx_deferred = []\<rparr>) = Inr ref" using ref by simp
    next
      fix dn w' os
      assume "decide (pf_known pf) op w ref (en_now en) = (dn, w')" "external_kind (op_kind op)"
        "r = \<lparr>r_transaction = en_tx en, r_status = d_status dn, r_balance = w_balance w',
           r_failure = d_failure dn, r_replay = False\<rparr>"
        "queued_all en (op_wallet op) (event_types dn) os"
        "tx_db t = emit (posted_db pf en op
             (db_wagers (tx_db \<lparr>tx_db = d, tx_deferred = []\<rparr>) @
              [operation_row pf en op hash (en_tx en) dn w' (en_now en)])
             (en_tx en) dn w' (en_now en) wr (tx_db \<lparr>tx_db = d, tx_deferred = []\<rparr>)) os"
      with f fresh(2) d' show ?thesis
        by (intro disjI2, rule_tac exI [of _ wr], rule_tac exI [of _ w], rule_tac exI [of _ ref],
            rule_tac exI [of _ dn], rule_tac exI [of _ w'], rule_tac exI [of _ os]) simp
    qed
  qed
qed

lemma queued_all_types:
  "queued_all en wid tys os \<Longrightarrow> map o_type os = tys \<and>
   list_all (\<lambda>ob. o_aggregate ob = wid \<and> o_published ob = None) os"
  unfolding queued_all_def by (induction rule: list_all2_induct) (simp_all add: queued_def)

text \<open>
  C4: Executing a request is all or nothing. An error or a replay leaves the database as it was.
  Otherwise one transaction row is appended, with the outcome \<^verbatim>\<open>Decide\<close> gives for the
  stored wallet and reference; when the decision moves money, exactly the wallet's row changes,
  to the balance and the next version, one matching ledger entry is appended, and a balance event
  and the outcome event are queued; when not, wallets and ledger are untouched and only the
  outcome event is queued.
\<close>

theorem execute_all_or_nothing:
  assumes "platform_ok pf" and "reachable pf d"
    and "execute pf en op hash (decide (pf_known pf) op) d = (res, d')"
  shows "(\<exists>e. res = Inl e \<and> d' = d) \<or> (\<exists>r. res = Inr r \<and> r_replay r \<and> d' = d) \<or>
    (\<exists>wr w ref dn w' os. find_wallet d (op_wallet op) = Some wr \<and> load_wallet pf wr = Inr w \<and>
      (if op_reference op \<noteq> [] then load_reference pf (op_provider op) (op_reference op) d
       else Inr None) = Inr ref \<and>
      decide (pf_known pf) op w ref (en_now en) = (dn, w') \<and>
      res = Inr \<lparr>r_transaction = en_tx en, r_status = d_status dn, r_balance = w_balance w',
           r_failure = d_failure dn, r_replay = False\<rparr> \<and>
      db_wagers d' = db_wagers d @ [operation_row pf en op hash (en_tx en) dn w' (en_now en)] \<and>
      db_wallets d' = (if d_direction dn = no_direction then db_wallets d
        else map (\<lambda>x. if wr_id x = wr_id wr
               then wr\<lparr>wr_balance := minor (w_balance w'), wr_version := wr_version wr + 1,
                       wr_updated := pf_stamp pf (en_now en)\<rparr> else x) (db_wallets d)) \<and>
      db_ledger d' = db_ledger d @ (if d_direction dn = no_direction then []
        else [\<lparr>l_id = en_entry en, l_wallet = op_wallet op, l_transaction = en_tx en,
               l_direction = d_direction dn, l_amount = minor (op_money op),
               l_before = wr_balance wr, l_after = minor (w_balance w'),
               l_version = wr_version wr + 1, l_created = pf_stamp pf (en_now en)\<rparr>]) \<and>
      db_inbox d' = db_inbox d \<and> db_outbox d' = db_outbox d @ os \<and>
      map o_type os = (if d_direction dn = no_direction then [] else [''WalletBalanceChanged'']) @
        wager_event_types (d_status dn) \<and>
      list_all (\<lambda>ob. o_aggregate ob = op_wallet op \<and> o_published ob = None) os)"
proof (cases res)
  case (Inl e)
  with assms(3) show ?thesis by (auto simp: execute_def dest: with_tx_Inl)
next
  case (Inr r)
  note i = reachable_ok [OF assms(1,2)]
  from execute_new_effect [OF assms(1) i assms(3) [unfolded Inr]] show ?thesis
  proof (elim disjE exE conjE)
    assume "r_replay r" "d' = d"
    with Inr show ?thesis by simp
  next
    fix wr w ref dn w' os
    assume wr: "find_wallet d (op_wallet op) = Some wr" and w: "load_wallet pf wr = Inr w"
      and ref: "(if op_reference op \<noteq> [] then load_reference pf (op_provider op) (op_reference op) d
        else Inr None) = Inr ref"
      and dec: "decide (pf_known pf) op w ref (en_now en) = (dn, w')" and ext: "external_kind (op_kind op)"
      and r: "r = \<lparr>r_transaction = en_tx en, r_status = d_status dn, r_balance = w_balance w',
           r_failure = d_failure dn, r_replay = False\<rparr>"
      and os: "queued_all en (op_wallet op) (event_types dn) os"
      and d': "d' = emit (posted_db pf en op
             (db_wagers d @ [operation_row pf en op hash (en_tx en) dn w' (en_now en)])
             (en_tx en) dn w' (en_now en) wr d) os"
    have id: "wr_id wr = op_wallet op" using wr by (rule find_wallet_id)
    have moved: "w_version w' = wr_version wr + 1 \<and> minor (d_before dn) = wr_balance wr"
      if "d_direction dn \<noteq> no_direction"
      using dcd.dec_movement [OF dec ext that] dcd.dec_moves [OF dec ext that] w
      by (simp add: load_wallet_Inr)
    show ?thesis
      by (intro disjI2, rule exI [of _ wr], rule exI [of _ w], rule exI [of _ ref], rule exI [of _ dn],
          rule exI [of _ w'], rule exI [of _ os])
         (use wr w ref dec r os queued_all_types [OF os] d' moved id Inr in
           \<open>simp add: posted_db_def move_wallet_def moved_row_def movement_entry_def update_where_def
              event_types_def\<close>)
  qed
qed

lemma execute_all_or_nothing_witness:
  "\<exists>os. db_outbox bet_db = db_outbox opened_db @ os \<and> list_all (\<lambda>ob. o_published ob = None) os"
proof -
  from execute_all_or_nothing [OF sample_platform_ok opened_reachable sample_bet_executed]
  show ?thesis by (elim disjE exE conjE) (auto simp: list_all_iff)
qed

section \<open>Messages delivered again\<close>

lemma find_message:
  assumes "clash_free inbox_clash ib" and "i \<in> set ib" and "is_msg m i"
  shows "find (is_msg m) ib = Some i"
proof (cases "find (is_msg m) ib")
  case None
  with assms(2,3) show ?thesis by (auto simp: find_None_iff)
next
  case (Some j)
  note j = find_SomeD [OF Some]
  have "i = j"
    by (rule clash_free_pair [OF assms(1,2) conjunct1 [OF j]])
       (use assms(3) j in \<open>auto simp: is_msg_def inbox_clash_def\<close>)
  with Some show ?thesis by simp
qed

lemma execute_inbox_recorded:
  assumes g: "pg_good pf d" and ex: "execute_inbox pf en m op h (decide (pf_known pf) op) d = (Inr r, d')"
  shows "\<exists>i\<in>set (db_inbox d'). is_msg m i \<and> i_hash i = im_hash m"
proof -
  from ex obtain d1 and row :: inbox_row and t
    where ins: "insert_inbox_row (msg_row en m) d = Inr (d1, [])"
    and row: "find (is_msg m) (db_inbox d1) = Some row" "i_hash row = im_hash m"
    and ex': "execute_tx pf en (im_id m) op h (decide (pf_known pf) op)
      \<lparr>tx_db = d1, tx_deferred = []\<rparr> = Inr (r, t)"
    and d': "d' = (if i_completed row = None
             then (tx_db t)\<lparr>db_inbox := update_where (is_msg m)
                     (\<lambda>i. i\<lparr>i_completed := Some (en_dbnow en)\<rparr>) (db_inbox (tx_db t))\<rparr>
             else tx_db t)"
    by (rule execute_inbox_Inr)
  have g': "platform_ok pf" "integrity pf d" using g by (simp_all add: pg_good_def)
  have "integrity pf d1"
    using insert_inbox_row_Inr [OF ins integrity_keys [OF g'(2)]] integrity_inbox [OF g'(2)] by auto
  with dsc.execute_tx_history [OF g'(1) _ ex'] have "history d1 (tx_db t)" by simp
  then obtain i where i: "i \<in> set (db_inbox (tx_db t))" "same_message row i"
    using find_SomeD [OF row(1)] by (auto simp: history_def)
  have "is_msg m i" "i_hash i = im_hash m"
    using i(2) row find_SomeD [OF row(1)] by (auto simp: same_message_def is_msg_def)
  moreover have "\<exists>i'\<in>set (db_inbox d'). same_message i i'"
    unfolding d' using i(1) kept_message updated_message [of "is_msg m"] by simp
  ultimately show ?thesis by (auto simp: same_message_def is_msg_def)
qed

lemma inbox_again:
  assumes g: "pg_good pf d"
    and "execute_inbox pf en m op h (decide (pf_known pf) op) d = (Inr r, d1)" and "\<not> r_replay r"
    and "runs pf d1 d2" and "im_consumer m' = im_consumer m" and "im_id m' = im_id m"
  shows "(im_hash m' \<noteq> im_hash m \<longrightarrow> execute_inbox pf en' m' op' h' dec d2 = (Inl ErrConflict, d2)) \<and>
    (im_hash m' = im_hash m \<longrightarrow>
      (\<exists>r' d3. execute_inbox pf en' m' op h dec d2 = (Inr r', d3) \<and> same_answer r r' \<and>
         db_wallets d3 = db_wallets d2 \<and> db_wagers d3 = db_wagers d2 \<and>
         db_ledger d3 = db_ledger d2 \<and> db_outbox d3 = db_outbox d2))"
proof -
  have g1: "pg_good pf d1"
    using pgw.good_execute_inbox [OF g, of op "decide (pf_known pf) op" en m h] assms(2) by simp
  note r2 = pg_good_runs [OF g1 assms(4)]
  then have i2: "integrity pf d2" by (simp add: pg_good_def)
  have ans: "pg_answered d2 op h r"
    by (rule pg_remembers [OF conjunct2 [OF r2]]) (use pgw.answers_inbox [OF g _ assms(2,3)] in simp)
  from execute_inbox_recorded [OF g assms(2)] r2 obtain i where i: "i \<in> set (db_inbox d2)"
    "is_msg m' i" "i_hash i = im_hash m"
    using assms(5,6) by (fastforce simp: history_def same_message_def is_msg_def)
  have f: "find (is_msg m') (db_inbox d2) = Some i"
    by (rule find_message [OF integrity_keys [OF i2] i(1,2)])
  show ?thesis
    using execute_inbox_refused [OF f] execute_inbox_replays [OF i2 ans, of en' m' dec] f i(3)
    by (auto simp: pg_books_def)
qed

text \<open>
  C24: A message delivered again is recognised by consumer and message id: with another body it is
  refused and changes nothing; with the same body the request is answered again with the same
  transaction and only the inbox can change.
\<close>

theorem inbox_redelivery:
  assumes "platform_ok pf" and "reachable pf d"
    and "execute_inbox pf en m op h (decide (pf_known pf) op) d = (Inr r, d1)" and "\<not> r_replay r"
    and "runs pf d1 d2" and "im_consumer m' = im_consumer m" and "im_id m' = im_id m"
  shows "(im_hash m' \<noteq> im_hash m \<longrightarrow> execute_inbox pf en' m' op' h' dec d2 = (Inl ErrConflict, d2)) \<and>
    (im_hash m' = im_hash m \<longrightarrow>
      (\<exists>r' d3. execute_inbox pf en' m' op h dec d2 = (Inr r', d3) \<and> same_answer r r' \<and>
         db_wallets d3 = db_wallets d2 \<and> db_wagers d3 = db_wagers d2 \<and>
         db_ledger d3 = db_ledger d2 \<and> db_outbox d3 = db_outbox d2))"
  by (rule inbox_again [OF reachable_good [OF assms(1,2)] assms(3-7)])

definition sample_message :: inbox_message where
  "sample_message = \<lparr>im_consumer = ''c'', im_id = ''m1'', im_hash = ''h1''\<rparr>"

lemma sample_message_executed:
  assumes "m = \<lparr>im_consumer = c, im_id = ''m1'', im_hash = h\<rparr>"
  shows "fst (execute_inbox sample_platform (sample_env 200 2000) m sample_bet sample_hash
     (decide (pf_known sample_platform) sample_bet) opened_db) =
   Inr \<lparr>r_transaction = 200, r_status = Processed, r_balance = brl 20, r_failure = [],
        r_replay = False\<rparr>"
proof -
  have "\<not> list_ex (\<lambda>x. o_id x = 200) (db_outbox opened_db)"
    "\<not> list_ex (\<lambda>x. o_id x = 201) (db_outbox opened_db)"
    by (rule outbox_fresh; simp add: opened_db_tables)+
  then show ?thesis
    by (simp add: execute_inbox_def insert_inbox_row_def assms execute_eval decide_eval
        tx_eval statement_eval trigger_eval domain_eval event_eval opened_db_tables
        sample_platform_def sample_env_def sample_bet_def brl_def visible_not_blank visible_def)
qed

lemma inbox_redelivery_witness:
  "\<exists>d1. execute_inbox sample_platform (sample_env 900 9000) (sample_message\<lparr>im_hash := ''h2''\<rparr>)
     sample_bet sample_hash (fail_decision ''x'') d1 = (Inl ErrConflict, d1) \<and> db_ledger d1 \<noteq> []"
proof -
  define d1 where "d1 = snd (execute_inbox sample_platform (sample_env 200 2000) sample_message
     sample_bet sample_hash (decide (pf_known sample_platform) sample_bet) opened_db)"
  have ex: "execute_inbox sample_platform (sample_env 200 2000) sample_message sample_bet sample_hash
     (decide (pf_known sample_platform) sample_bet) opened_db =
   (Inr \<lparr>r_transaction = 200, r_status = Processed, r_balance = brl 20, r_failure = [],
        r_replay = False\<rparr>, d1)"
    using sample_message_executed [OF sample_message_def] by (simp add: d1_def prod_eq_iff)
  have "store_step sample_platform opened_db d1" unfolding d1_def by (rule store_step.process_inbox)
  from step_history [OF sample_platform_ok reachable_ok [OF sample_platform_ok opened_reachable] this]
  have "db_ledger d1 \<noteq> []" by (auto simp: history_def opened_db_tables)
  with inbox_redelivery [OF sample_platform_ok opened_reachable ex _ runs_refl,
      of "sample_message\<lparr>im_hash := ''h2''\<rparr>"]
  show ?thesis by (intro exI [of _ d1]) (simp add: sample_message_def)
qed

end
