(* ===== verification/Delivery.thy ===== *)
theory Delivery
  imports Worker StoreService
begin

text \<open>
  What the workers guarantee. The consumer relies on its interface \<^verbatim>\<open>wagerProcessor\<close> by
  the laws of the locale \<open>wager_processor\<close>, the publisher on \<^verbatim>\<open>outboxStore\<close> by those of
  \<open>outbox_source\<close>; both are interpreted on the service over the PostgreSQL store.
\<close>

lemma sqs_do_calls: "on_queue (sqs_do cl k) w = (sdk_call (cl_sdk cl) (ws_calls w) k,
    w\<lparr>ws_calls := ws_calls w @ [k]\<rparr>)"
  by (simp add: on_queue_def sqs_do_def)

lemmas queue_calls = dead_letter_def change_visibility_def delete_message_def sqs_do_calls

lemma count_metric_sel [simp]:
  "ws_calls (count_metric n w) = ws_calls w" "ws_store (count_metric n w) = ws_store w"
  "ws_metrics (count_metric n w) = metric_inc n (ws_metrics w)"
  by (simp_all add: count_metric_def)

lemma add_metric_sel [simp]:
  "ws_calls (add_metric n v w) = ws_calls w" "ws_store (add_metric n v w) = ws_store w"
  "ws_metrics (add_metric n v w) = metric_add n v (ws_metrics w)"
  by (simp_all add: add_metric_def)

lemma on_store_eq: "on_store f w = (a, w') \<longleftrightarrow>
    f (ws_store w) = (a, ws_store w') \<and> w' = w\<lparr>ws_store := ws_store w'\<rparr>"
  by (auto simp: on_store_def split: prod.splits)

section \<open>The consumer\<close>

text \<open>
  How a message leaves \<open>consume\<close>: the calls made of the queues, given whether the request is
  on record. \<open>sdk_call\<close> answers \<open>None\<close> when the call succeeds.
\<close>

definition removed :: "client \<Rightarrow> message \<Rightarrow> sqs_call" where
  "removed cl m = DeleteMessage (cl_input cl) (m_receipt m)"

definition buried :: "client \<Rightarrow> message \<Rightarrow> sqs_call" where
  "buried cl m = SendMessage (cl_dlq cl) (m_id m) (m_id m) (m_body m)"

definition shown_again :: "client \<Rightarrow> message \<Rightarrow> int64 \<Rightarrow> sqs_call" where
  "shown_again cl m delay = ChangeMessageVisibility (cl_input cl) (m_receipt m) (visibility_seconds delay)"

definition accounted :: "client \<Rightarrow> moment \<Rightarrow> message \<Rightarrow> sqs_call list \<Rightarrow> bool \<Rightarrow> sqs_call list \<Rightarrow> bool" where
  "accounted cl mo m before on_record ks \<longleftrightarrow>
     on_record \<and> ks = [removed cl m] \<or>
     on_record \<and> mo_fault mo \<and> ks = [] \<or>
     sdk_call (cl_sdk cl) before (buried cl m) = None \<and> ks = [buried cl m, removed cl m] \<or>
     sdk_call (cl_sdk cl) before (buried cl m) \<noteq> None \<and> ks = [buried cl m] \<or>
     mo_done mo \<and> ks = [shown_again cl m 0] \<or>
     sint (m_count m) < 5 \<and> ks = [shown_again cl m (queue_retry_delay (m_count m))]"

lemma to_dead_letters_calls:
  "\<exists>ks. ws_calls (to_dead_letters cl m w) = ws_calls w @ ks \<and>
     (sdk_call (cl_sdk cl) (ws_calls w) (buried cl m) = None \<and> ks = [buried cl m, removed cl m] \<or>
      sdk_call (cl_sdk cl) (ws_calls w) (buried cl m) \<noteq> None \<and> ks = [buried cl m])"
  "ws_store (to_dead_letters cl m w) = ws_store w"
  by (auto simp: to_dead_letters_def queue_calls buried_def removed_def split: option.split)

text \<open>
  The envelope of \<^verbatim>\<open>recordPermanentFailure\<close> reads the same type and data as the one of
  \<^verbatim>\<open>handle\<close>.
\<close>

lemma envelope_folds:
  "fold_name ''messageId'' \<noteq> fold_name ''type''" "fold_name ''messageId'' \<noteq> fold_name ''data''"
  by (simp_all add: fold_name_def runes.simps utf8_width_def lead_width_def code_def fold_rune_def
      lower_char_def byte_char_def Let_def)

definition id_field :: "message_envelope field" where
  "id_field = (''messageId'', set_string (\<lambda>s e. e\<lparr>me_id := s\<rparr>))"

lemma envelope_field_cases:
  "find_field envelope_fields k = find_field failure_fields k \<or>
   find_field envelope_fields k = Some (snd id_field) \<and> find_field failure_fields k = None"
proof (cases "map_of failure_fields k")
  case (Some f)
  then show ?thesis by (auto simp: find_field_def envelope_fields_def failure_fields_def)
next
  case None
  then show ?thesis
    using envelope_folds
    by (auto simp: find_field_def envelope_fields_def failure_fields_def id_field_def
        split: if_splits)
qed

lemma failure_field_same:
  assumes "find_field failure_fields k = Some f" and "me_type e' = me_type e" and "me_data e' = me_data e"
    and "f v e = Inr e1"
  shows "\<exists>e1'. f v e' = Inr e1' \<and> me_type e1' = me_type e1 \<and> me_data e1' = me_data e1"
proof -
  have "f = set_string (\<lambda>s e. e\<lparr>me_type := s\<rparr>) \<or> f = set_custom Inr (\<lambda>v e. e\<lparr>me_data := Some v\<rparr>)"
    using assms(1) by (auto simp: find_field_def failure_fields_def split: if_splits)
  then show ?thesis
    using assms(2-4) by (auto simp: set_string_def set_custom_def rbind_def split: json.splits)
qed

lemma id_field_keeps:
  "snd id_field v e = Inr e1 \<Longrightarrow> me_type e1 = me_type e \<and> me_data e1 = me_data e"
  by (auto simp: id_field_def set_string_def split: json.splits)

lemma failure_envelope:
  assumes "decode_fields False envelope_fields kvs e = Inr e1"
    and "me_type e' = me_type e" and "me_data e' = me_data e"
  shows "\<exists>e1'. decode_fields False failure_fields kvs e' = Inr e1' \<and>
    me_type e1' = me_type e1 \<and> me_data e1' = me_data e1"
  using assms
proof (induction kvs arbitrary: e e')
  case (Cons kv kvs)
  obtain k v where kv: "kv = (k, v)" by (cases kv)
  show ?case
  proof (cases "find_field failure_fields k")
    case None
    then consider "find_field envelope_fields k = None" | "find_field envelope_fields k = Some (snd id_field)"
      using envelope_field_cases [of k] by auto
    then show ?thesis
    proof cases
      case 1
      with None Cons show ?thesis by (simp add: kv)
    next
      case 2
      with Cons.prems(1) obtain e2 where e2: "snd id_field v e = Inr e2"
        "decode_fields False envelope_fields kvs e2 = Inr e1"
        by (auto simp: kv rbind_def split: sum.splits)
      with id_field_keeps [OF e2(1)] Cons.IH [OF e2(2), of e'] Cons.prems None show ?thesis
        by (simp add: kv)
    qed
  next
    case (Some f)
    with envelope_field_cases [of k] have env: "find_field envelope_fields k = Some f" by auto
    with Cons.prems(1) obtain e2 where e2: "f v e = Inr e2"
      "decode_fields False envelope_fields kvs e2 = Inr e1"
      by (auto simp: kv rbind_def split: sum.splits)
    from failure_field_same [OF Some Cons.prems(2,3) e2(1)] obtain e2' where
      "f v e' = Inr e2'" "me_type e2' = me_type e2" "me_data e2' = me_data e2" by blast
    with Cons.IH [OF e2(2), of e2'] Some show ?thesis by (simp add: kv rbind_def)
  qed
qed simp

lemma failure_request:
  assumes "message_request y known body = Some (mid, p)"
  obtains e where "unmarshal failure_fields no_envelope body = Some e" and "me_type e = requested_type"
    and "request_operation y known (me_data e) = Some p"
proof -
  from assms obtain e1 where e1: "unmarshal envelope_fields no_envelope body = Some e1"
    "me_type e1 = requested_type" "request_operation y known (me_data e1) = Some p"
    by (auto simp: message_request_def split: option.splits if_splits)
  then obtain v where v: "parse_document body = Some v"
    "decode_struct False envelope_fields v no_envelope = Inr e1"
    by (auto simp: unmarshal_def split: option.splits sum.splits)
  have "\<exists>e. decode_struct False failure_fields v no_envelope = Inr e \<and> me_type e = me_type e1 \<and>
      me_data e = me_data e1"
    using v(2) failure_envelope [of _ no_envelope e1 no_envelope]
    by (auto simp: decode_struct_def split: json.splits)
  with e1 v(1) show thesis by (auto simp: unmarshal_def intro!: that)
qed

text \<open>Each of the two calls of the processor has an environment of its own.\<close>

definition processor_at ::
    "('e \<Rightarrow> inbox_message \<Rightarrow> operation \<Rightarrow> 's \<Rightarrow> (err + result) \<times> 's) \<Rightarrow>
     ('e \<Rightarrow> operation \<Rightarrow> string \<Rightarrow> 's \<Rightarrow> (err + result) \<times> 's) \<Rightarrow> 'e \<Rightarrow> 'e \<Rightarrow> 's processor" where
  "processor_at inbox fail e e' = \<lparr>pr_inbox = inbox e, pr_fail = fail e'\<rparr>"

definition body_recorded ::
    "('s \<Rightarrow> operation \<Rightarrow> bool) \<Rightarrow> parsers \<Rightarrow> (string \<Rightarrow> bool) \<Rightarrow> string \<Rightarrow> 's \<Rightarrow> bool" where
  "body_recorded recorded y known body s \<longleftrightarrow>
     (case message_request y known body of None \<Rightarrow> False | Some (mid, p) \<Rightarrow> recorded s p)"

locale wager_processor =
  fixes good :: "'s \<Rightarrow> bool"
    and runs :: "'s \<Rightarrow> 's \<Rightarrow> bool"
    and books :: "'s \<Rightarrow> 'b"
    and recorded :: "'s \<Rightarrow> operation \<Rightarrow> bool"
    and inbox :: "'e \<Rightarrow> inbox_message \<Rightarrow> operation \<Rightarrow> 's \<Rightarrow> (err + result) \<times> 's"
    and fail :: "'e \<Rightarrow> operation \<Rightarrow> string \<Rightarrow> 's \<Rightarrow> (err + result) \<times> 's"
  assumes good_inbox: "good s \<Longrightarrow> good (snd (inbox e m p s))"
    and good_fail: "good s \<Longrightarrow> good (snd (fail e p f s))"
    and recorded_inbox: "good s \<Longrightarrow> inbox e m p s = (Inr r, s') \<Longrightarrow> recorded s' p"
    and recorded_fail: "good s \<Longrightarrow> fail e p f s = (Inr r, s') \<Longrightarrow> recorded s' p"
    and inbox_once: "good s \<Longrightarrow> inbox e m p s = (Inr r, s1) \<Longrightarrow> \<not> r_replay r \<Longrightarrow> runs s1 s2 \<Longrightarrow>
      \<exists>r' s3. inbox e' m p s2 = (Inr r', s3) \<and> r_replay r' \<and> books s3 = books s2"
begin

lemma handle_result:
  assumes "good (ws_store w)" and "handle y known (processor_at inbox fail e e') m w = (res, w')"
  shows "good (ws_store w') \<and> ws_calls w' = ws_calls w \<and>
    (res = None \<longrightarrow> body_recorded recorded y known (m_body m) (ws_store w')) \<and>
    (message_request y known (m_body m) = None \<longrightarrow> res = Some Permanent)"
proof (cases "message_request y known (m_body m)")
  case None
  with assms show ?thesis by (auto simp: handle_def)
next
  case (Some q)
  obtain mid p where q: "q = (mid, p)" by (cases q)
  let ?msg = "\<lparr>im_consumer = consumer_name, im_id = mid, im_hash = payload_hash (m_body m)\<rparr>"
  obtain a s where i: "inbox e ?msg p (ws_store w) = (a, s)" by fastforce
  have g: "good s" using good_inbox [OF assms(1), of e ?msg p] i by simp
  show ?thesis
  proof (cases a)
    case (Inl x)
    with assms(2) Some q g i show ?thesis
      by (auto simp: handle_def processor_at_def on_store_def)
  next
    case (Inr r)
    with recorded_inbox [OF assms(1)] i have "recorded s p" by blast
    with assms(2) Some q g i Inr show ?thesis
      by (auto simp: handle_def processor_at_def on_store_def Let_def body_recorded_def)
  qed
qed

lemma failure_result:
  assumes "good (ws_store w)"
    and "record_permanent_failure y known (processor_at inbox fail e e') m w = (res, w')"
    and "message_request y known (m_body m) \<noteq> None"
  shows "good (ws_store w') \<and> ws_calls w' = ws_calls w \<and>
    (\<forall>r. res = Inr r \<longrightarrow> body_recorded recorded y known (m_body m) (ws_store w'))"
proof -
  obtain mid p where mp: "message_request y known (m_body m) = Some (mid, p)" using assms(3) by auto
  obtain env where env: "unmarshal failure_fields no_envelope (m_body m) = Some env"
    "me_type env = requested_type" "request_operation y known (me_data env) = Some p"
    using failure_request [OF mp] .
  obtain a s where f: "fail e' p exhausted (ws_store w) = (a, s)" by fastforce
  have "good s" using good_fail [OF assms(1), of e' p exhausted] f by simp
  moreover have "recorded s p" if "a = Inr r" for r using recorded_fail [OF assms(1)] f that by blast
  moreover have "w' = w\<lparr>ws_store := s\<rparr>" "res = a"
    using assms(2) env f
    by (simp_all add: record_permanent_failure_def processor_at_def on_store_def)
  ultimately show ?thesis by (auto simp: body_recorded_def mp)
qed

text \<open>The last receive: the failure is recorded and the message deleted, or it goes to the DLQ.\<close>

lemma last_receive_accounted:
  assumes g: "good (ws_store w)"
    and req: "message_request y known (m_body m) \<noteq> None"
    and c: "(case record_permanent_failure y known (processor_at inbox fail e e') m w of
        (Inl _, w2) \<Rightarrow> to_dead_letters cl m w2
      | (Inr _, w2) \<Rightarrow> count_metric (results_metric ''FAILED'')
          (snd (on_queue (delete_message cl (m_receipt m)) w2))) = w'"
  shows "good (ws_store w') \<and> (\<exists>ks. ws_calls w' = ws_calls w @ ks \<and>
    accounted cl mo m (ws_calls w) (body_recorded recorded y known (m_body m) (ws_store w')) ks)"
proof -
  obtain fr w2 where f: "record_permanent_failure y known (processor_at inbox fail e e') m w = (fr, w2)"
    by fastforce
  note r = failure_result [OF g f req]
  show ?thesis
  proof (cases fr)
    case (Inl x)
    then have "w' = to_dead_letters cl m w2" using c f by simp
    with to_dead_letters_calls [of cl m w2] r show ?thesis by (auto simp: accounted_def)
  next
    case (Inr q)
    then have "w' = count_metric (results_metric ''FAILED'')
        (snd (on_queue (delete_message cl (m_receipt m)) w2))"
      using c f by simp
    with Inr r show ?thesis by (auto simp: accounted_def queue_calls removed_def)
  qed
qed

lemma consume_accounted:
  assumes "good (ws_store w)"
    and c: "consume y known cl (processor_at inbox fail e e') mo m w = (go, w')"
  shows "good (ws_store w') \<and> (\<exists>ks. ws_calls w' = ws_calls w @ ks \<and>
    accounted cl mo m (ws_calls w) (body_recorded recorded y known (m_body m) (ws_store w')) ks)"
proof -
  obtain res w1 where h: "handle y known (processor_at inbox fail e e') m w = (res, w1)" by fastforce
  note r = handle_result [OF assms(1) h]
  then have g: "good (ws_store w1)" and k: "ws_calls w1 = ws_calls w" by simp_all
  note dl = to_dead_letters_calls [of cl m]
  consider (finished) "mo_done mo" | (ok) "\<not> mo_done mo" "res = None"
    | (later) x where "\<not> mo_done mo" "res = Some x" "\<not> final_error x" "\<not> 5 \<le>s m_count m"
    | (dead) x where "\<not> mo_done mo" "res = Some x" "final_error x"
    | (last) x where "\<not> mo_done mo" "res = Some x" "\<not> final_error x" "5 \<le>s m_count m"
    by (cases "mo_done mo"; cases res) auto
  then show ?thesis
  proof cases
    case finished
    with c h r g k show ?thesis
      by (cases res) (auto simp: consume_def queue_calls accounted_def removed_def shown_again_def)
  next
    case ok
    with c h r g k show ?thesis
      by (cases "mo_fault mo") (auto simp: consume_def queue_calls accounted_def removed_def)
  next
    case later
    then have "sint (m_count m) < 5" by (simp add: go_int)
    with later c h g k show ?thesis
      by (auto simp: consume_def queue_calls accounted_def retry_later_def shown_again_def)
  next
    case dead
    then have "w' = to_dead_letters cl m w1" using c h by (simp add: consume_def)
    with dl [of w1] g k show ?thesis by (auto simp: accounted_def)
  next
    case last
    then have req: "message_request y known (m_body m) \<noteq> None"
      using r by (auto simp: final_error_def)
    show ?thesis
      by (rule last_receive_accounted [where e = e and e' = e', OF g req, unfolded k])
         (use c h last in \<open>simp add: consume_def split: prod.splits sum.splits\<close>)
  qed
qed

text \<open>A message that was handled once is absorbed when it is delivered again.\<close>

lemma handle_once:
  assumes "good (ws_store w)" and h: "handle y known (processor_at inbox fail e e') m w = (None, w1)"
    and fresh: "metric (ws_metrics w1) ''apostas_wager_duplicates_total'' =
      metric (ws_metrics w) ''apostas_wager_duplicates_total''"
    and later: "runs (ws_store w1) (ws_store w2)" and "m_body m' = m_body m"
  shows "\<exists>w3. handle y known (processor_at inbox fail e2 e2') m' w2 = (None, w3) \<and>
    books (ws_store w3) = books (ws_store w2) \<and> ws_calls w3 = ws_calls w2"
proof -
  from h obtain mid p where mp: "message_request y known (m_body m) = Some (mid, p)"
    by (auto simp: handle_def split: option.splits)
  let ?msg = "\<lparr>im_consumer = consumer_name, im_id = mid, im_hash = payload_hash (m_body m)\<rparr>"
  obtain a s where i: "inbox e ?msg p (ws_store w) = (a, s)" by fastforce
  with h mp obtain r where r: "a = Inr r" and w1: "w1 = (if r_replay r
      then count_metric ''apostas_wager_duplicates_total''
        (count_metric (results_metric (status_text (r_status r))) (w\<lparr>ws_store := s\<rparr>))
      else count_metric (results_metric (status_text (r_status r))) (w\<lparr>ws_store := s\<rparr>))"
    by (cases a) (auto simp: handle_def processor_at_def on_store_def Let_def)
  have "results_metric t \<noteq> ''apostas_wager_duplicates_total''" for t
    by (simp add: results_metric_def)
  with fresh w1 have new: "\<not> r_replay r" and s: "ws_store w1 = s"
    by (auto simp: metric_inc_def metric_metric_add split: if_splits)
  from inbox_once [OF assms(1) i [unfolded r] new, of "ws_store w2" e2] later s
  obtain r' s3 where "inbox e2 ?msg p (ws_store w2) = (Inr r', s3)" "r_replay r'"
    "books s3 = books (ws_store w2)" by blast
  then show ?thesis
    using mp assms(5) by (simp add: handle_def processor_at_def on_store_def Let_def)
qed

end

section \<open>The consumer over the service and the PostgreSQL store\<close>

definition pg_inbox ::
    "texts \<Rightarrow> platform \<Rightarrow> env \<Rightarrow> inbox_message \<Rightarrow> operation \<Rightarrow> db \<Rightarrow> (err + result) \<times> db" where
  "pg_inbox x pf en m p =
     wager_process x (pf_known pf) (execute pf en) (execute_inbox pf en) p (Some m)"

definition pg_fail ::
    "texts \<Rightarrow> platform \<Rightarrow> env \<Rightarrow> operation \<Rightarrow> string \<Rightarrow> db \<Rightarrow> (err + result) \<times> db" where
  "pg_fail x pf en = wager_fail x (pf_known pf) (execute pf en)"

definition pg_recorded :: "texts \<Rightarrow> platform \<Rightarrow> db \<Rightarrow> operation \<Rightarrow> bool" where
  "pg_recorded x pf d p \<longleftrightarrow>
     list_ex (\<lambda>t. t_provider t = Some (op_provider p) \<and> t_key t = Some (op_key p) \<and>
       t_hash t = Some (operation_hash x (pf_known pf) p)) (db_wagers d)"

lemma execute_new_fresh:
  "execute_new pf en causation op hash dec w ref t = Inr (res, t') \<Longrightarrow> \<not> r_replay res"
  by (auto simp: execute_new_def tx_bind_Inr tx_return_Inr Let_def split: prod.splits if_splits)

context store_call
begin

lemma execute_tx_recorded:
  assumes p: "platform_ok pf" and i: "integrity pf (tx_db t)"
    and ex: "execute_tx pf en causation op hash dec t = Inr (res, t')"
  shows "list_ex (\<lambda>t. t_provider t = Some (op_provider op) \<and> t_key t = Some (op_key op) \<and>
    t_hash t = Some hash) (db_wagers (tx_db t'))"
proof (cases "r_replay res")
  case False
  then show ?thesis
    using execute_tx_answered [OF p i ex] by (auto simp: pg_answered_def list_ex_iff)
next
  case True
  from ex show ?thesis
  proof (cases rule: execute_tx_cases)
    case (replay r w row)
    then have "row \<in> set (existing_rows (tx_db t) op)"
      by (auto simp: pick_row_def split: if_splits)
    with replay(4,5) show ?thesis
      by (auto simp: existing_rows_def list_ex_iff replay_result_def split: option.splits if_splits)
  next
    case (fresh r w ref)
    with True execute_new_fresh [OF fresh(5)] show ?thesis by simp
  qed
qed

lemma execute_recorded:
  assumes "pg_good pf d" and "execute pf en op h dec d = (Inr r, d')"
  shows "list_ex (\<lambda>t. t_provider t = Some (op_provider op) \<and> t_key t = Some (op_key op) \<and>
    t_hash t = Some h) (db_wagers d')"
proof -
  from assms(2) obtain t where "execute_tx pf en [] op h dec \<lparr>tx_db = d, tx_deferred = []\<rparr> = Inr (r, t)"
    "d' = tx_db t" by (auto simp: execute_def with_tx_Inr)
  with execute_tx_recorded [OF _ _ this(1)] assms(1) show ?thesis by (simp add: pg_good_def)
qed

lemma execute_inbox_row:
  assumes "pg_good pf d" and "execute_inbox pf en m op h dec d = (Inr r, d')"
  shows "list_ex (\<lambda>t. t_provider t = Some (op_provider op) \<and> t_key t = Some (op_key op) \<and>
    t_hash t = Some h) (db_wagers d')"
proof -
  from assms(2) obtain d1 and row :: inbox_row and t
    where ins: "insert_inbox_row (msg_row en m) d = Inr (d1, [])"
    and ex: "execute_tx pf en (im_id m) op h dec \<lparr>tx_db = d1, tx_deferred = []\<rparr> = Inr (r, t)"
    and d': "d' = (if i_completed row = None
             then (tx_db t)\<lparr>db_inbox := update_where (is_msg m)
                     (\<lambda>i. i\<lparr>i_completed := Some (en_dbnow en)\<rparr>) (db_inbox (tx_db t))\<rparr>
             else tx_db t)"
    by (rule execute_inbox_Inr)
  have g: "platform_ok pf" "integrity pf d" using assms(1) by (simp_all add: pg_good_def)
  have "integrity pf d1"
    using insert_inbox_row_Inr [OF ins integrity_keys [OF g(2)]] integrity_inbox [OF g(2)] by auto
  with execute_tx_recorded [OF g(1) _ ex] show ?thesis by (simp add: d')
qed

end

interpretation pgp: wager_processor "pg_good pf" "runs pf" pg_books "pg_recorded x pf"
  "pg_inbox x pf" "pg_fail x pf" for x pf
proof unfold_locales
  fix s e m p
  assume g: "pg_good pf s"
  have dec: "service_decision (pf_known pf) p (decide (pf_known pf) p)"
    "service_decision (pf_known pf) p (fail_decision f)" for f by simp_all
  show "pg_good pf (snd (pg_inbox x pf e m p s))"
    using g pgw.good_execute_inbox [OF g dec(1)] by (simp add: pg_inbox_def wager_process_eq)
  show "pg_recorded x pf s' p" if "pg_inbox x pf e m p s = (Inr r, s')" for r s'
    using that store_call.execute_inbox_row [OF service_cases [OF dec(1)] g]
    by (auto simp: pg_inbox_def wager_process_eq pg_recorded_def split: if_splits)
  fix f
  have v: "operation_valid (pf_known pf) p \<or> \<not> operation_valid (pf_known pf) p" by simp
  show "pg_good pf (snd (pg_fail x pf e p f s))"
    using g pgw.good_execute [OF g dec(2)]
    by (auto simp: pg_fail_def wager_fail_def split: sum.split)
  show "pg_recorded x pf s' p" if "pg_fail x pf e p f s = (Inr r, s')" for r s'
    using that store_call.execute_recorded [OF service_cases [OF dec(2)] g]
    by (auto simp: pg_fail_def wager_fail_def pg_recorded_def operation_hash_def
        split: if_splits sum.splits)
next
  fix s e m p r s1 s2 e'
  assume g: "pg_good pf s" and i: "pg_inbox x pf e m p s = (Inr r, s1)" and "\<not> r_replay r"
    and "runs pf s1 s2"
  from i have ex: "operation_valid (pf_known pf) p" "execute_inbox pf e m p
      (operation_hash x (pf_known pf) p) (decide (pf_known pf) p) s = (Inr r, s1)"
    by (auto simp: pg_inbox_def wager_process_eq split: if_splits)
  have "\<exists>r' s3. execute_inbox pf e' m p (operation_hash x (pf_known pf) p)
      (decide (pf_known pf) p) s2 = (Inr r', s3) \<and> same_answer r r' \<and>
      db_wallets s3 = db_wallets s2 \<and> db_wagers s3 = db_wagers s2 \<and>
      db_ledger s3 = db_ledger s2 \<and> db_outbox s3 = db_outbox s2"
    using inbox_again [OF g ex(2) \<open>\<not> r_replay r\<close> \<open>runs pf s1 s2\<close> refl refl] by blast
  then obtain r' s3 where
    "execute_inbox pf e' m p (operation_hash x (pf_known pf) p) (decide (pf_known pf) p) s2 = (Inr r', s3)"
    "same_answer r r'" "pg_books s3 = pg_books s2"
    by (auto simp: pg_books_def)
  with ex(1) show "\<exists>r' s3. pg_inbox x pf e' m p s2 = (Inr r', s3) \<and> r_replay r' \<and>
      pg_books s3 = pg_books s2"
    by (auto simp: pg_inbox_def wager_process_eq same_answer_def)
qed

text \<open>
  C7: No message is lost and none is retried without end. Whatever the queues answer, the calls
  made for a message are one of: it is deleted when its request is on record in the database
  (processed, answered before or given up as FAILED); it is deleted after the dead letter queue
  took a copy; it is left in the queue when that queue refused; it is shown again at once when
  the process is stopping, or after the back-off when it was received fewer than five times. A
  crash after the commit leaves it in the queue, with its request on record.
\<close>

theorem message_accounted:
  assumes "platform_ok pf" and "reachable pf (ws_store w)"
    and "consume y (pf_known pf) cl (processor_at (pg_inbox x pf) (pg_fail x pf) en en') mo m w = (go, w')"
  shows "\<exists>ks. ws_calls w' = ws_calls w @ ks \<and>
    accounted cl mo m (ws_calls w)
      (body_recorded (pg_recorded x pf) y (pf_known pf) (m_body m) (ws_store w')) ks"
  using pgp.consume_accounted [OF reachable_good [OF assms(1,2)] assms(3)] by simp

text \<open>
  C12: A message whose first delivery was handled is absorbed when it is delivered again, after a
  crash between the commit and the deletion for instance, whatever happened in between: it is
  deleted and nothing but the inbox can change, no wallet, transaction, ledger entry or event.
\<close>

theorem redelivery_absorbed:
  assumes "platform_ok pf" and "reachable pf (ws_store w)"
    and "handle y (pf_known pf) (processor_at (pg_inbox x pf) (pg_fail x pf) en en') m w = (None, w1)"
    and "metric (ws_metrics w1) ''apostas_wager_duplicates_total'' =
      metric (ws_metrics w) ''apostas_wager_duplicates_total''"
    and "runs pf (ws_store w1) (ws_store w2)" and "m_body m' = m_body m"
    and "\<not> mo_done mo" and "\<not> mo_fault mo"
  shows "\<exists>w3. consume y (pf_known pf) cl (processor_at (pg_inbox x pf) (pg_fail x pf) en2 en2') mo m' w2 =
      (True, w3) \<and>
    ws_calls w3 = ws_calls w2 @ [DeleteMessage (cl_input cl) (m_receipt m')] \<and>
    db_wallets (ws_store w3) = db_wallets (ws_store w2) \<and>
    db_wagers (ws_store w3) = db_wagers (ws_store w2) \<and>
    db_ledger (ws_store w3) = db_ledger (ws_store w2) \<and>
    db_outbox (ws_store w3) = db_outbox (ws_store w2)"
proof -
  from pgp.handle_once [OF reachable_good [OF assms(1,2)] assms(3-6)] obtain w3 where
    "handle y (pf_known pf) (processor_at (pg_inbox x pf) (pg_fail x pf) en2 en2') m' w2 = (None, w3)"
    "pg_books (ws_store w3) = pg_books (ws_store w2)" "ws_calls w3 = ws_calls w2" by blast
  with assms(7,8) show ?thesis
    by (simp add: consume_def queue_calls pg_books_def)
qed

subsection \<open>Examples\<close>

definition sample_body :: string where
  "sample_body = json_text (message_json sample_texts ''m1'' sample_bet ''0.80'')"

definition sample_queue_message :: message where
  "sample_queue_message = \<lparr>m_id = ''sqs-1'', m_receipt = ''r1'', m_body = sample_body, m_count = 1\<rparr>"

definition sample_client :: client where
  "sample_client = \<lparr>cl_sdk = \<lparr>sdk_call = \<lambda>calls k. None, sdk_receive = \<lambda>calls k. Inr []\<rparr>,
     cl_input = ''in'', cl_output = ''out'', cl_dlq = ''dlq''\<rparr>"

definition opened_world :: "db world" where
  "opened_world = \<lparr>ws_calls = [], ws_store = opened_db, ws_metrics = initial_registry\<rparr>"

abbreviation (input) sample_processor :: "uuid \<Rightarrow> time \<Rightarrow> db processor" where
  "sample_processor i t \<equiv> processor_at (pg_inbox sample_texts sample_platform)
     (pg_fail sample_texts sample_platform) (sample_env i t) (sample_env i t)"

lemma sample_known: "pf_known sample_platform = brl_only"
  by (simp add: sample_platform_def)

lemma sample_request: "message_request sample_parsers brl_only sample_body = Some (''m1'', sample_bet)"
proof -
  have digits: "char_of (48 :: nat) = CHR ''0''" "char_of (56 :: nat) = CHR ''8''" by code_simp+
  have "money_amount brl_only (op_money sample_bet) = Inr ''0.80''"
    by (simp add: digits money_amount_def sample_bet_def money_valid_def valid_currency_def
        currency_pattern_def is_upper_letter_def brl_only_def fmt_d_def fmt_02d_def go_quot_def
        go_rem_def go_int digit_char_def digits_of.simps)
  moreover have "payload_fields_valid sample_bet"
    by (simp add: payload_fields_valid_def sample_bet_def code_def ascii_valid)
  moreover have "utf8_valid (op_key sample_bet)" "utf8_valid ''m1''"
    by (simp_all add: sample_bet_def code_def ascii_valid)
  ultimately show ?thesis
    using operation_json_read(2,3) [OF sample_parses_uuids sample_bet_valid, of "''m1''" "''0.80''"]
    by (simp add: message_request_def sample_body_def requested_type_def)
qed

lemma sample_handled:
  obtains w1 where "handle sample_parsers (pf_known sample_platform) (sample_processor 200 2000)
      sample_queue_message opened_world = (None, w1)"
    and "metric (ws_metrics w1) ''apostas_wager_duplicates_total'' =
      metric (ws_metrics opened_world) ''apostas_wager_duplicates_total''"
proof -
  define msg where "msg = \<lparr>im_consumer = consumer_name, im_id = ''m1'', im_hash = payload_hash sample_body\<rparr>"
  let ?r = "\<lparr>r_transaction = 200, r_status = Processed, r_balance = brl 20, r_failure = [],
        r_replay = False\<rparr>"
  obtain d1 where "execute_inbox sample_platform (sample_env 200 2000) msg sample_bet sample_hash
     (decide (pf_known sample_platform) sample_bet) opened_db = (Inr ?r, d1)"
    using sample_message_executed [OF msg_def] by (metis prod.collapse)
  then have i: "pg_inbox sample_texts sample_platform (sample_env 200 2000) msg sample_bet opened_db =
      (Inr ?r, d1)"
    by (simp add: pg_inbox_def wager_process_eq sample_known sample_bet_valid sample_hash_def)
  show thesis
    by (rule that, simp add: handle_def sample_known sample_request sample_queue_message_def
          processor_at_def on_store_def opened_world_def i [unfolded msg_def] Let_def,
        simp add: count_metric_def metric_inc_def metric_metric_add results_metric_def opened_world_def)
qed

lemma opened_world_reachable: "reachable sample_platform (ws_store opened_world)"
  by (simp add: opened_world_def opened_reachable)

lemma message_accounted_witness:
  "\<exists>ks. ws_calls (snd (consume sample_parsers (pf_known sample_platform) sample_client
       (sample_processor 200 2000) \<lparr>mo_done = False, mo_fault = False, mo_millis = 3\<rparr>
       (sample_queue_message\<lparr>m_body := ''x''\<rparr>) opened_world)) = ks \<and>
     accounted sample_client \<lparr>mo_done = False, mo_fault = False, mo_millis = 3\<rparr>
       (sample_queue_message\<lparr>m_body := ''x''\<rparr>) [] False ks"
proof -
  let ?m = "sample_queue_message\<lparr>m_body := ''x''\<rparr>"
  let ?mo = "\<lparr>mo_done = False, mo_fault = False, mo_millis = 3\<rparr>"
  obtain go w' where c: "consume sample_parsers (pf_known sample_platform) sample_client
      (sample_processor 200 2000) ?mo ?m opened_world = (go, w')" by fastforce
  have "quote_char \<noteq> CHR ''x''" by code_simp
  then have "message_request sample_parsers (pf_known sample_platform) ''x'' = None"
    by (simp add: message_request_def unmarshal_def parse_document_def parse_value.simps
        skip_space_def json_space_def code_def starts_with_def parse_number_def
        number_int_def is_digit_def max_nesting_def)
  then have "\<not> body_recorded (pg_recorded sample_texts sample_platform) sample_parsers
      (pf_known sample_platform) ''x'' (ws_store w')"
    by (simp add: body_recorded_def)
  with message_accounted [OF sample_platform_ok opened_world_reachable c] c show ?thesis
    by (simp add: sample_queue_message_def opened_world_def)
qed

lemma redelivery_absorbed_witness:
  "\<exists>w1 w3. consume sample_parsers (pf_known sample_platform) sample_client
      (sample_processor 900 9000) \<lparr>mo_done = False, mo_fault = False, mo_millis = 3\<rparr>
      (sample_queue_message\<lparr>m_receipt := ''r2''\<rparr>) w1 = (True, w3) \<and>
    ws_calls w3 = ws_calls w1 @ [DeleteMessage ''in'' ''r2''] \<and>
    db_ledger (ws_store w3) = db_ledger (ws_store w1)"
proof -
  obtain w1 where h: "handle sample_parsers (pf_known sample_platform) (sample_processor 200 2000)
      sample_queue_message opened_world = (None, w1)"
    and n: "metric (ws_metrics w1) ''apostas_wager_duplicates_total'' =
      metric (ws_metrics opened_world) ''apostas_wager_duplicates_total''"
    by (rule sample_handled)
  have "\<exists>w3. consume sample_parsers (pf_known sample_platform) sample_client
        (sample_processor 900 9000) \<lparr>mo_done = False, mo_fault = False, mo_millis = 3\<rparr>
        (sample_queue_message\<lparr>m_receipt := ''r2''\<rparr>) w1 = (True, w3) \<and>
      ws_calls w3 = ws_calls w1 @ [DeleteMessage (cl_input sample_client)
        (m_receipt (sample_queue_message\<lparr>m_receipt := ''r2''\<rparr>))] \<and>
      db_wallets (ws_store w3) = db_wallets (ws_store w1) \<and>
      db_wagers (ws_store w3) = db_wagers (ws_store w1) \<and>
      db_ledger (ws_store w3) = db_ledger (ws_store w1) \<and>
      db_outbox (ws_store w3) = db_outbox (ws_store w1)"
    by (rule redelivery_absorbed [OF sample_platform_ok opened_world_reachable h n runs_refl]) simp_all
  then show ?thesis by (simp add: sample_client_def) blast
qed

end
