(* ===== verification/Serving.thy ===== *)
theory Serving
  imports Oidc Delivery
begin

text \<open>
  The server over the services and the PostgreSQL store: what a provider can see and change, and
  who reaches a handler at all.
\<close>

section \<open>The services of the process\<close>

text \<open>
  \<open>wid\<close> is the identifier \<^verbatim>\<open>Open\<close> draws for a new wallet, \<open>ping\<close> what the pool answers.
\<close>

definition pg_services :: "texts \<Rightarrow> platform \<Rightarrow> env \<times> uuid \<times> err option \<Rightarrow> db services" where
  "pg_services x pf e =
     (let (en, wid, ping) = e in
      \<lparr>sv_ping = \<lambda>d. ping,
       sv_open = wallets_open (pf_known pf) (create_wallet pf en) wid (en_now en),
       sv_get = wallets_get (get_wallet pf),
       sv_process = \<lambda>p. wager_process x (pf_known pf) (execute pf en) (execute_inbox pf en) p None,
       sv_ledger = reader_ledger (list_ledger pf),
       sv_transaction = reader_transaction (get_transaction pf),
       sv_transaction_for_provider = reader_transaction_for_provider (get_transaction_for_provider pf),
       sv_transaction_by_external = reader_transaction_by_external (get_transaction_by_external pf),
       sv_reconcile = reader_reconcile (reconcile_wallet pf)\<rparr>)"

section \<open>What providers see and change\<close>

lemma write_usecase_error_store [simp]: "ws_store (snd (write_usecase_error e w)) = ws_store w"
  by (simp add: write_usecase_error_def)

lemma write_usecase_error_response:
  "fst (write_usecase_error e w) = fst (write_usecase_error e v)"
  by (simp add: write_usecase_error_def)

text \<open>
  The interface the handlers rely on to keep providers apart: \<open>owned c s\<close> is what belongs to the
  provider \<open>c\<close>, \<open>e\<close> what surrounds a request.
\<close>

locale provider_services =
  fixes good :: "'s \<Rightarrow> bool"
    and owned :: "string \<Rightarrow> 's \<Rightarrow> 'v"
    and sv :: "'e \<Rightarrow> 's services"
  assumes own_transaction: "owned c s = owned c s' \<Longrightarrow>
      sv_transaction_for_provider (sv e) u c s = sv_transaction_for_provider (sv e') u c s'"
    and own_external: "owned c s = owned c s' \<Longrightarrow>
      sv_transaction_by_external (sv e) c t s = sv_transaction_by_external (sv e') c t s'"
    and process_apart: "good s \<Longrightarrow> op_provider p \<noteq> c \<Longrightarrow>
      owned c (snd (sv_process (sv e) p s)) = owned c s"
begin

lemma own_response:
  assumes c: "c \<noteq> wallet_service" and rt: "rt \<noteq> ProcessWager" "rt \<noteq> Ready"
    and o: "owned c (ws_store v) = owned c (ws_store w)"
  shows "fst (run_route sf (sv e) (Some c) rq w rt) = fst (run_route sf (sv e') (Some c) rq v rt)"
proof (cases rt)
  case (GetTransaction t)
  show ?thesis
    using c own_transaction [OF o, of e' _ e]
    by (auto simp: GetTransaction handle_get_transaction_def internal_def
        write_usecase_error_response [of _ w v] split: option.split sum.split)
next
  case (GetProviderTransaction p t)
  show ?thesis
    using c own_external [OF o, of e' _ e]
    by (auto simp: GetProviderTransaction handle_get_provider_transaction_def can_read_transaction_def
        internal_def write_usecase_error_response [of _ w v] split: sum.split)
qed (use c rt in \<open>simp_all add: handle_metrics_def handle_open_wallet_def handle_get_wallet_def
    handle_get_ledger_def handle_reconcile_def internal_def\<close>)

lemma others_untouched:
  assumes c: "c \<noteq> wallet_service" and p: "p \<noteq> c" and g: "good (ws_store w)"
  shows "owned p (ws_store (snd (run_route sf (sv e) (Some c) rq w rt))) = owned p (ws_store w) \<and>
    (rt \<noteq> ProcessWager \<longrightarrow> ws_store (snd (run_route sf (sv e) (Some c) rq w rt)) = ws_store w)"
proof (cases rt)
  case ProcessWager
  have apart: "owned p s' = owned p (ws_store w)"
    if "sv_process (sv e) q (ws_store w) = (a, s')" and "op_provider q = c" for q a s'
    using process_apart [OF g, of q p e] p that by simp
  show ?thesis
    by (auto simp: ProcessWager handle_process_wager_def on_store_def Let_def
        split: option.split sum.split prod.split dest: apart)
qed (use c in \<open>auto simp: handle_metrics_def handle_open_wallet_def handle_get_wallet_def
    handle_get_ledger_def handle_reconcile_def handle_ready_def handle_get_transaction_def
    handle_get_provider_transaction_def internal_def on_queue_def
    split: option.split sum.split prod.split\<close>)

end

definition own_wagers :: "string \<Rightarrow> db \<Rightarrow> wager_row list" where
  "own_wagers c d = filter (\<lambda>t. t_provider t = Some c) (db_wagers d)"

lemma find_filter: "find p (filter q xs) = find (\<lambda>x. q x \<and> p x) xs"
  by (induction xs) auto

lemma own_transaction_of:
  "get_transaction_for_provider pf u c d = scan_transaction pf (find (\<lambda>t. t_id t = u) (own_wagers c d))"
  "get_transaction_by_external pf c t d =
     scan_transaction pf (find (\<lambda>r. t_external r = Some t) (own_wagers c d))"
  by (simp_all add: get_transaction_for_provider_def get_transaction_by_external_def own_wagers_def
      find_filter conj_commute)

lemma execute_own_wagers:
  assumes "pg_good pf d" and "op_provider op \<noteq> c"
  shows "own_wagers c (snd (execute pf en op h (decide (pf_known pf) op) d)) = own_wagers c d"
proof (cases "execute pf en op h (decide (pf_known pf) op) d")
  case (Pair r d')
  show ?thesis
  proof (cases r)
    case (Inl e)
    with Pair show ?thesis by (auto simp: execute_def dest: with_tx_Inl)
  next
    case (Inr res)
    have g: "platform_ok pf" "integrity pf d" using assms(1) by (simp_all add: pg_good_def)
    from execute_new_effect [OF g Pair [unfolded Inr]] show ?thesis
      by (elim disjE exE conjE)
         (simp_all add: Pair own_wagers_def posted_db_def move_wallet_def operation_row_def assms(2))
  qed
qed

interpretation pgv: provider_services "pg_good pf" own_wagers "pg_services x pf" for x pf
proof unfold_locales
  fix c s s' e e' u t
  assume "own_wagers c s = own_wagers c s'"
  then show "sv_transaction_for_provider (pg_services x pf e) u c s =
      sv_transaction_for_provider (pg_services x pf e') u c s'"
    and "sv_transaction_by_external (pg_services x pf e) c t s =
      sv_transaction_by_external (pg_services x pf e') c t s'"
    by (simp_all add: pg_services_def reader_transaction_for_provider_def
        reader_transaction_by_external_def own_transaction_of split: prod.split)
next
  fix s c e and p :: operation
  assume "pg_good pf s" and "op_provider p \<noteq> c"
  then show "own_wagers c (snd (sv_process (pg_services x pf e) p s)) = own_wagers c s"
    by (cases e) (simp add: pg_services_def wager_process_eq execute_own_wagers)
qed

lemma serve_route_response:
  assumes "\<And>rt. find_route rq = Some rt \<Longrightarrow>
    fst (run_route sf sv p rq w rt) = fst (run_route sf sv' p rq v rt)"
  shows "fst (serve_route sf sv p rq w) = fst (serve_route sf sv' p rq v)"
  using assms by (simp add: serve_route_def split: option.split)

lemma serve_caller:
  assumes "authenticate cf fetch verify rq = Inr p"
  shows "serve cf fetch verify sf sv rq w = serve_route sf sv p rq w"
  using assms by (simp add: serve_def auth_middleware_def)

text \<open>
  C8: Providers are kept apart. A request of a provider changes no transaction of another one,
  and changes the database only when it submits a transaction of its own. What any other request
  of a provider is answered depends on nothing but the provider's own transactions: whatever else
  differs in the database, the wallets, the ledger, the transactions of others, the calls and the
  metrics, and however the process was doing, the response is the same.
\<close>

theorem providers_kept_apart:
  assumes "platform_ok pf" and "reachable pf (ws_store w)"
    and "authenticate cf fetch verify rq = Inr (Some c)" and "c \<noteq> ''wallet-service''"
    and "serve cf fetch verify sf (pg_services x pf e) rq w = (rs, w')"
  shows "(\<forall>p. p \<noteq> c \<longrightarrow> own_wagers p (ws_store w') = own_wagers p (ws_store w)) \<and>
    (find_route rq \<noteq> Some ProcessWager \<longrightarrow> ws_store w' = ws_store w) \<and>
    (find_route rq \<notin> {Some ProcessWager, Some Ready} \<longrightarrow>
       (\<forall>v e'. own_wagers c (ws_store v) = own_wagers c (ws_store w) \<longrightarrow>
          fst (serve cf fetch verify sf (pg_services x pf e') rq v) = rs))"
proof -
  note served = serve_caller [OF assms(3), of sf]
  have c: "c \<noteq> wallet_service" using assms(4) by (simp add: wallet_service_def)
  have good: "pg_good pf (ws_store w)" by (rule reachable_good [OF assms(1,2)])
  have rs: "serve_route sf (pg_services x pf e) (Some c) rq w = (rs, w')"
    using assms(5) by (simp add: served)
  have "own_wagers p (ws_store w') = own_wagers p (ws_store w)" if "p \<noteq> c" for p
    using rs pgv.others_untouched [OF c that good, of sf x e rq]
    by (auto simp: serve_route_def split: option.splits) (metis snd_conv)+
  moreover have "ws_store w' = ws_store w" if "find_route rq \<noteq> Some ProcessWager"
  proof (cases "find_route rq")
    case (Some rt)
    obtain p where "p \<noteq> c" using c by metis
    from pgv.others_untouched [OF c this good, of sf x e rq rt] rs Some that show ?thesis
      by (auto simp: serve_route_def)
  qed (use rs in \<open>auto simp: serve_route_def\<close>)
  moreover have "fst (serve cf fetch verify sf (pg_services x pf e') rq v) = rs"
    if "find_route rq \<notin> {Some ProcessWager, Some Ready}"
      and "own_wagers c (ws_store v) = own_wagers c (ws_store w)" for v e'
    using serve_route_response [of rq sf "pg_services x pf e'" "Some c" v "pg_services x pf e" w]
      pgv.own_response [OF c _ _ that(2) [symmetric]] that(1) rs
    by (fastforce simp: served)
  ultimately show ?thesis by blast
qed

section \<open>Who reaches a handler\<close>

text \<open>
  What \<^verbatim>\<open>ParseWithClaims\<close> with \<^verbatim>\<open>WithIssuer\<close> promises of a token it calls valid:
  the function it was given found the key for the token's header, the token is signed with it,
  and the issuer is the one asked for.
\<close>

definition verifier_ok :: "verifier \<Rightarrow> (string \<Rightarrow> jwt_header) \<Rightarrow> (rsa_key \<Rightarrow> string \<Rightarrow> bool) \<Rightarrow> bool" where
  "verifier_ok verify header by_key \<longleftrightarrow>
     (\<forall>key_of iss aud token claims. verify key_of iss aud token = Inr (True, claims) \<longrightarrow>
        (\<exists>k. key_of (header token) = Inr k \<and> by_key k token) \<and> claims ''iss'' = Some (JStr iss))"

text \<open>
  A request that proves it is the client \<open>c\<close>: it carries a bearer token of the issuer, signed by
  RS256 with the key the key server lists for the identifier in the token's header.
\<close>

definition authentic ::
    "config \<Rightarrow> err + nat \<times> string \<Rightarrow> verifier \<Rightarrow> (string \<Rightarrow> jwt_header) \<Rightarrow> (rsa_key \<Rightarrow> string \<Rightarrow> bool) \<Rightarrow>
     http_request \<Rightarrow> string \<Rightarrow> bool" where
  "authentic cf fetch verify header by_key rq c \<longleftrightarrow>
     (\<exists>scheme token kid body ks j k claims.
        text_fields (rq_authorization rq) = [scheme, token] \<and> map lower_char scheme = ''bearer'' \<and>
        header token = \<lparr>jh_alg = ''RS256'', jh_kid = Some (JStr kid)\<rparr> \<and>
        fetch = Inr (200, body) \<and> decode_first jwks_fields [] body = Inr ks \<and>
        j \<in> set ks \<and> jk_kid j = kid \<and> jk_kty j = ''RSA'' \<and> rsa_public_key j = Inr k \<and>
        3 \<le> rk_e k \<and> rk_e k < 2 ^ 31 \<and> by_key k token \<and>
        verify (key_for fetch) (cf_issuer cf) (cf_audience cf) token = Inr (True, claims) \<and>
        claims ''iss'' = Some (JStr (cf_issuer cf)) \<and> claims ''azp'' = Some (JStr c) \<and> c \<noteq> [])"

lemma select_key_Inr:
  "select_key kid ks = Inr k \<Longrightarrow>
   \<exists>j\<in>set ks. jk_kid j = kid \<and> jk_kty j = ''RSA'' \<and> rsa_public_key j = Inr k"
  by (induction ks) (auto split: if_splits)

lemma rsa_exponent: "rsa_public_key j = Inr k \<Longrightarrow> 3 \<le> rk_e k \<and> rk_e k < 2 ^ 31"
  by (auto simp: rsa_public_key_def split: option.splits if_splits)

lemma key_for_Inr:
  assumes "key_for fetch hdr = Inr k"
  obtains kid body ks j where "hdr = \<lparr>jh_alg = ''RS256'', jh_kid = Some (JStr kid)\<rparr>"
    and "fetch = Inr (200, body)" and "decode_first jwks_fields [] body = Inr ks"
    and "j \<in> set ks" and "jk_kid j = kid" and "jk_kty j = ''RSA''" and "rsa_public_key j = Inr k"
proof -
  obtain kid where h: "hdr = \<lparr>jh_alg = ''RS256'', jh_kid = Some (JStr kid)\<rparr>"
    and a: "auth_key fetch kid = Inr k"
    using assms by (cases hdr) (auto simp: key_for_def split: if_splits option.splits json.splits)
  from a obtain body ks where "fetch = Inr (200, body)" "decode_first jwks_fields [] body = Inr ks"
    "select_key kid ks = Inr k" by (auto simp: auth_key_def rbind_Inr_iff split: if_splits)
  with h select_key_Inr [OF this(3)] that show thesis by blast
qed

lemma authenticated:
  assumes "verifier_ok verify header by_key" and "authenticate cf fetch verify rq = Inr (Some c)"
  shows "authentic cf fetch verify header by_key rq c"
proof -
  obtain scheme token claims where t: "text_fields (rq_authorization rq) = [scheme, token]"
    "map lower_char scheme = ''bearer''"
    "verify (key_for fetch) (cf_issuer cf) (cf_audience cf) token = Inr (True, claims)"
    "claims ''azp'' = Some (JStr c)" "c \<noteq> []"
    using assms(2)
    by (auto simp: authenticate_def split: if_splits list.splits sum.splits option.splits json.splits)
  from assms(1) [unfolded verifier_ok_def] t(3) obtain k where
    k: "key_for fetch (header token) = Inr k" "by_key k token"
    "claims ''iss'' = Some (JStr (cf_issuer cf))" by blast
  obtain kid body ks j where "header token = \<lparr>jh_alg = ''RS256'', jh_kid = Some (JStr kid)\<rparr>"
    "fetch = Inr (200, body)" "decode_first jwks_fields [] body = Inr ks"
    "j \<in> set ks" "jk_kid j = kid" "jk_kty j = ''RSA''" "rsa_public_key j = Inr k"
    by (rule key_for_Inr [OF k(1)])
  with t k rsa_exponent [OF this(7)] show ?thesis
    unfolding authentic_def
    by (intro exI [of _ scheme] exI [of _ token] exI [of _ kid] exI [of _ body] exI [of _ ks]
        exI [of _ j] exI [of _ k] exI [of _ claims]) simp
qed

lemma authenticate_anonymous:
  "authenticate cf fetch verify rq = Inr None \<longleftrightarrow> starts_with ''/health/'' (rq_path rq)"
  by (auto simp: authenticate_def split: list.splits sum.splits option.splits json.splits)

lemma authenticate_refusal:
  "authenticate cf fetch verify rq = Inl rs \<Longrightarrow> rs_status rs = 401"
  by (auto simp: authenticate_def http_error_def
      split: if_splits list.splits sum.splits option.splits json.splits)

lemma health_routes:
  assumes "rq_path rq = concat (map (\<lambda>s. ''/'' @ s) (rq_segments rq))"
    and "starts_with ''/health/'' (rq_path rq)"
  shows "find_route rq \<in> {None, Some Live, Some Ready}"
proof (cases "rq_segments rq")
  case (Cons s ss)
  have "s \<noteq> ''wallets''" "s \<noteq> ''wagering''" "s \<noteq> ''providers''" "s \<noteq> ''metrics''"
    using assms Cons by (auto simp: starts_with_def)
  with Cons show ?thesis
    by (auto simp: find_route_def get_routes_def post_routes_def split: list.splits if_splits)
qed (simp add: find_route_def get_routes_def post_routes_def)

text \<open>
  C14: Nobody reaches a handler unproven. A request is refused with status 401 and changes nothing;
  or it is a health check, for which only the routes for liveness and readiness exist and the
  database stays as it is; or it carries a token that proves the client, by a signature with the
  key the key server lists for it now, and is served under exactly this identity.
\<close>

theorem only_authentic_requests_served:
  assumes "verifier_ok verify header by_key"
    and "rq_path rq = concat (map (\<lambda>s. ''/'' @ s) (rq_segments rq))"
    and "serve cf fetch verify sf sv rq w = (rs, w')"
  shows "rs_status rs = 401 \<and> w' = w \<or>
    starts_with ''/health/'' (rq_path rq) \<and> find_route rq \<in> {None, Some Live, Some Ready} \<and>
      ws_store w' = ws_store w \<or>
    (\<exists>c. authentic cf fetch verify header by_key rq c \<and>
       (rs, w') = serve_route sf sv (Some c) rq w)"
proof (cases "authenticate cf fetch verify rq")
  case (Inl refusal)
  with assms(3) authenticate_refusal [OF Inl] show ?thesis
    by (auto simp: serve_def auth_middleware_def)
next
  case (Inr caller)
  note served = serve_caller [OF Inr, of sf sv w]
  show ?thesis
  proof (cases caller)
    case None
    with Inr have h: "starts_with ''/health/'' (rq_path rq)" using authenticate_anonymous by blast
    moreover have "ws_store w' = ws_store w"
      using assms(3) served health_routes [OF assms(2) h]
      by (auto simp: serve_route_def handle_ready_def on_queue_def split: option.splits prod.splits)
    ultimately show ?thesis using health_routes [OF assms(2) h] by blast
  next
    case (Some c)
    with Inr authenticated [OF assms(1)] served assms(3) show ?thesis by metis
  qed
qed

subsection \<open>Examples\<close>

definition sample_config :: config where
  "sample_config = \<lparr>cf_addr = '':8080'', cf_database = ''db'', cf_issuer = ''issuer'', cf_jwks = ''jwks'',
     cf_audience = ''api'', cf_shutdown = 1, cf_region = ''r'', cf_endpoint = [], cf_access_key = [],
     cf_secret_key = [], cf_input = ''in'', cf_output = ''out'', cf_dlq = ''dlq''\<rparr>"

text \<open>
  A key server with one key, and a verifier that takes the token \<^verbatim>\<open>tok\<close> for one of client
  \<open>p\<close> and \<^verbatim>\<open>adm\<close> for one of the wallet service.
\<close>

definition sample_jwk :: json where
  "sample_jwk = JObj [(''kid'', JStr ''k1''), (''kty'', JStr ''RSA''), (''n'', JStr ''AQAB''),
     (''e'', JStr ''AQAB'')]"

definition sample_fetch :: "err + nat \<times> string" where
  "sample_fetch = Inr (200, json_text (JObj [(''keys'', JArr [sample_jwk])]))"

definition sample_header :: "string \<Rightarrow> jwt_header" where
  "sample_header t = \<lparr>jh_alg = ''RS256'', jh_kid = Some (JStr ''k1'')\<rparr>"

definition sample_verify :: verifier where
  "sample_verify key_of iss aud token =
     rbind (key_of (sample_header token)) (\<lambda>k.
       Inr (token = ''tok'' \<or> token = ''adm'',
         [''iss'' \<mapsto> JStr iss, ''azp'' \<mapsto> JStr (if token = ''adm'' then ''wallet-service'' else ''p'')]))"

definition sample_http :: http_request where
  "sample_http = \<lparr>rq_method = ''GET'', rq_path = ''/wagering/transactions/200'',
     rq_segments = [''wagering'', ''transactions'', ''200''], rq_authorization = ''Bearer tok'',
     rq_key = [], rq_limit = [], rq_cursor = [], rq_body = []\<rparr>"

definition sample_surface :: surface where
  "sample_surface = \<lparr>sf_texts = sample_texts, sf_parsers = sample_parsers, sf_known = brl_only,
     sf_client = sample_client\<rparr>"

lemma sample_verifier_ok: "verifier_ok sample_verify sample_header (\<lambda>k t. t = ''tok'' \<or> t = ''adm'')"
  by (auto simp: verifier_ok_def sample_verify_def rbind_Inr_iff)

lemma sample_fields:
  "text_fields ''Bearer tok'' = [''Bearer'', ''tok'']" "text_fields ''Bearer adm'' = [''Bearer'', ''adm'']"
  using two_fields [of "''Bearer''" "''tok''"] two_fields [of "''Bearer''" "''adm''"]
  by (simp_all add: visible_def)

lemma sample_b64: "b64_decode ''AQAB'' = Some (map byte_char [1, 0, 1])"
  by code_simp

lemma sample_jwks:
  "decode_first jwks_fields [] (json_text (JObj [(''keys'', JArr [sample_jwk])])) =
     Inr [\<lparr>jk_kid = ''k1'', jk_kty = ''RSA'', jk_n = ''AQAB'', jk_e = ''AQAB''\<rparr>]"
proof -
  have "utf8_valid ''keys''" "utf8_valid ''kid''" "utf8_valid ''kty''" "utf8_valid ''n''" "utf8_valid ''e''"
    "utf8_valid ''k1''" "utf8_valid ''RSA''" "utf8_valid ''AQAB''"
    by (rule ascii_valid, simp add: code_def)+
  then have "json_ok max_nesting (JObj [(''keys'', JArr [sample_jwk])])"
    by (simp add: max_nesting_def sample_jwk_def)
  from parse_text(1) [OF this, of "[]"] show ?thesis
    by (simp add: decode_first_def jwks_fields_def jwk_fields_def decode_struct_def find_field_def
        set_slice_def set_string_def sample_jwk_def ends_value_def del: json_text.simps)
qed

lemma sample_key: "key_for sample_fetch (sample_header t) = Inr \<lparr>rk_n = 65537, rk_e = 65537\<rparr>"
  by (simp add: key_for_def sample_header_def auth_key_def sample_fetch_def sample_jwks
      rsa_public_key_def sample_b64 big_endian_def del: json_text.simps)

lemma sample_authenticated:
  assumes "\<not> starts_with ''/health/'' (rq_path rq)"
  shows "rq_authorization rq = ''Bearer tok'' \<Longrightarrow>
      authenticate sample_config sample_fetch sample_verify rq = Inr (Some ''p'')"
    and "rq_authorization rq = ''Bearer adm'' \<Longrightarrow>
      authenticate sample_config sample_fetch sample_verify rq = Inr (Some ''wallet-service'')"
proof -
  have "char_of (98 :: nat) = CHR ''b''" by code_simp
  then show "rq_authorization rq = ''Bearer tok'' \<Longrightarrow>
      authenticate sample_config sample_fetch sample_verify rq = Inr (Some ''p'')"
    and "rq_authorization rq = ''Bearer adm'' \<Longrightarrow>
      authenticate sample_config sample_fetch sample_verify rq = Inr (Some ''wallet-service'')"
    using assms by (auto simp: authenticate_def sample_fields sample_verify_def sample_key lower_char_def)
qed

lemma providers_kept_apart_witness:
  "fst (serve sample_config sample_fetch sample_verify sample_surface
      (pg_services sample_texts sample_platform (sample_env 300 3000, 11, None)) sample_http
      \<lparr>ws_calls = [], ws_store = bet_db\<lparr>db_wallets := [], db_ledger := []\<rparr>, ws_metrics = initial_registry\<rparr>) =
   fst (serve sample_config sample_fetch sample_verify sample_surface
      (pg_services sample_texts sample_platform (sample_env 300 3000, 11, None)) sample_http
      \<lparr>ws_calls = [], ws_store = bet_db, ws_metrics = initial_registry\<rparr>)"
proof -
  let ?w = "\<lparr>ws_calls = [], ws_store = bet_db, ws_metrics = initial_registry\<rparr>"
  let ?sv = "pg_services sample_texts sample_platform (sample_env 300 3000, 11, None)"
  obtain rs w' where s: "serve sample_config sample_fetch sample_verify sample_surface ?sv sample_http ?w =
      (rs, w')" by fastforce
  have a: "authenticate sample_config sample_fetch sample_verify sample_http = Inr (Some ''p'')"
    by (rule sample_authenticated(1)) (simp_all add: sample_http_def starts_with_def)
  have "find_route sample_http = Some (GetTransaction ''200'')"
    by (simp add: find_route_def sample_http_def get_routes_def)
  with providers_kept_apart [OF sample_platform_ok _ a _ s] bet_reachable s show ?thesis
    by (simp add: own_wagers_def)
qed

lemma only_authentic_requests_served_witness:
  "\<exists>c. authentic sample_config sample_fetch sample_verify sample_header (\<lambda>k t. t = ''tok'' \<or> t = ''adm'')
     (sample_http\<lparr>rq_path := ''/metrics'', rq_segments := [''metrics'']\<rparr>) c"
proof -
  let ?rq = "sample_http\<lparr>rq_path := ''/metrics'', rq_segments := [''metrics'']\<rparr>"
  let ?w = "\<lparr>ws_calls = [], ws_store = bet_db, ws_metrics = initial_registry\<rparr>"
  let ?sv = "pg_services sample_texts sample_platform (sample_env 300 3000, 11, None)"
  have a: "authenticate sample_config sample_fetch sample_verify ?rq = Inr (Some ''p'')"
    by (rule sample_authenticated(1)) (simp_all add: sample_http_def starts_with_def)
  have s: "serve sample_config sample_fetch sample_verify sample_surface ?sv ?rq ?w =
      (write_error 403 ''FORBIDDEN'', ?w)"
    unfolding serve_caller [OF a]
    by (simp add: serve_route_def find_route_def get_routes_def sample_http_def handle_metrics_def
        internal_def wallet_service_def)
  from only_authentic_requests_served [OF sample_verifier_ok _ s] show ?thesis
    by (auto simp: write_error_def write_json_def starts_with_def)
qed

end
