(* ===== verification/Publisher.thy ===== *)
theory Publisher
  imports Delivery
begin

text \<open>
  What the outbox publisher guarantees: it relies on \<^verbatim>\<open>outboxStore\<close> by the laws of the
  locale \<open>outbox_source\<close>, interpreted on the PostgreSQL store.
\<close>

section \<open>The interface\<close>

text \<open>\<open>accepted\<close>: among the calls \<open>ks\<close>, made after \<open>before\<close>, the call \<open>k\<close> was answered without error.\<close>

definition accepted :: "client \<Rightarrow> sqs_call list \<Rightarrow> sqs_call \<Rightarrow> sqs_call list \<Rightarrow> bool" where
  "accepted cl before k ks \<longleftrightarrow>
     (\<exists>pre post. ks = pre @ k # post \<and> sdk_call (cl_sdk cl) (before @ pre) k = None)"

definition event_sent :: "texts \<Rightarrow> client \<Rightarrow> uuid \<Rightarrow> uuid \<Rightarrow> string \<Rightarrow> sqs_call" where
  "event_sent x cl i aggregate payload =
     SendMessage (cl_output cl) (uuid_text x aggregate) (uuid_text x i) payload"

lemma accepted_first: "sdk_call (cl_sdk cl) before k = None \<Longrightarrow> accepted cl before k (k # ks)"
  unfolding accepted_def by (rule exI [of _ "[]"], rule exI [of _ ks]) simp

lemma accepted_later: "accepted cl (before @ ks) k ks' \<Longrightarrow> accepted cl before k (ks @ ks')"
  unfolding accepted_def by (metis append.assoc)

definition outbox_at ::
    "('e \<Rightarrow> int \<Rightarrow> 's \<Rightarrow> (err + outbox_event list) \<times> 's) \<Rightarrow>
     ('e \<Rightarrow> uuid \<Rightarrow> int64 \<Rightarrow> 's \<Rightarrow> (err + unit) \<times> 's) \<Rightarrow>
     ('e \<Rightarrow> uuid \<Rightarrow> 's \<Rightarrow> (err + unit) \<times> 's) \<Rightarrow> 'e \<Rightarrow> 's outbox_store" where
  "outbox_at claim retry mark e = \<lparr>os_claim = claim e, os_retry = retry e, os_mark = mark e\<rparr>"

lemma accepted_earlier: "accepted cl before k ks \<Longrightarrow> accepted cl before k (ks @ ks')"
  unfolding accepted_def by (metis append.assoc append_Cons)

text \<open>
  \<open>event_at s i\<close>: aggregate and payload of an event and whether it is marked published. From \<open>w\<close>
  to \<open>w'\<close> only marks were made, each of an event that was accepted in between.
\<close>

type_synonym 's events = "'s \<Rightarrow> uuid \<Rightarrow> (uuid \<times> string \<times> bool) option"

definition marked_after ::
    "'s events \<Rightarrow> texts \<Rightarrow> client \<Rightarrow> 's world \<Rightarrow> 's world \<Rightarrow> sqs_call list \<Rightarrow> uuid \<Rightarrow> bool" where
  "marked_after event_at x cl w w' ks i \<longleftrightarrow>
     (\<exists>a p b. event_at (ws_store w) i = Some (a, p, b) \<and> event_at (ws_store w') i = Some (a, p, True) \<and>
        accepted cl (ws_calls w) (event_sent x cl i a p) ks)"

definition only_sent_marked :: "'s events \<Rightarrow> texts \<Rightarrow> client \<Rightarrow> 's world \<Rightarrow> 's world \<Rightarrow> bool" where
  "only_sent_marked event_at x cl w w' \<longleftrightarrow>
     (\<exists>ks. ws_calls w' = ws_calls w @ ks \<and>
        (\<forall>i. event_at (ws_store w') i = event_at (ws_store w) i \<or> marked_after event_at x cl w w' ks i))"

lemma only_sent_same:
  assumes "event_at (ws_store w') = event_at (ws_store w)" and "ws_calls w' = ws_calls w @ ks"
  shows "only_sent_marked event_at x cl w w'"
  using assms by (auto simp: only_sent_marked_def)

lemma only_sent_trans:
  assumes "only_sent_marked event_at x cl w w1" and "only_sent_marked event_at x cl w1 w2"
  shows "only_sent_marked event_at x cl w w2"
proof -
  from assms obtain ks1 ks2 where c: "ws_calls w1 = ws_calls w @ ks1" "ws_calls w2 = ws_calls w1 @ ks2"
    and s1: "\<And>i. event_at (ws_store w1) i = event_at (ws_store w) i \<or> marked_after event_at x cl w w1 ks1 i"
    and s2: "\<And>i. event_at (ws_store w2) i = event_at (ws_store w1) i \<or> marked_after event_at x cl w1 w2 ks2 i"
    unfolding only_sent_marked_def by blast
  have "event_at (ws_store w2) i = event_at (ws_store w) i \<or> marked_after event_at x cl w w2 (ks1 @ ks2) i" for i
  proof (cases "marked_after event_at x cl w w1 ks1 i")
    case True
    with s2 [of i] show ?thesis
      by (auto simp: marked_after_def intro: accepted_earlier)
  next
    case False
    with s1 [of i] have "event_at (ws_store w1) i = event_at (ws_store w) i" by blast
    with s2 [of i] show ?thesis
      using accepted_later [of cl "ws_calls w" ks1 _ ks2] by (auto simp: marked_after_def c)
  qed
  with c show ?thesis unfolding only_sent_marked_def by (intro exI [of _ "ks1 @ ks2"]) simp
qed

lemma only_sent_mark:
  assumes "event_at (ws_store w) i = Some (a, p, b)"
    and "event_at (ws_store w') = (event_at (ws_store w))(i \<mapsto> (a, p, True))"
    and "ws_calls w' = ws_calls w @ [event_sent x cl i a p]"
    and "sdk_call (cl_sdk cl) (ws_calls w) (event_sent x cl i a p) = None"
  shows "only_sent_marked event_at x cl w w'"
  using assms accepted_first [OF assms(4), of "[]"]
  by (auto simp: only_sent_marked_def marked_after_def)

lemma only_sent_event:
  assumes "only_sent_marked event_at x cl w w'" and "event_at (ws_store w) i = Some (a, p, b)"
  shows "\<exists>b'. event_at (ws_store w') i = Some (a, p, b')"
proof -
  from assms(1) obtain ks where
    "event_at (ws_store w') i = event_at (ws_store w) i \<or> marked_after event_at x cl w w' ks i"
    unfolding only_sent_marked_def by blast
  with assms(2) show ?thesis by (auto simp: marked_after_def)
qed

locale outbox_source =
  fixes good :: "'s \<Rightarrow> bool"
    and event_at :: "'s \<Rightarrow> uuid \<Rightarrow> (uuid \<times> string \<times> bool) option"
    and claim :: "'e \<Rightarrow> int \<Rightarrow> 's \<Rightarrow> (err + outbox_event list) \<times> 's"
    and retry :: "'e \<Rightarrow> uuid \<Rightarrow> int64 \<Rightarrow> 's \<Rightarrow> (err + unit) \<times> 's"
    and mark :: "'e \<Rightarrow> uuid \<Rightarrow> 's \<Rightarrow> (err + unit) \<times> 's"
  assumes claimed: "good s \<Longrightarrow> claim e n s = (res, s') \<Longrightarrow>
      good s' \<and> event_at s' = event_at s \<and>
      (\<forall>evs. res = Inr evs \<longrightarrow> (\<forall>ev\<in>set evs.
         event_at s (oe_id ev) = Some (oe_aggregate ev, oe_payload ev, False)))"
    and retried: "good s \<Longrightarrow> retry e i delay s = (r, s') \<Longrightarrow> good s' \<and> event_at s' = event_at s"
    and marked: "good s \<Longrightarrow> event_at s i = Some (a, p, b) \<Longrightarrow>
      \<exists>s'. mark e i s = (Inr (), s') \<and> good s' \<and> event_at s' = (event_at s)(i \<mapsto> (a, p, True))"
begin

lemma publish_event_marks:
  assumes "good (ws_store w)"
    and "event_at (ws_store w) (oe_id ev) = Some (oe_aggregate ev, oe_payload ev, b)"
    and "\<And>k. \<exists>e. em_store (at k) = outbox_at claim retry mark e"
    and "publish_events x cl at n (ev # evs) w = (res, w')"
  obtains w2 where "good (ws_store w2)" and "only_sent_marked event_at x cl w w2"
    and "w' = w2 \<or> publish_events x cl at (Suc n) evs w2 = (res, w')"
proof -
  let ?i = "oe_id ev" and ?a = "oe_aggregate ev" and ?p = "oe_payload ev"
  obtain e where e: "em_store (at n) = outbox_at claim retry mark e" using assms(3) by blast
  obtain sent w1 where s1: "on_queue (publish_event cl (uuid_text x ?i) (uuid_text x ?a) ?p) w = (sent, w1)"
    by fastforce
  then obtain ks where w1: "ws_store w1 = ws_store w" "ws_calls w1 = ws_calls w @ ks"
    and k: "sent = None \<Longrightarrow> ks = [event_sent x cl ?i ?a ?p] \<and>
      sdk_call (cl_sdk cl) (ws_calls w) (event_sent x cl ?i ?a ?p) = None"
    by (auto simp: on_queue_def publish_event_def sqs_do_def event_sent_def split: if_splits)
  show thesis
  proof (cases sent)
    case (Some f)
    obtain r w2 where r: "on_store (os_retry (em_store (at n)) ?i
        (queue_retry_delay (word_of_int (oe_attempts ev) + 1)))
        (count_metric ''apostas_outbox_retries_total'' w1) = (r, w2)" by fastforce
    then have w2: "good (ws_store w2)" "event_at (ws_store w2) = event_at (ws_store w)"
      "ws_calls w2 = ws_calls w1"
      using retried assms(1) w1(1)
      by (auto simp: on_store_def e outbox_at_def count_metric_def split: prod.splits)
    show thesis
      by (rule that [of w2])
        (use w2 w1 Some s1 r assms(4) in \<open>auto intro: only_sent_same split: sum.splits\<close>)
  next
    case None
    show thesis
    proof (cases "em_fault (at n)")
      case (Some f)
      show thesis
        by (rule that [of w1]) (use w1 None Some s1 assms in \<open>auto intro: only_sent_same\<close>)
    next
      case nf: None
      obtain s' where m: "mark e ?i (ws_store w) = (Inr (), s')" "good s'"
        "event_at s' = (event_at (ws_store w))(?i \<mapsto> (?a, ?p, True))"
        using marked [OF assms(1,2)] by blast
      let ?w2 = "add_metric ''apostas_outbox_delay_milliseconds_total'' (em_millis (at n))
        (count_metric ''apostas_outbox_published_total'' (w1\<lparr>ws_store := s'\<rparr>))"
      have w2: "ws_store ?w2 = s'" "ws_calls ?w2 = ws_calls w1"
        by (simp_all add: add_metric_def count_metric_def)
      have "publish_events x cl at (Suc n) evs ?w2 = (res, w')"
        using assms(4) None nf s1 m(1) w1(1) by (simp add: on_store_def e outbox_at_def)
      moreover have "only_sent_marked event_at x cl w ?w2"
        by (rule only_sent_mark [where event_at = event_at and i = ?i and a = ?a and p = ?p and b = b])
           (simp_all add: w2 m(3) w1(2) k [OF None] assms(2))
      ultimately show thesis using m(2) w2(1) by (intro that [of ?w2]) simp_all
    qed
  qed
qed

lemma publish_events_marks:
  assumes "good (ws_store w)"
    and "\<And>ev. ev \<in> set evs \<Longrightarrow> \<exists>b. event_at (ws_store w) (oe_id ev) = Some (oe_aggregate ev, oe_payload ev, b)"
    and "\<And>k. \<exists>e. em_store (at k) = outbox_at claim retry mark e"
    and "publish_events x cl at n evs w = (res, w')"
  shows "good (ws_store w') \<and> only_sent_marked event_at x cl w w'"
  using assms(1,2,4)
proof (induction evs arbitrary: n w)
  case Nil
  then show ?case by (auto intro: only_sent_same)
next
  case (Cons ev evs)
  obtain b where b: "event_at (ws_store w) (oe_id ev) = Some (oe_aggregate ev, oe_payload ev, b)"
    using Cons.prems(2) by auto
  from publish_event_marks [OF Cons.prems(1) b assms(3) Cons.prems(3)] obtain w2 where
    w2: "good (ws_store w2)" "only_sent_marked event_at x cl w w2"
      "w' = w2 \<or> publish_events x cl at (Suc n) evs w2 = (res, w')" .
  have "\<exists>b. event_at (ws_store w2) (oe_id ev') = Some (oe_aggregate ev', oe_payload ev', b)"
    if "ev' \<in> set evs" for ev'
    using Cons.prems(2) [of ev'] only_sent_event [OF w2(2)] that by auto
  with w2 Cons.IH [of w2 "Suc n"] only_sent_trans [OF w2(2)] show ?case by blast
qed

lemma publish_marks:
  assumes "good (ws_store w)"
    and "\<And>k. \<exists>e. em_store (at k) = outbox_at claim retry mark e"
    and "publish x cl (outbox_at claim retry mark e) at w = (res, w')"
  shows "good (ws_store w') \<and> only_sent_marked event_at x cl w w'"
proof -
  obtain r s where c: "claim e 20 (ws_store w) = (r, s)" by fastforce
  note cl = claimed [OF assms(1) c]
  show ?thesis
  proof (cases r)
    case (Inl y)
    with assms(3) c cl show ?thesis
      by (auto simp: publish_def outbox_at_def on_store_def intro: only_sent_same)
  next
    case (Inr evs)
    with assms(3) c have "publish_events x cl at 0 evs (w\<lparr>ws_store := s\<rparr>) = (res, w')"
      by (simp add: publish_def outbox_at_def on_store_def)
    from publish_events_marks [OF _ _ assms(2) this] cl Inr
    have "good (ws_store w') \<and> only_sent_marked event_at x cl (w\<lparr>ws_store := s\<rparr>) w'" by auto
    moreover have "only_sent_marked event_at x cl w (w\<lparr>ws_store := s\<rparr>)"
      by (rule only_sent_same) (use cl in simp_all)
    ultimately show ?thesis using only_sent_trans by blast
  qed
qed

end

section \<open>The PostgreSQL outbox\<close>

definition pg_event_at :: "db \<Rightarrow> uuid \<Rightarrow> (uuid \<times> string \<times> bool) option" where
  "pg_event_at d i =
     map_option (\<lambda>r. (o_aggregate r, o_payload r, o_published r \<noteq> None))
       (find (\<lambda>r. o_id r = i) (db_outbox d))"

lemma find_update_where:
  "(\<And>r. k (f r) = k r) \<Longrightarrow>
   find (\<lambda>r. k r = i) (update_where p f rs) = map_option (\<lambda>r. if p r then f r else r) (find (\<lambda>r. k r = i) rs)"
  by (induction rs) (simp_all add: update_where_def)

lemma pg_event_at_update:
  assumes "\<And>r. o_id (f r) = o_id r" and "\<And>r. o_aggregate (f r) = o_aggregate r"
    and "\<And>r. o_payload (f r) = o_payload r" and "\<And>r. q r \<Longrightarrow> o_published (f r) = o_published r"
  shows "pg_event_at (d\<lparr>db_outbox := update_where q f (db_outbox d)\<rparr>) = pg_event_at d"
  by (rule ext) (auto simp: pg_event_at_def find_update_where [where k = o_id] assms option.map_comp
      intro!: map_option_cong)

lemma outbox_ids: "integrity pf d \<Longrightarrow> distinct (map o_id (db_outbox d))"
  unfolding integrity_def keys_ok_def
  by (elim conjE, erule clash_free_key) (simp add: outbox_clash_def)

lemma pg_event_at_row:
  "integrity pf d \<Longrightarrow> r \<in> set (db_outbox d) \<Longrightarrow>
   pg_event_at d (o_id r) = Some (o_aggregate r, o_payload r, o_published r \<noteq> None)"
  using find_key_unique [OF outbox_ids] by (simp add: pg_event_at_def)

lemma pg_event_at_mark:
  assumes "pg_event_at s i = Some (a, p, b)"
  shows "pg_event_at (snd (mark_outbox_published e i s)) = (pg_event_at s)(i \<mapsto> (a, p, True))"
proof
  fix j
  show "pg_event_at (snd (mark_outbox_published e i s)) j = ((pg_event_at s)(i \<mapsto> (a, p, True))) j"
  proof (cases "j = i")
    case True
    from assms obtain r where "find (\<lambda>r. o_id r = i) (db_outbox s) = Some r" "o_aggregate r = a"
      "o_payload r = p" by (auto simp: pg_event_at_def)
    with True find_SomeD [OF this(1)] show ?thesis
      by (simp add: mark_outbox_published_def pg_event_at_def find_update_where [where k = o_id])
  next
    case False
    then show ?thesis
      by (cases "find (\<lambda>r. o_id r = j) (db_outbox s)")
         (auto simp: mark_outbox_published_def pg_event_at_def find_update_where [where k = o_id]
           dest: find_SomeD)
  qed
qed

interpretation pgo: outbox_source "integrity pf" pg_event_at claim_outbox retry_outbox
  mark_outbox_published for pf
proof unfold_locales
  fix s e n and res :: "err + outbox_event list" and s'
  assume i: "integrity pf s" and c: "claim_outbox e n s = (res, s')"
  have "pg_event_at s' = pg_event_at s"
    using c by (auto simp: claim_outbox_def Let_def pg_event_at_update split: if_splits)
  moreover have "pg_event_at s (oe_id ev) = Some (oe_aggregate ev, oe_payload ev, False)"
    if "res = Inr evs" "ev \<in> set evs" for evs ev
  proof -
    from that c obtain r where r: "r \<in> set (claimed_rows e n s)" "ev = scan_event r"
      by (auto simp: claim_outbox_def Let_def split: if_splits)
    from claimed_rows_claimable [OF r(1)] pg_event_at_row [OF i] r(2) show ?thesis
      by (simp add: scan_event_def claimable_def)
  qed
  ultimately show "integrity pf s' \<and> pg_event_at s' = pg_event_at s \<and>
      (\<forall>evs. res = Inr evs \<longrightarrow> (\<forall>ev\<in>set evs.
         pg_event_at s (oe_id ev) = Some (oe_aggregate ev, oe_payload ev, False)))"
    using outbox_integrity(1) [OF i, of e n] c by simp
next
  fix s e i delay and r :: "err + unit" and s'
  assume g: "integrity pf s" and "retry_outbox e i delay s = (r, s')"
  with outbox_integrity(3) [OF g, of e i delay]
  show "integrity pf s' \<and> pg_event_at s' = pg_event_at s"
    by (auto simp: retry_outbox_def pg_event_at_update split: if_splits)
next
  fix s i a p b e
  assume g: "integrity pf s" and e: "pg_event_at s i = Some (a, p, b)"
  from pg_event_at_mark [OF e, of e] outbox_integrity(2) [OF g, of e i]
  show "\<exists>s'. mark_outbox_published e i s = (Inr (), s') \<and> integrity pf s' \<and>
      pg_event_at s' = (pg_event_at s)(i \<mapsto> (a, p, True))"
    by (intro exI [of _ "snd (mark_outbox_published e i s)"]) (simp add: mark_outbox_published_def)
qed

abbreviation (input) pg_outbox :: "env \<Rightarrow> db outbox_store" where
  "pg_outbox \<equiv> outbox_at claim_outbox retry_outbox mark_outbox_published"

text \<open>
  C11: A round of the publisher loses no event and marks none too early, whatever the queue
  answers, whatever faults are injected and whenever the calls are made: every event that was
  unpublished is still in the outbox with its wallet and payload, and when it is marked published
  now, the output queue accepted exactly this event in this round, in the group of its wallet.
\<close>

theorem publisher_marks_only_sent:
  assumes "platform_ok pf" and "reachable pf (ws_store w)"
    and "\<And>k. \<exists>en. em_store (at k) = pg_outbox en"
    and "publish x cl (pg_outbox en) at w = (res, w')"
  shows "\<exists>ks. ws_calls w' = ws_calls w @ ks \<and>
    (\<forall>r\<in>set (db_outbox (ws_store w)). \<exists>r'\<in>set (db_outbox (ws_store w')).
       o_id r' = o_id r \<and> o_aggregate r' = o_aggregate r \<and> o_payload r' = o_payload r \<and>
       (o_published r = None \<and> o_published r' \<noteq> None \<longrightarrow>
          accepted cl (ws_calls w) (event_sent x cl (o_id r) (o_aggregate r) (o_payload r)) ks))"
proof -
  note i = reachable_ok [OF assms(1,2)]
  from pgo.publish_marks [OF i assms(3,4)] obtain ks where ks: "integrity pf (ws_store w')"
    "ws_calls w' = ws_calls w @ ks"
    "\<forall>i. pg_event_at (ws_store w') i = pg_event_at (ws_store w) i \<or>
       marked_after pg_event_at x cl w w' ks i"
    by (auto simp: only_sent_marked_def)
  have "\<exists>r'\<in>set (db_outbox (ws_store w')).
       o_id r' = o_id r \<and> o_aggregate r' = o_aggregate r \<and> o_payload r' = o_payload r \<and>
       (o_published r = None \<and> o_published r' \<noteq> None \<longrightarrow>
          accepted cl (ws_calls w) (event_sent x cl (o_id r) (o_aggregate r) (o_payload r)) ks)"
    if r: "r \<in> set (db_outbox (ws_store w))" for r
  proof -
    note row = pg_event_at_row [OF i r]
    obtain q where q: "pg_event_at (ws_store w') (o_id r) = Some (o_aggregate r, o_payload r, q)"
      "q = (o_published r \<noteq> None) \<or>
       accepted cl (ws_calls w) (event_sent x cl (o_id r) (o_aggregate r) (o_payload r)) ks"
      using spec [OF ks(3), of "o_id r"] row unfolding marked_after_def by (elim disjE exE conjE) simp_all
    from q(1) obtain r' where "r' \<in> set (db_outbox (ws_store w'))" "o_id r' = o_id r"
      "o_aggregate r' = o_aggregate r" "o_payload r' = o_payload r" "q = (o_published r' \<noteq> None)"
      by (auto simp: pg_event_at_def dest!: find_SomeD)
    with q(2) show ?thesis by (intro bexI [of _ r']) auto
  qed
  with ks(2) show ?thesis by blast
qed

lemma opened_outbox:
  "map (\<lambda>r. (o_id r, o_aggregate r, o_occurred r, o_attempts r, o_next r, o_published r, o_claimed r))
     (db_outbox opened_db) = [(101, 10, 1000, 0, 1000, None, None), (100, 10, 1000, 0, 1000, None, None)]"
  unfolding opened_db_def create_wallet_def post_opening_def
  by (simp add: tx_eval statement_eval trigger_eval domain_eval event_eval empty_db_def
      sample_platform_def sample_env_def insert_ledger_def brl_def)

lemma opened_outbox_rows:
  obtains p q where "db_outbox opened_db =
    [\<lparr>o_id = 101, o_aggregate = 10, o_type = fst p, o_payload = snd p, o_occurred = 1000,
       o_attempts = 0, o_next = 1000, o_published = None, o_claimed = None\<rparr>,
     \<lparr>o_id = 100, o_aggregate = 10, o_type = fst q, o_payload = snd q, o_occurred = 1000,
       o_attempts = 0, o_next = 1000, o_published = None, o_claimed = None\<rparr>]"
proof -
  obtain r s where d: "db_outbox opened_db = [r, s]"
    using opened_outbox by (auto simp: map_eq_Cons_conv)
  show thesis
    by (rule that [of "(o_type r, o_payload r)" "(o_type s, o_payload s)"])
       (use opened_outbox in \<open>simp add: d\<close>)
qed

definition sample_moment :: "nat \<Rightarrow> db event_moment" where
  "sample_moment k = \<lparr>em_store = pg_outbox (sample_env 0 5000), em_fault = None, em_millis = 1\<rparr>"

lemma publisher_marks_only_sent_witness:
  "\<exists>ks. ws_calls (snd (publish sample_texts sample_client (pg_outbox (sample_env 0 5000)) sample_moment
       opened_world)) = ks \<and>
     (\<exists>r. db_outbox opened_db = [r, hd (tl (db_outbox opened_db))] \<and>
       (\<exists>r'\<in>set (db_outbox (ws_store (snd (publish sample_texts sample_client
            (pg_outbox (sample_env 0 5000)) sample_moment opened_world)))).
          o_id r' = 101 \<and> (o_published r' \<noteq> None \<longrightarrow>
            accepted sample_client [] (event_sent sample_texts sample_client 101 10 (o_payload r)) ks)))"
proof -
  obtain res w' where p: "publish sample_texts sample_client (pg_outbox (sample_env 0 5000))
      sample_moment opened_world = (res, w')" by fastforce
  have m: "\<exists>en. em_store (sample_moment k) = pg_outbox en" for k
    by (auto simp: sample_moment_def)
  obtain pl q where d: "db_outbox opened_db =
    [\<lparr>o_id = 101, o_aggregate = 10, o_type = fst pl, o_payload = snd pl, o_occurred = 1000,
       o_attempts = 0, o_next = 1000, o_published = None, o_claimed = None\<rparr>,
     \<lparr>o_id = 100, o_aggregate = 10, o_type = fst q, o_payload = snd q, o_occurred = 1000,
       o_attempts = 0, o_next = 1000, o_published = None, o_claimed = None\<rparr>]"
    by (rule opened_outbox_rows)
  show ?thesis
    unfolding p snd_conv
    using publisher_marks_only_sent [OF sample_platform_ok opened_world_reachable m p]
    by (auto simp: opened_world_def d)
qed

text \<open>An SDK whose first call fails.\<close>

definition throttled_client :: client where
  "throttled_client = sample_client
     \<lparr>cl_sdk := \<lparr>sdk_call = \<lambda>calls k. if calls = [] then Some (ErrText ''throttled'') else None,
        sdk_receive = \<lambda>calls k. Inr []\<rparr>\<rparr>"

lemma first_delay: "sint (queue_retry_delay 1) = 1000000000"
  by (simp add: queue_retry_delay_value back_off_exponent_def)


end
