(* ===== verification/Progress.thy ===== *)
theory Progress
  imports StoreService
begin

text \<open>
  When processing a request succeeds. The other theories say what holds of a call that returned a
  result; here every statement of the transaction is shown to succeed, so that the errors of a
  call are exactly those of its input.
\<close>

section \<open>Fresh identifiers\<close>

text \<open>
  What \<^verbatim>\<open>uuid.New\<close> and \<^verbatim>\<open>time.Now\<close> are relied on for: identifiers that no row has
  yet, and a clock that is set.
\<close>

definition fresh_env :: "env \<Rightarrow> db \<Rightarrow> bool" where
  "fresh_env en d \<longleftrightarrow>
     en_tx en \<noteq> 0 \<and> en_entry en \<noteq> 0 \<and> en_now en \<noteq> 0 \<and>
     (\<forall>t\<in>set (db_wagers d). t_id t \<noteq> en_tx en) \<and> (\<forall>l\<in>set (db_ledger d). l_id l \<noteq> en_entry en) \<and>
     en_balance_event en \<noteq> en_wager_event en \<and>
     (\<forall>e\<in>set (db_outbox d). o_id e \<noteq> en_balance_event en \<and> o_id e \<noteq> en_wager_event en)"

section \<open>Statements that succeed\<close>

lemma load_reference_total:
  assumes i: "integrity pf d"
  shows "\<exists>ref. load_reference pf p x d = Inr ref"
proof (cases "find (\<lambda>r. t_provider r = Some p \<and> t_external r = Some x) (db_wagers d)")
  case None
  then show ?thesis by (simp add: load_reference_def)
next
  case (Some t)
  from find_SomeD [OF Some] have t: "t \<in> set (db_wagers d)" "t_provider t = Some p" by simp_all
  then have "wager_row_checks t" using integrity_wager [OF i] by (simp add: wager_ok_def)
  with t(2) obtain rd where rd: "t_round t = Some rd"
    by (auto simp: wager_row_checks_def identity_columns_def)
  obtain r w where "valid_currency (pf_known pf) (t_currency t)" by (rule stored_wallet [OF i t(1)])
  with Some rd show ?thesis
    by (simp add: load_reference_def money_from_minor_Inr rbind_def money_from_minor_def)
qed

text \<open>The last entry of a chain, and a bound on all of them.\<close>

lemma chain_step:
  "chain_end (b0, v0) (l # ls) = Some e \<Longrightarrow>
   chain_end (sint (l_after l), v0 + 1) ls = Some e \<and> sint (l_version l) = v0 + 1"
  by (simp split: if_splits)

lemma chain_last:
  "chain_end (b0, v0) ls = Some (b, v) \<Longrightarrow> ls \<noteq> [] \<Longrightarrow>
   sint (l_after (last ls)) = b \<and> sint (l_version (last ls)) = v"
proof (induction ls arbitrary: b0 v0)
  case (Cons l ls)
  note c = chain_step [OF Cons.prems(1)]
  show ?case
  proof (cases "ls = []")
    case True
    with c show ?thesis by simp
  next
    case False
    with Cons.IH [OF conjunct1 [OF c]] show ?thesis by simp
  qed
qed simp

lemma chain_length: "chain_end (b0, v0) ls = Some (b, v) \<Longrightarrow> v = v0 + int (length ls)"
proof (induction ls arbitrary: b0 v0)
  case (Cons l ls)
  from Cons.IH [OF conjunct1 [OF chain_step [OF Cons.prems]]] show ?case by simp
qed simp

lemma chain_versions:
  "chain_end (b0, v0) ls = Some (b, v) \<Longrightarrow> l \<in> set ls \<Longrightarrow> sint (l_version l) \<le> v"
proof (induction ls arbitrary: b0 v0)
  case (Cons k ls)
  note c = chain_step [OF Cons.prems(1)]
  show ?case
  proof (cases "l = k")
    case True
    with c chain_length [OF conjunct1 [OF c]] show ?thesis by simp
  next
    case False
    with Cons.IH [OF conjunct1 [OF c]] Cons.prems(2) show ?thesis by simp
  qed
qed simp

lemma find_entry_unique:
  assumes "keys_ok d" and "l \<in> set (db_ledger d)"
  shows "find_entry d (l_wallet l) (l_version l) = Some l"
proof -
  obtain m where m: "find_entry d (l_wallet l) (l_version l) = Some m"
    using assms(2) by (cases "find_entry d (l_wallet l) (l_version l)")
      (auto simp: find_entry_def find_None_iff)
  then have "m \<in> set (db_ledger d)" "l_wallet m = l_wallet l" "l_version m = l_version l"
    by (auto simp: find_entry_def dest: find_SomeD)
  then have "m = l"
    using assms clash_free_pair [of ledger_clash "db_ledger d" m l] ledger_clash_sym
    by (simp add: keys_ok_def ledger_clash_def)
  with m show ?thesis by simp
qed

text \<open>What the ledger says of a stored wallet.\<close>

lemma stored_chain:
  assumes i: "integrity pf d" and r: "find_wallet d wid = Some r"
  shows "\<forall>l\<in>set (entries d wid). sint (l_version l) \<le> sint (wr_version r)"
    and "entries d wid = [] \<Longrightarrow> wr_balance r = 0 \<and> wr_version r = 1"
    and "entries d wid \<noteq> [] \<Longrightarrow> \<exists>l\<in>set (entries d wid). l_version l = wr_version r \<and> l_after l = wr_balance r"
proof -
  have rin: "r \<in> set (db_wallets d)" and rid: "wr_id r = wid"
    using i r by (simp_all add: integrity_def find_wallet_Some)
  have ch: "chain_end (0, if opened d wid then 0 else 1) (entries d wid) =
      Some (sint (wr_balance r), sint (wr_version r))"
    using i rin rid by (auto simp: integrity_def list_all_iff balanced_def chain_start_def)
  note w = wallet_facts [OF i rin]
  show "\<forall>l\<in>set (entries d wid). sint (l_version l) \<le> sint (wr_version r)"
    using chain_versions [OF ch] by blast
  show "wr_balance r = 0 \<and> wr_version r = 1" if "entries d wid = []"
    using ch that w by (auto simp: int64_eq_iff split: if_splits)
  show "\<exists>l\<in>set (entries d wid). l_version l = wr_version r \<and> l_after l = wr_balance r"
    if "entries d wid \<noteq> []"
    using chain_last [OF ch that] that
    by (intro bexI [of _ "last (entries d wid)"]) (simp_all add: int64_eq_iff)
qed

section \<open>The transaction of the domain\<close>

lemma new_wager_ok:
  assumes v: "operation_valid known op" and "length hash = 64" and "tid \<noteq> 0" and "now \<noteq> 0"
  shows "new_wager known (operation_data op hash tid now) = Inr ((operation_data op hash tid now)\<lparr>
    wd_status := Pending, wd_failure := [], wd_ref_id := 0, wd_result := no_money, wd_updated := now\<rparr>)"
proof -
  have "validate_operation known (op_kind op) (op_money op) (op_reference op) = Inr ()"
    and ids: "op_player op \<noteq> 0" "op_wallet op \<noteq> 0"
    and texts: "\<not> blank (op_provider op)" "\<not> blank (op_external op)" "\<not> blank (op_key op)"
      "\<not> blank (op_round op)" "\<not> blank (op_game op)"
    using v by (simp_all add: operation_valid_def)
  moreover from this(1) have "money_valid known (op_money op)" "\<not> minor (op_money op) <s 0"
    "op_kind op \<noteq> Opening"
    by (auto simp: validate_operation_ok go_int)
  moreover have "\<not> money_valid known no_money"
    by simp
  ultimately show ?thesis
    using assms(2-4)
    by (simp add: new_wager_def Let_def validate_wager_def operation_data_def
        rehydrate_transaction_state_def)
qed

definition proper :: "decision \<Rightarrow> bool" where
  "proper dn \<longleftrightarrow>
     (d_status dn = PendingReference \<or> terminal (d_status dn)) \<and>
     (d_failure dn \<noteq> [] \<longleftrightarrow> d_status dn = Rejected \<or> d_status dn = Failed) \<and>
     (d_reference dn \<noteq> 0 \<longrightarrow> d_status dn = Processed)"

lemma decide_proper:
  assumes "decide known op w ref now = (dn, w')"
  shows "proper dn"
  using assms
proof (cases rule: decide_cases)
  case checks
  from decide_checks_plain [OF checks(1)] decide_checks_outcome [OF checks(1)] show ?thesis
    by (auto simp: proper_def)
qed (simp_all add: proper_def)

lemma fail_proper: "fail_decision cd w ref now = (dn, w') \<Longrightarrow> cd \<noteq> [] \<Longrightarrow> proper dn"
  by (auto simp: fail_decision_def proper_def)

lemma transition_of_decision:
  assumes v: "operation_valid known op" and "length hash = 64" and "tid \<noteq> 0" and "now \<noteq> 0"
    and pr: "proper dn" and w: "wallet_valid known w"
  defines "data \<equiv> (operation_data op hash tid now)\<lparr>
    wd_status := Pending, wd_failure := [], wd_ref_id := 0, wd_result := no_money, wd_updated := now\<rparr>"
  shows "currency (w_balance w) = currency (op_money op) \<Longrightarrow>
      \<exists>nxt. wager_transition known data (d_status dn) (d_failure dn) (w_balance w) (d_reference dn) now = Inr nxt"
    and "currency (w_balance w) \<noteq> currency (op_money op) \<Longrightarrow>
      wager_transition known data (d_status dn) (d_failure dn) (w_balance w) (d_reference dn) now =
        Inl ErrInvalidTransaction"
proof -
  have ok: "validate_wager known data = Inr ()"
    using new_wager_ok [OF assms(1-4)] by (auto simp: new_wager_Inr data_def)
  have st: "wd_status data = Pending" "wd_money data = op_money op" "wd_updated data = now"
    by (simp_all add: data_def operation_data_def)
  show "\<exists>nxt. wager_transition known data (d_status dn) (d_failure dn) (w_balance w) (d_reference dn) now = Inr nxt"
    if "currency (w_balance w) = currency (op_money op)"
    using that pr w st assms(4)
    by (simp add: wager_transition_iff [OF ok] transition_allowed_def proper_def wallet_valid_def go_int)
  have "state_transition \<lparr>ts_status = Pending\<rparr> (d_status dn) = Inr \<lparr>ts_status = d_status dn\<rparr>"
    using pr by (simp add: state_transition_Inr proper_def)
  then show "wager_transition known data (d_status dn) (d_failure dn) (w_balance w) (d_reference dn) now =
        Inl ErrInvalidTransaction"
    if "currency (w_balance w) \<noteq> currency (op_money op)"
    using that ok st
    by (simp add: wager_transition_def rehydrate_transaction_state_def)
qed

section \<open>The statements of a call\<close>

text \<open>
  What a new request meets: the stored wallet of its currency, the reference as the call loads it,
  no row under its keys.
\<close>

definition meets ::
    "platform \<Rightarrow> env \<Rightarrow> operation \<Rightarrow> wallet_row \<Rightarrow> wallet \<Rightarrow> reference option \<Rightarrow> db \<Rightarrow> bool" where
  "meets pf en op r w ref d \<longleftrightarrow>
     integrity pf d \<and> fresh_env en d \<and> operation_valid (pf_known pf) op \<and>
     find_wallet d (op_wallet op) = Some r \<and> load_wallet pf r = Inr w \<and>
     wr_currency r = currency (op_money op) \<and> existing_rows d op = [] \<and>
     (if op_reference op \<noteq> [] then load_reference pf (op_provider op) (op_reference op) d
      else Inr None) = Inr ref"

lemma meets_reference:
  "meets pf en op r w ref d \<Longrightarrow>
   ref = None \<or> load_reference pf (op_provider op) (op_reference op) d = Inr ref"
  by (auto simp: meets_def split: if_splits)

context store_call
begin

lemma reference_of_decision:
  assumes m: "meets pf en op r w ref d" and dec: "dec w ref now = (dn, w')"
  shows "d_reference dn = 0 \<or> (\<exists>t. find_wager d (d_reference dn) = Some t)"
proof (cases "d_direction dn = no_direction")
  case True
  with dec_still [OF dec] m show ?thesis by (auto simp: meets_def operation_valid_kind)
next
  case False
  have ext: "external_kind (op_kind op)" using m by (auto simp: meets_def operation_valid_kind)
  note mv = dec_moves [OF dec ext False]
  show ?thesis
  proof (cases ref)
    case None
    with mv show ?thesis by simp
  next
    case (Some rf)
    with meets_reference [OF m] have "load_reference pf (op_provider op) (op_reference op) d = Inr (Some rf)"
      by simp
    then obtain t where "t \<in> set (db_wagers d)" "ref_id rf = t_id t"
      by (rule load_reference_Some) auto
    moreover have "keys_ok d" using m by (simp add: meets_def integrity_def)
    ultimately show ?thesis using mv Some by (auto simp: find_wager_Some)
  qed
qed

lemma new_row_checks:
  assumes m: "meets pf en op r w ref d" and pr: "proper dn"
  shows "wager_row_checks (operation_row pf en op hash tid dn w' now)"
proof -
  have "validate_operation (pf_known pf) (op_kind op) (op_money op) (op_reference op) = Inr ()"
    using m by (simp add: meets_def operation_valid_def)
  then have "op_kind op \<in> {Bet, Win, Refund, Rollback} \<and> 0 < sint (minor (op_money op)) \<or>
      op_kind op = Loss \<and> minor (op_money op) = 0"
    by (auto simp: validate_operation_ok)
  moreover have "d_status dn \<in> {PendingReference, Processed, Rejected, Failed}"
    using pr by (auto simp: proper_def terminal_def)
  ultimately show ?thesis
    by (auto simp: wager_row_checks_def operation_row_def identity_columns_def go_int)
qed

lemma new_row_no_clash:
  assumes m: "meets pf en op r w ref d" and dec: "dec w ref now = (dn, w')" and x: "x \<in> set (db_wagers d)"
  shows "\<not> wager_clash (operation_row pf en op hash (en_tx en) dn w' now) x"
proof -
  have ext: "external_kind (op_kind op)" using m by (auto simp: meets_def operation_valid_kind)
  have "t_id x \<noteq> en_tx en" using m x by (simp add: meets_def fresh_env_def)
  moreover have "\<not> (t_provider x = Some (op_provider op) \<and>
      (t_key x = Some (op_key op) \<or> t_external x = Some (op_external op)))"
    using m x by (auto simp: meets_def existing_rows_def filter_empty_conv)
  moreover have "\<not> (processed_reversal x \<and> same_value (nullable_id (d_reference dn)) (t_ref x))"
    if k: "reversal_kind (op_kind op)" and st: "d_status dn = Processed"
  proof -
    have dir: "d_direction dn \<noteq> no_direction"
      using dec_still [OF dec ext] st k by (auto simp: reversal_kind_def)
    from dec_reversal [OF dec k dir] obtain rf where rf: "ref = Some rf" "\<not> ref_reversed rf" by blast
    with meets_reference [OF m] have "load_reference pf (op_provider op) (op_reference op) d = Inr (Some rf)"
      by simp
    then have t: "ref_reversed rf = reversed_before d (ref_id rf)" by (rule load_reference_Some) simp
    have "d_reference dn = ref_id rf" using dec_moves [OF dec ext dir] rf(1) by simp
    with rf(2) t x show ?thesis
      by (auto simp: reversed_before_def list_ex_iff same_value_def nullable_id_def split: if_splits)
  qed
  ultimately show ?thesis
    using ext
    by (auto simp: wager_clash_def operation_row_def same_value_def processed_reversal_def
        reversal_kind_def external_kind_def)
qed

lemma insert_row_ok:
  assumes m: "meets pf en op r w ref d" and dec: "dec w ref now = (dn, w')" and pr: "proper dn"
  shows "insert_wager_row (operation_row pf en op hash (en_tx en) dn w' now) d =
    Inr (d\<lparr>db_wagers := db_wagers d @ [operation_row pf en op hash (en_tx en) dn w' now]\<rparr>, [])"
proof -
  have "reference_exists d (operation_row pf en op hash (en_tx en) dn w' now)"
    using reference_of_decision [OF m dec]
    by (auto simp: reference_exists_def operation_row_def nullable_id_def)
  moreover have "find_wallet d (t_wallet (operation_row pf en op hash (en_tx en) dn w' now)) \<noteq> None"
    using m by (simp add: meets_def operation_row_def)
  moreover have "\<not> list_ex (wager_clash (operation_row pf en op hash (en_tx en) dn w' now)) (db_wagers d)"
    using new_row_no_clash [OF m dec] by (simp add: list_ex_iff)
  ultimately show ?thesis
    using new_row_checks [OF m pr] by (simp add: insert_wager_row_def)
qed

text \<open>The movement of a decision, as the fields of the stored wallet see it.\<close>

lemma decision_moves:
  assumes m: "meets pf en op r w ref d" and dec: "dec w ref now = (dn, w')"
    and dir: "d_direction dn \<noteq> no_direction"
  shows "wallet_valid (pf_known pf) w'" and "w_version w' = wr_version r + 1"
    and "sint (w_version w') = sint (wr_version r) + 1"
    and "sint (minor (w_balance w')) =
      sint (wr_balance r) + signed_amount (d_direction dn) (sint (minor (op_money op)))"
    and "minor (w_balance w') \<noteq> wr_balance r" and "d_before dn = \<lparr>minor = wr_balance r, currency = wr_currency r\<rparr>"
    and "currency (w_balance w') = wr_currency r" and "is_positive (pf_known pf) (op_money op)"
    and "known_direction (d_direction dn)" and "0 < sint (minor (op_money op))"
    and "money_valid (pf_known pf) \<lparr>minor = wr_balance r, currency = wr_currency r\<rparr>"
    and "0 \<le> sint (wr_balance r)" and "1 \<le> sint (wr_version r)"
proof -
  have ext: "external_kind (op_kind op)" using m by (auto simp: meets_def operation_valid_kind)
  have lw: "load_wallet pf r = Inr w" using m by (simp add: meets_def)
  have w: "w_version w = wr_version r" "w_balance w = \<lparr>minor = wr_balance r, currency = wr_currency r\<rparr>"
    "wallet_valid (pf_known pf) w"
    using conjunct1 [OF iffD1 [OF load_wallet_Inr lw]] conjunct2 [OF iffD1 [OF load_wallet_Inr lw]]
    by simp_all
  note mv = dec_movement [OF dec ext dir]
  show "sint (w_version w') = sint (wr_version r) + 1"
    using mv unfolding w(1) by blast
  show "wallet_valid (pf_known pf) w'" and "w_version w' = wr_version r + 1"
    and b: "sint (minor (w_balance w')) =
      sint (wr_balance r) + signed_amount (d_direction dn) (sint (minor (op_money op)))"
    and "currency (w_balance w') = wr_currency r" and pos: "is_positive (pf_known pf) (op_money op)"
    and kd: "known_direction (d_direction dn)"
    using mv w(1,2) by simp_all
  show "d_before dn = \<lparr>minor = wr_balance r, currency = wr_currency r\<rparr>"
    using dec_moves [OF dec ext dir] w(2) by simp
  show amount: "0 < sint (minor (op_money op))" using pos by (simp add: is_positive_sint)
  show "minor (w_balance w') \<noteq> wr_balance r"
    using b amount kd by (auto simp: known_direction_def)
  show "money_valid (pf_known pf) \<lparr>minor = wr_balance r, currency = wr_currency r\<rparr>"
    "0 \<le> sint (wr_balance r)" "1 \<le> sint (wr_version r)"
    using w by (auto simp: wallet_valid_def go_int)
qed

lemma update_wallet_ok:
  assumes m: "meets pf en op r w ref d" and dec: "dec w ref now = (dn, w')"
    and dir: "d_direction dn \<noteq> no_direction"
  shows "update_wallet_row (op_wallet op) (minor (w_balance w')) (w_version w') (pf_stamp pf now)
      (d\<lparr>db_wagers := ws\<rparr>) =
    Inr (d\<lparr>db_wagers := ws, db_wallets := update_where (\<lambda>x. wr_id x = op_wallet op)
           (\<lambda>_. moved_row pf w' now r) (db_wallets d)\<rparr>, [WalletUpdated r (moved_row pf w' now r)])"
proof -
  note mv = decision_moves [OF m dec dir]
  have f: "find_wallet d (op_wallet op) = Some r" using m by (simp add: meets_def)
  have "sint (w_version w') \<le> 2 ^ 63 - 1" using sint64_upper [of "w_version w'"] by simp
  then have "wr_version r \<noteq> max_int64" using mv(3) sint_max_int64 by auto
  then have "protect_wallet_identity r (moved_row pf w' now r) = Inr ()"
    using mv(2,5) by (simp add: protect_wallet_identity_def moved_row_def)
  moreover have "wallet_row_checks (moved_row pf w' now r)"
    using mv(1) by (simp add: wallet_row_checks_def moved_row_def wallet_valid_def)
  ultimately show ?thesis
    using f by (simp add: update_wallet_row_def Let_def moved_row_def)
qed

lemma new_entry_checks:
  assumes m: "meets pf en op r w ref d" and dec: "dec w ref now = (dn, w')"
    and dir: "d_direction dn \<noteq> no_direction"
  shows "ledger_row_checks (movement_entry pf en op tid dn w' now)"
    and "l \<in> set (db_ledger d) \<Longrightarrow> \<not> ledger_clash (movement_entry pf en op (en_tx en) dn w' now) l"
proof -
  note mv = decision_moves [OF m dec dir]
  have b: "0 \<le> sint (minor (w_balance w'))" using mv(1) by (simp add: wallet_valid_def go_int)
  show "ledger_row_checks (movement_entry pf en op tid dn w' now)"
    using mv(3,4,6,9,10,12,13) b
    by (auto simp: ledger_row_checks_def movement_entry_def go_int known_direction_def)
  assume l: "l \<in> set (db_ledger d)"
  have i: "integrity pf d" and f: "find_wallet d (op_wallet op) = Some r" and fe: "fresh_env en d"
    using m by (simp_all add: meets_def)
  have "entry_ok d l" using i l by (simp add: integrity_def list_all_iff)
  then obtain t where "find_wager d (l_transaction l) = Some t"
    by (auto simp: entry_ok_def ledger_transaction_ok_def split: option.splits)
  then have "t \<in> set (db_wagers d)" "t_id t = l_transaction l"
    using i by (simp_all add: integrity_def find_wager_Some)
  then have "l_transaction l \<noteq> en_tx en" using fe by (auto simp: fresh_env_def)
  moreover have "l_id l \<noteq> en_entry en" using fe l by (simp add: fresh_env_def)
  moreover have "l_version l \<noteq> w_version w'" if "l_wallet l = op_wallet op"
    using stored_chain(1) [OF i f] l that mv(3) by (auto simp: entries_def)
  ultimately show "\<not> ledger_clash (movement_entry pf en op (en_tx en) dn w' now) l"
    by (auto simp: ledger_clash_def movement_entry_def)
qed

lemma insert_ledger_ok:
  assumes m: "meets pf en op r w ref d" and dec: "dec w ref (en_now en) = (dn, w')"
    and dir: "d_direction dn \<noteq> no_direction"
    and d1: "find_wallet d1 (op_wallet op) \<noteq> None" "find_wager d1 (en_tx en) \<noteq> None"
      "db_ledger d1 = db_ledger d"
  shows "insert_ledger pf en (op_wallet op) (en_tx en) (d_direction dn) (op_money op) (d_before dn)
      (w_balance w') (w_version w') (en_now en) \<lparr>tx_db = d1, tx_deferred = evs\<rparr> =
    Inr ((), \<lparr>tx_db = d1\<lparr>db_ledger := db_ledger d @ [movement_entry pf en op (en_tx en) dn w' (en_now en)]\<rparr>,
      tx_deferred = evs @ [LedgerInserted (movement_entry pf en op (en_tx en) dn w' (en_now en))]\<rparr>)"
proof -
  let ?l = "movement_entry pf en op (en_tx en) dn w' (en_now en)"
  note mv = decision_moves [OF m dec dir]
  have b: "0 \<le> sint (minor (w_balance w'))" "money_valid (pf_known pf) (w_balance w')"
    using mv(1) by (auto simp: wallet_valid_def go_int)
  have f: "en_entry en \<noteq> 0" "op_wallet op \<noteq> 0" "en_tx en \<noteq> 0" "en_now en \<noteq> 0"
    "wr_currency r = currency (op_money op)"
    using m by (simp_all add: meets_def fresh_env_def operation_valid_def)
  have "new_wallet_ledger_entry (pf_known pf) (en_entry en) (op_wallet op) (en_tx en) (d_direction dn)
      (op_money op) (d_before dn) (w_balance w') (en_now en) =
    Inr \<lparr>le_id = en_entry en, le_wallet = op_wallet op, le_transaction = en_tx en,
         le_direction = d_direction dn, le_money = op_money op, le_before = d_before dn,
         le_after = w_balance w', le_created = en_now en\<rparr>"
    unfolding new_ledger_entry_Inr using mv f b by simp
  moreover have "insert_ledger_row ?l d1 =
      Inr (d1\<lparr>db_ledger := db_ledger d @ [?l]\<rparr>, [LedgerInserted ?l])"
    using new_entry_checks [OF m dec dir] d1
    by (auto simp: insert_ledger_row_def list_ex_iff movement_entry_def)
  ultimately show ?thesis
    by (simp add: insert_ledger_def tx_bind_def tx_lift_def movement_entry_def tx_run_def)
qed

lemma post_movement_ok:
  assumes m: "meets pf en op r w ref d" and dec: "dec w ref (en_now en) = (dn, w')"
    and ws: "find_wager (d\<lparr>db_wagers := ws\<rparr>) (en_tx en) \<noteq> None"
  shows "\<exists>t'. post_movement pf en causation op (en_tx en) dn w' (en_now en)
      \<lparr>tx_db = d\<lparr>db_wagers := ws\<rparr>, tx_deferred = evs\<rparr> = Inr ((), t') \<and>
    (\<forall>e\<in>set (db_outbox (tx_db t')). o_id e \<noteq> en_wager_event en)"
proof (cases "d_direction dn = no_direction")
  case True
  then show ?thesis
    using m by (simp add: post_movement_def tx_return_def meets_def fresh_env_def)
next
  case False
  note mv = decision_moves [OF m dec False]
  let ?d2 = "d\<lparr>db_wagers := ws, db_wallets := update_where (\<lambda>x. wr_id x = op_wallet op)
           (\<lambda>_. moved_row pf w' (en_now en) r) (db_wallets d)\<rparr>"
  let ?l = "movement_entry pf en op (en_tx en) dn w' (en_now en)"
  let ?t = "\<lparr>tx_db = ?d2\<lparr>db_ledger := db_ledger d @ [?l]\<rparr>,
    tx_deferred = evs @ [WalletUpdated r (moved_row pf w' (en_now en) r), LedgerInserted ?l]\<rparr>"
  have f: "find_wallet d (op_wallet op) = Some r" and rid: "wr_id r = op_wallet op"
    using m find_wallet_id by (auto simp: meets_def)
  let ?r' = "moved_row pf w' (en_now en) r"
  have "r \<in> set (db_wallets d)" using f by (auto simp: find_wallet_def dest: find_SomeD)
  then have "?r' \<in> set (update_where (\<lambda>x. wr_id x = op_wallet op) (\<lambda>_. ?r') (db_wallets d))"
    using rid by (auto simp: set_update_where image_iff)
  moreover have "wr_id ?r' = op_wallet op" using rid by (simp add: moved_row_def)
  ultimately have "find_wallet ?d2 (op_wallet op) \<noteq> None"
    by (auto simp: find_wallet_def find_None_iff)
  moreover have "find_wager ?d2 (en_tx en) \<noteq> None" using ws by (simp add: find_wager_def)
  ultimately have led: "insert_ledger pf en (op_wallet op) (en_tx en) (d_direction dn) (op_money op)
      (d_before dn) (w_balance w') (w_version w') (en_now en)
      \<lparr>tx_db = ?d2, tx_deferred = evs @ [WalletUpdated r (moved_row pf w' (en_now en) r)]\<rparr> = Inr ((), ?t)"
    using insert_ledger_ok [OF m dec False, of ?d2] by simp
  have "money_valid (pf_known pf) (d_before dn)" "money_valid (pf_known pf) (w_balance w')"
    "money_valid (pf_known pf) (op_money op)"
    using mv by (auto simp: wallet_valid_def is_positive_sint)
  then obtain e where e: "new_wallet_balance_changed (pf_texts pf) (pf_known pf)
         (en_balance_event en) (en_balance_time en)
         \<lparr>bc_wallet = op_wallet op, bc_transaction = en_tx en, bc_direction = d_direction dn,
          bc_money = op_money op, bc_before = d_before dn, bc_after = w_balance w',
          bc_version = w_version w'\<rparr> causation = Inr e"
    using balance_changed_ok by fastforce
  then have id: "ev_id e = en_balance_event en" by (auto simp: event_facts dest: build_Inr)
  have fresh: "\<forall>x\<in>set (db_outbox d). o_id x \<noteq> en_balance_event en \<and> o_id x \<noteq> en_wager_event en"
    "en_balance_event en \<noteq> en_wager_event en"
    using m by (simp_all add: meets_def fresh_env_def)
  show ?thesis
    using False update_wallet_ok [OF m dec False, of ws] led e id fresh
    by (simp add: post_movement_def tx_bind_def tx_run_def tx_lift_def add_balance_event_def
        add_event_def insert_outbox_row_def list_ex_iff)
qed

lemma add_wager_event_ok:
  assumes "\<forall>e\<in>set (db_outbox (tx_db t)). o_id e \<noteq> en_wager_event en" and "proper dn"
  shows "\<exists>t'. add_wager_event pf en causation wid tid provider k (d_status dn) fl t = Inr ((), t')"
  using assms
  by (auto simp: proper_def terminal_def add_wager_event_def Let_def event_facts build_def tx_bind_def
      tx_lift_def tx_run_def tx_return_def add_event_def insert_outbox_row_def list_ex_iff)

lemma execute_new_ok:
  assumes m: "meets pf en op r w ref d" and dec: "dec w ref (en_now en) = (dn, w')" and pr: "proper dn"
    and "length hash = 64"
  shows "\<exists>res t'. execute_new pf en causation op hash dec w ref \<lparr>tx_db = d, tx_deferred = []\<rparr> = Inr (res, t')"
proof -
  have v: "operation_valid (pf_known pf) op" and fe: "en_tx en \<noteq> 0" "en_now en \<noteq> 0"
    and lw: "load_wallet pf r = Inr w" and keys: "keys_ok d"
    using m by (simp_all add: meets_def fresh_env_def integrity_def)
  have ext: "external_kind (op_kind op)" using operation_valid_kind [OF v] .
  note lw' = iffD1 [OF load_wallet_Inr lw]
  have w: "wallet_valid (pf_known pf) w" "currency (w_balance w) = currency (op_money op)"
    using conjunct1 [OF lw'] conjunct2 [OF lw'] m by (simp_all add: meets_def)
  have "currency (w_balance w') = currency (op_money op)"
    using dec_still [OF dec ext] dec_movement [OF dec ext] w(2) by (cases "d_direction dn = no_direction") auto
  then obtain nxt where nxt: "wager_transition (pf_known pf)
      ((operation_data op hash (en_tx en) (en_now en))\<lparr>wd_status := Pending, wd_failure := [],
         wd_ref_id := 0, wd_result := no_money, wd_updated := en_now en\<rparr>)
      (d_status dn) (d_failure dn) (w_balance w') (d_reference dn) (en_now en) = Inr nxt"
    using transition_of_decision(1) [OF v assms(4) fe pr] dec_balance_valid [OF dec ext w(1)] by blast
  let ?row = "operation_row pf en op hash (en_tx en) dn w' (en_now en)"
  have "t_id ?row = en_tx en" by (simp add: operation_row_def)
  then have "find_wager (d\<lparr>db_wagers := db_wagers d @ [?row]\<rparr>) (en_tx en) \<noteq> None"
    unfolding find_wager_def find_None_iff by simp blast
  note post = post_movement_ok [OF m dec this, of causation "[]"]
  obtain t1 where
    t1: "post_movement pf en causation op (en_tx en) dn w' (en_now en)
        \<lparr>tx_db = d\<lparr>db_wagers := db_wagers d @ [?row]\<rparr>, tx_deferred = []\<rparr> = Inr ((), t1)"
      "\<forall>e\<in>set (db_outbox (tx_db t1)). o_id e \<noteq> en_wager_event en"
    using post by (elim exE conjE)
  from add_wager_event_ok [OF t1(2) pr] obtain t2 where
    t2: "add_wager_event pf en causation (op_wallet op) (en_tx en) (op_provider op) (op_kind op)
      (d_status dn) (d_failure dn) t1 = Inr ((), t2)" by blast
  show ?thesis
    using dec nxt t1(1) t2 insert_row_ok [OF m dec pr, of hash]
      new_wager_ok [OF v assms(4) fe]
    by (simp add: execute_new_def Let_def tx_bind_def tx_lift_def tx_run_def tx_classify_def tx_return_def)
qed

text \<open>The constraint triggers accept what a call leaves.\<close>

lemma appended_entry_ok:
  assumes i: "integrity pf d" and f: "find_wallet d (l_wallet l) = Some r" and keys: "keys_ok d'"
    and led: "db_ledger d' = db_ledger d @ [l]"
    and r': "r' \<in> set (db_wallets d')" "wr_id r' = l_wallet l" "wr_version r' = l_version l"
      "wr_balance r' = l_after l"
    and l: "l_version l \<noteq> 1" "l_version l = wr_version r + 1" "l_before l = wr_balance r"
  shows "ledger_insert_ok d' l"
proof -
  have w1: "list_ex (\<lambda>x. wr_id x = l_wallet l \<and> wr_version x = l_version l \<and> wr_balance x = l_after l)
      (db_wallets d')"
    using r' by (auto simp: list_ex_iff intro!: bexI [of _ r'])
  have v: "l_version l - 1 = wr_version r" using l(2) by simp
  show ?thesis
  proof (cases "entries d (l_wallet l) = []")
    case True
    with stored_chain(2) [OF i f] have e: "wr_balance r = 0" "wr_version r = 1" by simp_all
    have "find_entry d' (l_wallet l) (wr_version r) = None"
      using True led l(2) by (auto simp: find_entry_def find_None_iff entries_def filter_empty_conv)
    with w1 v l e show ?thesis by (simp add: ledger_insert_ok_def)
  next
    case False
    with stored_chain(3) [OF i f] obtain q where q: "q \<in> set (entries d (l_wallet l))"
      "l_version q = wr_version r" "l_after q = wr_balance r" by blast
    then have "find_entry d' (l_wallet l) (wr_version r) = Some q"
      using find_entry_unique [OF keys, of q] led by (auto simp: entries_def)
    with w1 v l q(3) show ?thesis by (simp add: ledger_insert_ok_def)
  qed
qed

lemma commit_ok:
  assumes p: "platform_ok pf" and m: "meets pf en op r w ref d"
    and ex: "execute_new pf en causation op hash dec w ref \<lparr>tx_db = d, tx_deferred = []\<rparr> = Inr (res, t')"
  shows "list_all (deferred_ok (tx_db t')) (tx_deferred t')"
proof -
  have i: "integrity pf d" and f: "find_wallet d (op_wallet op) = Some r" and lw: "load_wallet pf r = Inr w"
    using m by (simp_all add: meets_def)
  obtain dn w' os where dec: "dec w ref (en_now en) = (dn, w')" and i': "integrity pf (tx_db t')"
    and d': "tx_db t' = emit (posted_db pf en op
        (db_wagers d @ [operation_row pf en op hash (en_tx en) dn w' (en_now en)])
        (en_tx en) dn w' (en_now en) r d) os"
    and df: "d_direction dn = no_direction \<longrightarrow> tx_deferred t' = []"
      "d_direction dn \<noteq> no_direction \<longrightarrow> tx_deferred t' =
         [WalletUpdated r (moved_row pf w' (en_now en) r),
          LedgerInserted (movement_entry pf en op (en_tx en) dn w' (en_now en))]"
    by (rule call_executed [OF p _ _ lw _ ex]) (use i f meets_reference [OF m] in auto)
  show ?thesis
  proof (cases "d_direction dn = no_direction")
    case True
    with df show ?thesis by simp
  next
    case False
    let ?l = "movement_entry pf en op (en_tx en) dn w' (en_now en)"
    let ?r' = "moved_row pf w' (en_now en) r"
    note mv = decision_moves [OF m dec False]
    have led: "db_ledger (tx_db t') = db_ledger d @ [?l]"
      and wal: "db_wallets (tx_db t') = update_where (\<lambda>x. wr_id x = wr_id ?r') (\<lambda>_. ?r') (db_wallets d)"
      using False d' by (simp_all add: posted_db_def move_wallet_def)
    have rid: "wr_id r = op_wallet op" using f by (rule find_wallet_id)
    have keys: "keys_ok (tx_db t')" using i' by (simp add: integrity_def)
    have l: "l_wallet ?l = op_wallet op" "l_version ?l = w_version w'" "l_after ?l = minor (w_balance w')"
      "l_before ?l = wr_balance r" "?l \<in> set (db_ledger (tx_db t'))"
      using mv(6) led by (simp_all add: movement_entry_def)
    have "wallet_update_ok (tx_db t') r ?r'"
      using find_entry_unique [OF keys l(5)] l rid by (simp add: wallet_update_ok_def moved_row_def)
    moreover have "ledger_transaction_ok (tx_db t') ?l"
      using i' l(5) by (simp add: integrity_def list_all_iff entry_ok_def)
    moreover have "ledger_insert_ok (tx_db t') ?l"
    proof (rule appended_entry_ok [OF i _ keys led, of r ?r'])
      have "r \<in> set (db_wallets d)" using f by (auto simp: find_wallet_def dest: find_SomeD)
      then show "?r' \<in> set (db_wallets (tx_db t'))"
        using wal by (auto simp: set_update_where image_iff moved_row_def)
      have "sint (l_version ?l) \<noteq> 1" using mv(3,13) l(2) by simp
      then show "l_version ?l \<noteq> 1" by auto
    qed (use f l rid mv(2) in \<open>simp_all add: moved_row_def\<close>)
    ultimately show ?thesis using df False by simp
  qed
qed

lemma execute_new_mismatch:
  assumes v: "operation_valid (pf_known pf) op" and "length hash = 64"
    and fe: "en_tx en \<noteq> 0" "en_now en \<noteq> 0"
    and lw: "load_wallet pf r = Inr w" and c: "wr_currency r \<noteq> currency (op_money op)"
    and dec: "dec w ref (en_now en) = (dn, w')" and pr: "proper dn"
  shows "execute_new pf en causation op hash dec w ref t = Inl ErrInvalidTransaction"
proof -
  have ext: "external_kind (op_kind op)" using operation_valid_kind [OF v] .
  note lw' = iffD1 [OF load_wallet_Inr lw]
  have w: "wallet_valid (pf_known pf) w" "currency (w_balance w) \<noteq> currency (op_money op)"
    using conjunct1 [OF lw'] conjunct2 [OF lw'] c by simp_all
  then have "d_direction dn = no_direction" using dec_movement [OF dec ext] by metis
  then have "w' = w" using dec_still [OF dec ext] by blast
  with transition_of_decision(2) [OF v assms(2) fe pr w] new_wager_ok [OF v assms(2) fe] dec
  show ?thesis by (simp add: execute_new_def Let_def tx_bind_def tx_lift_def)
qed

end

section \<open>The errors of processing a request\<close>

text \<open>
  What processing a request answers, as a function of the request, the database and the row the
  database happens to pick: the error, or \<open>None\<close> for a result.
\<close>

definition processing_error :: "platform \<Rightarrow> env \<Rightarrow> operation \<Rightarrow> string \<Rightarrow> db \<Rightarrow> err option" where
  "processing_error pf en op hash d =
     (if \<not> operation_valid (pf_known pf) op then Some ErrInvalidInput
      else case find_wallet d (op_wallet op) of
        None \<Rightarrow> Some ErrNotFound
      | Some r \<Rightarrow>
          (case pick_row (en_pick en) (existing_rows d op) of
             Some row \<Rightarrow>
               if t_hash row = Some hash \<and> t_key row = Some (op_key op) then None else Some ErrConflict
           | None \<Rightarrow>
               if wr_currency r = currency (op_money op) then None else Some ErrInvalidTransaction))"

lemma replay_outcome:
  assumes i: "integrity pf d" and row: "pick_row n (existing_rows d op) = Some row"
  shows "if t_hash row = Some hash \<and> t_key row = Some (op_key op)
    then \<exists>res. replay_result pf op hash cur row = Inr res \<and> r_replay res
    else replay_result pf op hash cur row = Inl ErrConflict"
proof -
  have t: "row \<in> set (db_wagers d)" "t_provider row = Some (op_provider op)"
    using pick_row_Some [OF row] by (auto simp: existing_rows_def)
  have "wager_row_checks row" "t_result row \<noteq> None"
    using integrity_wager [OF i t(1)] by (simp_all add: wager_ok_def)
  then obtain h k b where "t_hash row = Some h" "t_key row = Some k" "t_result row = Some b"
    using t(2) by (auto simp: wager_row_checks_def identity_columns_def)
  then show ?thesis by (simp add: replay_result_def)
qed

lemma execute_outcome:
  assumes p: "platform_ok pf" and i: "integrity pf d" and fe: "fresh_env en d"
    and v: "operation_valid (pf_known pf) op" and h: "length hash = 64"
  shows "case processing_error pf en op hash d of
      Some e \<Rightarrow> execute pf en op hash (decide (pf_known pf) op) d = (Inl e, d)
    | None \<Rightarrow> \<exists>res d'. execute pf en op hash (decide (pf_known pf) op) d = (Inr res, d') \<and>
        (r_replay res \<longleftrightarrow> existing_rows d op \<noteq> [])"
proof (cases "find_wallet d (op_wallet op)")
  case None
  then show ?thesis
    by (simp add: processing_error_def v execute_def execute_tx_def with_tx_def tx_bind_def tx_get_def
        tx_lift_def query_wallet_def)
next
  case r: (Some r)
  then have "wallet_ok pf r" using i by (auto simp: integrity_def list_all_iff find_wallet_Some)
  then obtain w where w: "load_wallet pf r = Inr w" by (auto simp: wallet_ok_iff)
  have query: "query_wallet pf (op_wallet op) d = Inr w" using r w by (simp add: query_wallet_def)
  show ?thesis
  proof (cases "pick_row (en_pick en) (existing_rows d op)")
    case (Some row)
    with replay_outcome [OF i Some, of hash "currency (w_balance w)"] r query pick_row_None [of "en_pick en" "existing_rows d op"]
    show ?thesis
      by (auto simp: processing_error_def v execute_def execute_tx_def with_tx_def tx_bind_def tx_get_def
          tx_lift_def split: if_splits)
  next
    case None
    then have ex: "existing_rows d op = []" by (simp add: pick_row_None)
    obtain ref where ref: "(if op_reference op \<noteq> []
        then load_reference pf (op_provider op) (op_reference op) d else Inr None) = Inr ref"
      using load_reference_total [OF i] by (cases "op_reference op = []") auto
    obtain dn w' where dec: "decide (pf_known pf) op w ref (en_now en) = (dn, w')" by fastforce
    note pr = decide_proper [OF dec]
    have tx: "execute_tx pf en [] op hash (decide (pf_known pf) op) \<lparr>tx_db = d, tx_deferred = []\<rparr> =
        execute_new pf en [] op hash (decide (pf_known pf) op) w ref \<lparr>tx_db = d, tx_deferred = []\<rparr>"
      using ref None query
      by (auto simp: execute_tx_def tx_bind_def tx_get_def tx_lift_def split: if_splits)
    show ?thesis
    proof (cases "wr_currency r = currency (op_money op)")
      case True
      then have m: "meets pf en op r w ref d" using i fe v r w ex ref by (simp add: meets_def)
      from dsc.execute_new_ok [OF m dec pr h] obtain res t' where
        new: "execute_new pf en [] op hash (decide (pf_known pf) op) w ref \<lparr>tx_db = d, tx_deferred = []\<rparr> =
          Inr (res, t')" by blast
      have "\<not> r_replay res"
        using new by (auto simp: execute_new_def tx_bind_Inr tx_return_Inr Let_def split: prod.splits if_splits)
      with dsc.commit_ok [OF p m new] new tx True r None v ex show ?thesis
        by (simp add: processing_error_def execute_def with_tx_def)
    next
      case False
      have "en_tx en \<noteq> 0" "en_now en \<noteq> 0" using fe by (simp_all add: fresh_env_def)
      from dsc.execute_new_mismatch [OF v h this w False dec pr] tx False r None v show ?thesis
        by (simp add: processing_error_def execute_def with_tx_def)
    qed
  qed
qed

lemma process_answers:
  fixes x :: texts and op :: operation
  assumes "platform_ok pf" and "integrity pf d" and "fresh_env en d"
  shows "case processing_error pf en op (operation_hash x (pf_known pf) op) d of
      Some e \<Rightarrow> wager_process x (pf_known pf) (execute pf en) (execute_inbox pf en) op None d = (Inl e, d)
    | None \<Rightarrow> \<exists>res d'. wager_process x (pf_known pf) (execute pf en) (execute_inbox pf en) op None d =
        (Inr res, d') \<and> (r_replay res \<longleftrightarrow> existing_rows d op \<noteq> [])"
proof (cases "operation_valid (pf_known pf) op")
  case True
  then have "length (operation_hash x (pf_known pf) op) = 64" by (simp add: length_operation_hash)
  from execute_outcome [OF assms True this] True show ?thesis
    by (auto simp: wager_process_eq split: option.splits)
next
  case False
  then show ?thesis by (simp add: wager_process_eq processing_error_def)
qed


lemma sample_fresh: "fresh_env (sample_env 200 2000) opened_db"
proof -
  have "\<forall>e\<in>set (db_outbox opened_db). o_id e \<in> {101, 100}"
    using arg_cong [OF opened_db_tables(5), of set] by auto
  then show ?thesis by (auto simp: fresh_env_def sample_env_def opened_db_tables)
qed


end
