(* ===== verification/Process.thy ===== *)
theory Process
  imports Serving Publisher Progress
begin

text \<open>
  The whole process: requests, messages, rounds of the publisher and of the resolver over one
  database, in any order; and what a provider's request is answered.
\<close>

section \<open>What every part does to the store\<close>

text \<open>
  Each part of the process is a client of the store: whatever relation the calls of the store keep
  between the state before and after, the part keeps it too.
\<close>

locale store_relation =
  fixes rel :: "'s \<Rightarrow> 's \<Rightarrow> bool"
  assumes rel_refl: "rel s s"
    and rel_trans: "rel s s' \<Longrightarrow> rel s' s'' \<Longrightarrow> rel s s''"

locale consumer_store = store_relation rel
  for rel :: "'s \<Rightarrow> 's \<Rightarrow> bool" +
  fixes inbox :: "'e \<Rightarrow> inbox_message \<Rightarrow> operation \<Rightarrow> 's \<Rightarrow> (err + result) \<times> 's"
    and fail :: "'e \<Rightarrow> operation \<Rightarrow> string \<Rightarrow> 's \<Rightarrow> (err + result) \<times> 's"
  assumes rel_inbox: "rel s (snd (inbox e m p s))"
    and rel_fail: "rel s (snd (fail e p f s))"
begin

lemma handle_rel: "rel (ws_store w) (ws_store (snd (handle y known (processor_at inbox fail e e') m w)))"
  using rel_inbox [of "ws_store w" e]
  by (auto simp: handle_def processor_at_def on_store_def Let_def rel_refl
      split: option.split prod.split sum.split) (metis snd_conv)+

lemma failure_rel:
  "rel (ws_store w) (ws_store (snd (record_permanent_failure y known (processor_at inbox fail e e') m w)))"
  using rel_fail [of "ws_store w" e']
  by (auto simp: record_permanent_failure_def processor_at_def on_store_def rel_refl
      split: option.split prod.split) (metis snd_conv)

lemma consume_rel:
  "rel (ws_store w) (ws_store (snd (consume y known cl (processor_at inbox fail e e') mo m w)))"
proof -
  obtain res w1 where h: "handle y known (processor_at inbox fail e e') m w = (res, w1)" by fastforce
  obtain fr w2 where f: "record_permanent_failure y known (processor_at inbox fail e e') m w1 = (fr, w2)"
    by fastforce
  have r: "rel (ws_store w) (ws_store w1)" "rel (ws_store w) (ws_store w2)"
    using handle_rel [of w y known e e' m] failure_rel [of w1 y known e e' m] h f rel_trans by auto
  show ?thesis
    using h f r
    by (auto simp: consume_def to_dead_letters_calls(2) retry_later_def queue_calls
        split: option.split sum.split)
qed

end

locale publisher_store = store_relation rel
  for rel :: "'s \<Rightarrow> 's \<Rightarrow> bool" +
  fixes claim :: "'e \<Rightarrow> int \<Rightarrow> 's \<Rightarrow> (err + outbox_event list) \<times> 's"
    and retry :: "'e \<Rightarrow> uuid \<Rightarrow> int64 \<Rightarrow> 's \<Rightarrow> (err + unit) \<times> 's"
    and mark :: "'e \<Rightarrow> uuid \<Rightarrow> 's \<Rightarrow> (err + unit) \<times> 's"
  assumes rel_claim: "rel s (snd (claim e n s))"
    and rel_retry: "rel s (snd (retry e i delay s))"
    and rel_mark: "rel s (snd (mark e i s))"
begin

lemma publish_events_rel:
  assumes "\<And>k. \<exists>e. em_store (at k) = outbox_at claim retry mark e"
  shows "rel (ws_store w) (ws_store (snd (publish_events x cl at n evs w)))"
proof (induction evs arbitrary: n w)
  case Nil
  then show ?case by (simp add: rel_refl)
next
  case (Cons ev evs)
  obtain e where e: "em_store (at n) = outbox_at claim retry mark e" using assms by blast
  obtain sent w1 where s1: "on_queue (publish_event cl (uuid_text x (oe_id ev)) (uuid_text x (oe_aggregate ev))
      (oe_payload ev)) w = (sent, w1)" by fastforce
  then have w1: "ws_store w1 = ws_store w" by (auto simp: on_queue_def split: prod.splits)
  let ?w1 = "count_metric ''apostas_outbox_retries_total'' w1"
  obtain r w2 where r: "on_store (os_retry (em_store (at n)) (oe_id ev)
        (queue_retry_delay (word_of_int (oe_attempts ev) + 1))) ?w1 = (r, w2)" by fastforce
  obtain q w3 where q: "on_store (os_mark (em_store (at n)) (oe_id ev)) w1 = (q, w3)" by fastforce
  have "rel (ws_store w) (ws_store w2)" "rel (ws_store w) (ws_store w3)"
    using r q w1 rel_retry [of "ws_store w" e] rel_mark [of "ws_store w" e]
    by (auto simp: on_store_eq e outbox_at_def) (metis snd_conv)+
  then have "rel (ws_store w) (ws_store (snd (publish_events x cl at (Suc n) evs v)))"
    if "ws_store v = ws_store w2 \<or> ws_store v = ws_store w3" for v
    using Cons.IH [where w = v and n = "Suc n"] that rel_trans by metis
  with s1 r q \<open>rel (ws_store w) (ws_store w2)\<close> \<open>rel (ws_store w) (ws_store w3)\<close> w1 show ?case
    by (auto simp: rel_refl split: option.split sum.split)
qed

lemma publish_rel:
  assumes "\<And>k. \<exists>e. em_store (at k) = outbox_at claim retry mark e"
  shows "rel (ws_store w) (ws_store (snd (publish x cl (outbox_at claim retry mark e) at w)))"
proof -
  obtain r w1 where c: "on_store (os_claim (outbox_at claim retry mark e) 20) w = (r, w1)" by fastforce
  then have "rel (ws_store w) (ws_store w1)"
    using rel_claim [of "ws_store w" e 20] by (auto simp: on_store_eq outbox_at_def)
  with c publish_events_rel [OF assms, of w1] rel_trans show ?thesis
    by (auto simp: publish_def split: sum.split)
qed

end

locale server_store = store_relation rel
  for rel :: "'s \<Rightarrow> 's \<Rightarrow> bool" +
  fixes sv :: "'e \<Rightarrow> 's services" and ready :: "'e \<Rightarrow> bool"
  assumes rel_open: "ready e \<Longrightarrow> rel s (snd (sv_open (sv e) player balance s))"
    and rel_process: "rel s (snd (sv_process (sv e) p s))"
begin

lemma route_rel:
  assumes "ready e"
  shows "rel (ws_store w) (ws_store (snd (run_route sf (sv e) caller rq w rt)))"
proof (cases rt)
  case OpenWallet
  have "rel (ws_store w) s'" if "sv_open (sv e) player balance (ws_store w) = (a, s')" for player balance a s'
    using rel_open [OF assms, of "ws_store w" player balance] that by simp
  then show ?thesis
    by (auto simp: OpenWallet handle_open_wallet_def on_store_def rel_refl
        split: option.split sum.split prod.split)
next
  case ProcessWager
  have "rel (ws_store w) s'" if "sv_process (sv e) p (ws_store w) = (a, s')" for p a s'
    using rel_process [of "ws_store w" e p] that by simp
  then show ?thesis
    by (auto simp: ProcessWager handle_process_wager_def on_store_def Let_def rel_refl
        split: option.split sum.split prod.split)
qed (auto simp: handle_metrics_def handle_get_wallet_def handle_get_ledger_def handle_reconcile_def
    handle_ready_def handle_get_transaction_def handle_get_provider_transaction_def on_queue_def rel_refl
    split: option.split sum.split prod.split)

lemma serve_rel:
  assumes "ready e"
  shows "rel (ws_store w) (ws_store (snd (serve cf fetch verify sf (sv e) rq w)))"
  using route_rel [OF assms]
  by (auto simp: serve_def auth_middleware_def serve_route_def rel_refl split: sum.split option.split)

end

section \<open>The parts over the PostgreSQL store\<close>

lemma runs_process:
  "runs pf d (snd (wager_process x (pf_known pf) (execute pf en) (execute_inbox pf en) p inbox d))"
  by (cases inbox) (simp_all add: wager_process_eq runs_step store_step.process store_step.process_inbox)

lemma runs_fail: "runs pf d (snd (wager_fail x (pf_known pf) (execute pf en) p f d))"
  by (auto simp: wager_fail_def runs_step store_step.fail split: sum.split)

lemma runs_open:
  assumes "0 < pf_stamp pf (en_now en)"
  shows "runs pf d (snd (wallets_open (pf_known pf) (create_wallet pf en) wid (en_now en) player balance d))"
proof (cases "new_wallet (pf_known pf) wid player balance (en_now en)")
  case (Inr v)
  from runs_step [OF store_step.open_wallet [OF this assms]] Inr show ?thesis
    by (auto simp: wallets_open_def split: sum.split prod.split) (metis snd_conv)+
qed (simp add: wallets_open_def)

interpretation prt: consumer_store "runs pf" "pg_inbox x pf" "pg_fail x pf" for x pf
  by unfold_locales (auto simp: pg_inbox_def pg_fail_def runs_process runs_fail intro: runs_trans)

interpretation ppb: publisher_store "runs pf" claim_outbox retry_outbox mark_outbox_published for pf
  by unfold_locales (auto intro: runs_step store_step.claim store_step.retry store_step.mark)

interpretation psv: server_store "runs pf" "pg_services x pf" "\<lambda>e. 0 < pf_stamp pf (en_now (fst e))" for x pf
  by unfold_locales (auto simp: pg_services_def runs_process runs_open split: prod.split)

text \<open>
  A step of the process, whatever surrounds it: the clocks and identifiers, the tokens and keys, the
  answers of the queues. A step is a request, the handling of a message, a round of the publisher or
  of the resolver. The parts share the database only through its transactions, so what interleaves
  inside a step is again a sequence of calls of the store.
\<close>

inductive process_step :: "texts \<Rightarrow> platform \<Rightarrow> db world \<Rightarrow> db world \<Rightarrow> bool" for x pf where
  request: "0 < pf_stamp pf (en_now en) \<Longrightarrow>
    process_step x pf w (snd (serve cf fetch verify sf (pg_services x pf (en, wid, ping)) rq w))"
| message: "process_step x pf w
    (snd (consume y (pf_known pf) cl (processor_at (pg_inbox x pf) (pg_fail x pf) en en') mo m w))"
| publication: "(\<And>k. \<exists>en. em_store (at k) = pg_outbox en) \<Longrightarrow>
    process_step x pf w (snd (publish x cl (pg_outbox en) at w))"
| resolution: "process_step x pf w (snd (on_store (resolve_pending_reference pf en) w))"

lemma step_runs: "process_step x pf w w' \<Longrightarrow> runs pf (ws_store w) (ws_store w')"
proof (induction rule: process_step.induct)
  case (request en w cf fetch verify sf wid ping rq)
  then show ?case using psv.serve_rel [of pf "(en, wid, ping)"] by simp
next
  case message
  then show ?case by (rule prt.consume_rel)
next
  case publication
  then show ?case by (rule ppb.publish_rel)
next
  case (resolution w en)
  show ?case
    using runs_step [OF store_step.resolve] by (auto simp: on_store_def split: prod.split) (metis snd_conv)
qed

lemma process_runs: "(process_step x pf)\<^sup>*\<^sup>* w w' \<Longrightarrow> runs pf (ws_store w) (ws_store w')"
  by (induction rule: rtranclp_induct) (auto intro: runs_trans step_runs)

text \<open>
  C1: However the parts of the process take turns, from an empty database on, the books are right:
  every wallet's balance is never negative and is the sum of its ledger. And they stay as they were
  written: whatever runs later, the ledger only grows, and a transaction once settled is never
  changed or lost.
\<close>

theorem process_keeps_books:
  assumes "platform_ok pf" and "ws_store w0 = empty_db"
    and "(process_step x pf)\<^sup>*\<^sup>* w0 w1" and "(process_step x pf)\<^sup>*\<^sup>* w1 w2"
  shows "(\<forall>r\<in>set (db_wallets (ws_store w2)). 0 \<le> sint (wr_balance r) \<and>
      sint (wr_balance r) = ledger_sum (entries (ws_store w2) (wr_id r))) \<and>
    (\<exists>ls. db_ledger (ws_store w2) = db_ledger (ws_store w1) @ ls) \<and>
    (\<forall>t\<in>set (db_wagers (ws_store w1)). terminal (t_status t) \<longrightarrow> t \<in> set (db_wagers (ws_store w2)))"
proof -
  have "reachable pf (ws_store w1)"
    using runs_reachable [OF reachable.start] process_runs [OF assms(3)] assms(2) by simp
  then have i1: "integrity pf (ws_store w1)" by (rule reachable_ok [OF assms(1)])
  note r = runs_integrity [OF assms(1) i1 process_runs [OF assms(4)]]
  then have i2: "integrity pf (ws_store w2)" and h: "history (ws_store w1) (ws_store w2)" by simp_all
  have "t \<in> set (db_wagers (ws_store w2))"
    if "t \<in> set (db_wagers (ws_store w1))" "terminal (t_status t)" for t
    using h that by (auto simp: history_def same_wager_def)
  with h wallet_sum [OF i2] wallet_facts [OF i2] show ?thesis by (auto simp: history_def)
qed

section \<open>What a provider's request is answered\<close>

text \<open>The status \<^verbatim>\<open>writeUsecaseError\<close> gives an error.\<close>

definition error_status :: "err \<Rightarrow> nat" where
  "error_status e =
     (if e = ErrInvalidInput \<or> e = ErrInvalidWallet \<or> e = ErrInvalidMoney then 400
      else if e = ErrConflict then 409 else if e = ErrNotFound then 404 else 503)"

definition result_status :: "status \<Rightarrow> nat" where
  "result_status st = (if st = Rejected then 422 else if st = PendingReference then 202 else 200)"

lemma usecase_error_status: "rs_status (fst (write_usecase_error e w)) = error_status e"
  by (simp add: write_usecase_error_def error_status_def write_error_def write_json_def)

text \<open>A submitted operation of the caller, by what the service says of it.\<close>

lemma handled_wager:
  assumes "decode_body (operation_fields (sf_parsers sf) (sf_known sf)) zero_operation (rq_body rq) = Some q"
    and "c = op_provider q" and "c \<noteq> wallet_service"
    and "sv_process sv (q\<lparr>op_key := trim_space (rq_key rq)\<rparr>) (ws_store w) = (r, d)"
    and "handle_process_wager sf sv (Some c) rq w = (rs, w')"
  shows "ws_store w' = d \<and>
    (case r of Inl e \<Rightarrow> rs_status rs = error_status e
     | Inr res \<Rightarrow> rs = write_json (result_status (r_status res)) (result_json (sf_texts sf) (sf_known sf) res))"
proof (cases r)
  case (Inl e)
  with assms have "write_usecase_error e (w\<lparr>ws_store := d\<rparr>) = (rs, w')"
    by (simp add: handle_process_wager_def on_store_def)
  with Inl usecase_error_status [of e "w\<lparr>ws_store := d\<rparr>"] write_usecase_error_store [of e "w\<lparr>ws_store := d\<rparr>"]
  show ?thesis by simp
next
  case (Inr res)
  with assms show ?thesis
    by (auto simp: handle_process_wager_def on_store_def Let_def result_status_def)
qed


subsection \<open>Examples\<close>

text \<open>The wallet service opens a wallet; then a bet of the provider is posted.\<close>

definition sample_open_body :: string where
  "sample_open_body = json_text (JObj [(''playerId'', JStr ''20''),
     (''initialBalance'', JObj [(''amount'', JStr ''1.00''), (''currency'', JStr ''BRL'')])])"

definition sample_open_request :: http_request where
  "sample_open_request = \<lparr>rq_method = ''POST'', rq_path = ''/wallets'', rq_segments = [''wallets''],
     rq_authorization = ''Bearer adm'', rq_key = [], rq_limit = [], rq_cursor = [], rq_body = sample_open_body\<rparr>"

definition sample_wager_request :: http_request where
  "sample_wager_request = \<lparr>rq_method = ''POST'', rq_path = ''/wagering/transactions'',
     rq_segments = [''wagering'', ''transactions''], rq_authorization = ''Bearer tok'', rq_key = ''k1'',
     rq_limit = [], rq_cursor = [],
     rq_body = json_text (JObj (operation_json sample_texts sample_bet ''0.80''))\<rparr>"

definition empty_world :: "db world" where
  "empty_world = \<lparr>ws_calls = [], ws_store = empty_db, ws_metrics = initial_registry\<rparr>"

abbreviation (input) sample_serve :: "env \<Rightarrow> http_request \<Rightarrow> db world \<Rightarrow> http_response \<times> db world" where
  "sample_serve en \<equiv> serve sample_config sample_fetch sample_verify sample_surface
     (pg_services sample_texts sample_platform (en, 10, None))"

lemma sample_one: "parse_money brl_only ''1.00'' ''BRL'' = Inr (brl 100)"
proof -
  have digits: "char_of (48 :: nat) = CHR ''0''" "char_of (49 :: nat) = CHR ''1''" by code_simp+
  have "money_amount brl_only (brl 100) = Inr ''1.00''"
    by (simp add: digits money_amount_def brl_def money_valid_def valid_currency_def
        currency_pattern_def is_upper_letter_def brl_only_def fmt_d_def fmt_02d_def go_quot_def
        go_rem_def go_int digit_char_def digits_of.simps)
  from money_json_parse [OF _ _ this] show ?thesis by simp
qed

lemma sample_open_decoded:
  "decode_body (open_fields sample_parsers brl_only) (uuid_nil, no_money) sample_open_body = Some (20, brl 100)"
proof -
  have "utf8_valid ''playerId''" "utf8_valid ''initialBalance''" "utf8_valid ''amount''"
    "utf8_valid ''currency''" "utf8_valid ''20''" "utf8_valid ''1.00''" "utf8_valid ''BRL''"
    by (rule ascii_valid, simp add: code_def)+
  then have "json_ok max_nesting (JObj [(''playerId'', JStr ''20''),
     (''initialBalance'', JObj [(''amount'', JStr ''1.00''), (''currency'', JStr ''BRL'')])])"
    by (simp add: max_nesting_def)
  from parse_document_text [OF this] have doc: "parse_document sample_open_body = Some (JObj [(''playerId'', JStr ''20''),
     (''initialBalance'', JObj [(''amount'', JStr ''1.00''), (''currency'', JStr ''BRL'')])])"
    by (simp add: sample_open_body_def del: json_text.simps)
  have "length sample_open_body < 200" unfolding sample_open_body_def by code_simp
  then have len: "length sample_open_body \<le> max_body" by (simp add: max_body_def)
  have "uuid_parse sample_parsers ''20'' = Some 20"
    by (simp add: sample_parsers_def is_digit_def dec_value_def digit_val_def)
  then show ?thesis
    using len doc
    by (simp add: decode_body_def decode_struct_def open_fields_def find_field_def set_text_def
        set_custom_def money_of_json_fields sample_one)
qed

lemma sample_wager_decoded:
  "decode_body (operation_fields sample_parsers brl_only) zero_operation (rq_body sample_wager_request) =
   Some (sample_bet\<lparr>op_key := []\<rparr>)"
proof -
  have digits: "char_of (48 :: nat) = CHR ''0''" "char_of (56 :: nat) = CHR ''8''" by code_simp+
  have a: "money_amount brl_only (op_money sample_bet) = Inr ''0.80''"
    by (simp add: digits money_amount_def sample_bet_def money_valid_def valid_currency_def
        currency_pattern_def is_upper_letter_def brl_only_def fmt_d_def fmt_02d_def go_quot_def
        go_rem_def go_int digit_char_def digits_of.simps)
  have f: "payload_fields_valid sample_bet" "utf8_valid (op_key sample_bet)" "utf8_valid ''m1''"
    by (simp_all add: payload_fields_valid_def sample_bet_def code_def ascii_valid)
  note r = operation_json_read [OF sample_parses_uuids sample_bet_valid f a]
  have "length (json_text (JObj (operation_json sample_texts sample_bet ''0.80''))) < 400" by code_simp
  then have "length (json_text (JObj (operation_json sample_texts sample_bet ''0.80''))) \<le> max_body"
    by (simp add: max_body_def)
  with r(1) r(4) [of True] show ?thesis
    by (simp add: decode_body_def decode_struct_def sample_wager_request_def del: json_text.simps)
qed

lemma sample_wager_operation: "sample_bet\<lparr>op_key := trim_space (rq_key sample_wager_request)\<rparr> = sample_bet"
proof -
  have "trim_space ''k1'' = ''k1''" by (rule visible_trimmed) (simp add: visible_def)
  then show ?thesis by (simp add: sample_wager_request_def sample_bet_def)
qed

lemma sample_surface_sel [simp]:
  "sf_parsers sample_surface = sample_parsers" "sf_known sample_surface = brl_only"
  by (simp_all add: sample_surface_def)

lemma sample_routes:
  "authenticate sample_config sample_fetch sample_verify sample_open_request = Inr (Some ''wallet-service'')"
  "find_route sample_open_request = Some OpenWallet"
  "authenticate sample_config sample_fetch sample_verify sample_wager_request = Inr (Some ''p'')"
  "find_route sample_wager_request = Some ProcessWager"
  by (simp_all add: sample_authenticated sample_open_request_def sample_wager_request_def starts_with_def
      find_route_def post_routes_def)

lemma sample_opened_store:
  "ws_store (snd (sample_serve (sample_env 100 1000) sample_open_request empty_world)) = opened_db"
proof -
  have "sv_open (pg_services sample_texts sample_platform (sample_env 100 1000, 10, None)) 20 (brl 100) empty_db =
    (Inr \<lparr>w_id = 10, w_player = 20, w_balance = brl 100, w_version = 1, w_created = 1000,
      w_updated = 1000\<rparr>, opened_db)"
    using sample_opened by (simp add: pg_services_def sample_known) (simp add: sample_env_def)
  moreover have "rq_body sample_open_request = sample_open_body" by (simp add: sample_open_request_def)
  ultimately show ?thesis
    using sample_open_decoded
    by (simp add: serve_caller [OF sample_routes(1)] serve_route_def sample_routes(2) handle_open_wallet_def
        internal_def wallet_service_def on_store_def empty_world_def)
qed

lemma sample_bet_store:
  assumes "ws_store w = opened_db"
  shows "ws_store (snd (sample_serve (sample_env 200 2000) sample_wager_request w)) = bet_db"
proof -
  have "sv_process (pg_services sample_texts sample_platform (sample_env 200 2000, 10, None)) sample_bet opened_db =
    (Inr \<lparr>r_transaction = 200, r_status = Processed, r_balance = brl 20, r_failure = [],
        r_replay = False\<rparr>, bet_db)"
    using sample_bet_executed
    by (simp add: pg_services_def wager_process_eq sample_known sample_bet_valid sample_hash_def)
  moreover have "op_provider sample_bet = ''p''" by (simp add: sample_bet_def)
  ultimately show ?thesis
    using sample_wager_decoded sample_wager_operation assms
    by (simp add: serve_caller [OF sample_routes(3)] serve_route_def sample_routes(4)
        handle_process_wager_def wallet_service_def on_store_def Let_def)
qed

lemma process_keeps_books_witness:
  "ledger_sum (entries bet_db 10) = 20 \<and> (\<exists>ls. db_ledger bet_db = db_ledger opened_db @ ls)"
proof -
  let ?w1 = "snd (sample_serve (sample_env 100 1000) sample_open_request empty_world)"
  let ?w2 = "snd (sample_serve (sample_env 200 2000) sample_wager_request ?w1)"
  have s: "0 < pf_stamp sample_platform (en_now (sample_env 100 1000))"
    "0 < pf_stamp sample_platform (en_now (sample_env 200 2000))"
    by (simp_all add: sample_platform_def sample_env_def)
  have 1: "(process_step sample_texts sample_platform)\<^sup>*\<^sup>* empty_world ?w1"
    by (rule r_into_rtranclp) (rule process_step.request [OF s(1)])
  have 2: "(process_step sample_texts sample_platform)\<^sup>*\<^sup>* ?w1 ?w2"
    by (rule r_into_rtranclp) (rule process_step.request [OF s(2)])
  have "ws_store empty_world = empty_db" by (simp add: empty_world_def)
  from process_keeps_books [OF sample_platform_ok this 1 2] show ?thesis
    unfolding sample_opened_store sample_bet_store [OF sample_opened_store]
    by (auto simp: bet_db_tables opened_db_tables)
qed


end
