(* ===== verification/Lifecycle.thy ===== *)
theory Lifecycle
  imports Process
begin

text \<open>
  The manager of the workers, \<^verbatim>\<open>Register\<close> of
  \<^verbatim>\<open>internal/worker/workers.go\<close>: its start, the goroutines of the three workers, the
  goroutine that waits for them, and its stop, in any order the scheduler lets them run. A worker's
  goroutine advances by one round of its loop; what a round sees of the context is what the manager
  did to it.
\<close>

section \<open>State\<close>

text \<open>The values behind the interface \<^verbatim>\<open>Runner\<close>, and their \<^verbatim>\<open>Name\<close>s.\<close>

datatype runner = InputConsumer | OutboxPublisher | ReferenceResolver

fun runner_name :: "runner \<Rightarrow> string" where
  "runner_name InputConsumer = consumer_name"
| "runner_name OutboxPublisher = ''outbox-publisher''"
| "runner_name ReferenceResolver = ''pending-reference-resolver''"

definition manager_workers :: "runner list" where
  "manager_workers = [InputConsumer, OutboxPublisher, ReferenceResolver]"

text \<open>
  \<open>mg_cancel\<close> is \<^verbatim>\<open>cancel\<close>: nil, or whether it has been called. \<open>mg_running\<close>
  are the workers the wait group counts; \<open>mg_done\<close> is a closed \<^verbatim>\<open>done\<close>.
\<close>

record manager =
  mg_world :: "db world"
  mg_cancel :: "bool option"
  mg_running :: "runner list"
  mg_done :: bool

definition new_manager :: "db world \<Rightarrow> manager" where
  "new_manager w = \<lparr>mg_world = w, mg_cancel = None, mg_running = [], mg_done = False\<rparr>"

section \<open>Steps\<close>

text \<open>
  A round of a worker's loop and whether the loop goes on. A round sees the context done only if it
  is; it need not see it, when it looked before. The fault hooks are nil outside tests. A call of
  the resolver under a done context may end with its error.
\<close>

inductive runner_round ::
    "parsers \<Rightarrow> texts \<Rightarrow> platform \<Rightarrow> client \<Rightarrow> bool \<Rightarrow> runner \<Rightarrow> db world \<Rightarrow> bool \<times> db world \<Rightarrow> bool"
  for y x pf cl ended where
  consuming: "(\<And>n. \<exists>en en'. fst (cr_at rd n) = processor_at (pg_inbox x pf) (pg_fail x pf) en en') \<Longrightarrow>
    (\<And>n. \<not> mo_fault (snd (cr_at rd n)) \<and> (mo_done (snd (cr_at rd n)) \<longrightarrow> ended)) \<Longrightarrow>
    (cr_done rd \<or> cr_stop rd \<longrightarrow> ended) \<Longrightarrow>
    runner_round y x pf cl ended InputConsumer w (consumer_round y (pf_known pf) cl rd w)"
| publishing: "(\<And>k. \<exists>en. em_store (at k) = pg_outbox en) \<Longrightarrow> (finished \<longrightarrow> ended) \<Longrightarrow>
    runner_round y x pf cl ended OutboxPublisher w (publisher_run x cl [(finished, pg_outbox en, at)] w)"
| resolving: "resolve = resolve_pending_reference pf en \<or> ended \<and> resolve = Pair (Inl e) \<Longrightarrow>
    (finished \<longrightarrow> ended) \<Longrightarrow>
    runner_round y x pf cl ended ReferenceResolver w (resolver_run [(finished, resolve)] w)"

inductive_cases consumer_roundE [elim]: "runner_round y x pf cl ended InputConsumer w z"
inductive_cases publisher_roundE [elim]: "runner_round y x pf cl ended OutboxPublisher w z"
inductive_cases resolver_roundE [elim]: "runner_round y x pf cl ended ReferenceResolver w z"

text \<open>
  \<open>starts\<close> and \<open>refuses\<close> are \<^verbatim>\<open>OnStart\<close>; \<open>works\<close> and
  \<open>leaves\<close> a worker's round, the last one with \<^verbatim>\<open>group.Done()\<close>; \<open>closes\<close> the
  goroutine after \<^verbatim>\<open>group.Wait()\<close>; \<open>cancels\<close> the call of \<^verbatim>\<open>OnStop\<close>.
\<close>

inductive manager_step :: "parsers \<Rightarrow> texts \<Rightarrow> platform \<Rightarrow> client \<Rightarrow> manager \<Rightarrow> manager \<Rightarrow> bool"
  for y x pf cl where
  starts: "mg_cancel m = None \<Longrightarrow>
    await_queues cl rds (ws_calls (mg_world m)) = (Some (Inr ()), calls) \<Longrightarrow>
    manager_step y x pf cl m (m\<lparr>mg_world := (mg_world m)\<lparr>ws_calls := calls\<rparr>,
      mg_cancel := Some False, mg_running := manager_workers, mg_done := False\<rparr>)"
| refuses: "mg_cancel m = None \<Longrightarrow>
    await_queues cl rds (ws_calls (mg_world m)) = (Some (Inl e), calls) \<Longrightarrow>
    manager_step y x pf cl m (m\<lparr>mg_world := (mg_world m)\<lparr>ws_calls := calls\<rparr>\<rparr>)"
| works: "r \<in> set (mg_running m) \<Longrightarrow>
    runner_round y x pf cl (mg_cancel m = Some True) r (mg_world m) (True, w) \<Longrightarrow>
    manager_step y x pf cl m (m\<lparr>mg_world := w\<rparr>)"
| leaves: "r \<in> set (mg_running m) \<Longrightarrow>
    runner_round y x pf cl (mg_cancel m = Some True) r (mg_world m) (False, w) \<Longrightarrow>
    manager_step y x pf cl m (m\<lparr>mg_world := w, mg_running := remove1 r (mg_running m)\<rparr>)"
| closes: "mg_cancel m \<noteq> None \<Longrightarrow> mg_running m = [] \<Longrightarrow> manager_step y x pf cl m (m\<lparr>mg_done := True\<rparr>)"
| cancels: "mg_cancel m \<noteq> None \<Longrightarrow> manager_step y x pf cl m (m\<lparr>mg_cancel := Some True\<rparr>)"

text \<open>
  What \<^verbatim>\<open>OnStop\<close> may return once it has called \<^verbatim>\<open>cancel\<close>: nil when there was
  nothing to cancel or \<^verbatim>\<open>done\<close> is closed, the error of its own context when that one is
  done. When both channels are ready, \<^verbatim>\<open>select\<close> takes either.
\<close>

definition stop_returns :: "err option \<Rightarrow> manager \<Rightarrow> err option \<Rightarrow> bool" where
  "stop_returns expired m e \<longleftrightarrow>
     (if mg_cancel m = None then e = None
      else mg_cancel m = Some True \<and> (e = None \<and> mg_done m \<or> e \<noteq> None \<and> e = expired))"

section \<open>Rounds\<close>

text \<open>A loop ends only under a done context, and every round is a run of the store.\<close>

context consumer_store
begin

lemma consume_all_rel:
  assumes "\<And>n. \<exists>e e'. fst (at n) = processor_at inbox fail e e'"
  shows "rel (ws_store w) (ws_store (snd (consume_all y known cl at n ms w)))"
proof (induction ms arbitrary: n w)
  case (Cons m ms)
  obtain e e' where at: "fst (at n) = processor_at inbox fail e e'" using assms by blast
  obtain go w1 where c: "consume y known cl (fst (at n)) (snd (at n)) m w = (go, w1)" by fastforce
  then have "rel (ws_store w) (ws_store w1)"
    using consume_rel [of w y known cl e e' "snd (at n)" m] by (simp add: at)
  with c Cons.IH [of w1 "Suc n"] rel_trans show ?case by (auto split: bool.split)
qed (simp add: rel_refl)

lemma consumer_round_rel:
  assumes "\<And>n. \<exists>e e'. fst (cr_at rd n) = processor_at inbox fail e e'"
  shows "rel (ws_store w) (ws_store (snd (consumer_round y known cl rd w)))"
proof -
  obtain got w1 where r: "on_queue (receive cl) w = (got, w1)" by fastforce
  then have "ws_store w1 = ws_store w" by (auto simp: on_queue_def split: prod.splits)
  moreover have "rel (ws_store w1) (ws_store (snd (consume_all y known cl (cr_at rd) 0 ms w1)))" for ms
    by (rule consume_all_rel [OF assms])
  ultimately show ?thesis using r
    by (simp add: consumer_round_def rel_refl split: sum.split)
qed

end

lemma consume_goes_on:
  assumes "\<not> mo_done mo" and "\<not> mo_fault mo"
  shows "fst (consume y known cl pr mo m w)"
  using assms by (auto simp: consume_def split: prod.split option.split sum.split)

lemma consume_all_goes_on:
  assumes "\<And>k. \<not> mo_done (snd (at k))" and "\<And>k. \<not> mo_fault (snd (at k))"
  shows "fst (consume_all y known cl at n ms w)"
proof (induction ms arbitrary: n w)
  case (Cons m ms)
  then show ?case
    using consume_goes_on [OF assms, of y known cl "fst (at n)" n m w]
    by (auto split: prod.split bool.split)
qed simp

lemma consumer_round_goes_on:
  assumes "\<And>n. \<not> mo_done (snd (cr_at rd n))" and "\<And>n. \<not> mo_fault (snd (cr_at rd n))"
    and "\<not> cr_done rd" and "\<not> cr_stop rd"
  shows "fst (consumer_round y known cl rd w)"
  using consume_all_goes_on [OF assms(1,2)] assms(3,4)
  by (auto simp: consumer_round_def split: prod.split sum.split)

lemma round_runs:
  assumes "runner_round y x pf cl ended r w (go, w')"
  shows "runs pf (ws_store w) (ws_store w') \<and> (\<not> go \<longrightarrow> ended)"
  using assms
proof (cases rule: runner_round.cases)
  case (consuming rd)
  then have "runs pf (ws_store w) (ws_store (snd (consumer_round y (pf_known pf) cl rd w)))"
    by (intro prt.consumer_round_rel) blast
  moreover have "fst (consumer_round y (pf_known pf) cl rd w)" if "\<not> ended"
    using consuming that by (intro consumer_round_goes_on) auto
  ultimately show ?thesis using consuming(1,2) by (metis fst_conv snd_conv)
next
  case (publishing at finished en)
  have "runs pf (ws_store w) (ws_store (snd (publish x cl (pg_outbox en) at w)))"
    by (rule ppb.publish_rel) (rule publishing(3))
  with publishing show ?thesis by (cases finished) (auto simp: Let_def)
next
  case (resolving resolve en e finished)
  have "runs pf (ws_store w) (snd (resolve (ws_store w)))"
    using resolving(3) runs_step [OF store_step.resolve] by auto
  with resolving show ?thesis by (auto simp: on_store_def split: prod.splits if_splits)
qed

text \<open>Every worker can take a last round under a done context.\<close>

lemma last_round: "\<exists>w'. runner_round y x pf cl True r w (False, w')"
proof (cases r)
  case InputConsumer
  let ?rd = "\<lparr>cr_done = True, cr_stop = True, cr_at = (\<lambda>_. (processor_at (pg_inbox x pf) (pg_fail x pf)
    undefined undefined, \<lparr>mo_done = True, mo_fault = False, mo_millis = 0\<rparr>))\<rparr>"
  have "runner_round y x pf cl True InputConsumer w (consumer_round y (pf_known pf) cl ?rd w)"
    by (rule runner_round.consuming) auto
  then show ?thesis by (auto simp: InputConsumer consumer_round_def)
next
  case OutboxPublisher
  let ?at = "\<lambda>_. \<lparr>em_store = pg_outbox undefined, em_fault = None, em_millis = 0\<rparr>"
  have "runner_round y x pf cl True OutboxPublisher w (publisher_run x cl [(True, pg_outbox undefined, ?at)] w)"
    by (rule runner_round.publishing) auto
  then show ?thesis by (auto simp: OutboxPublisher Let_def)
next
  case ReferenceResolver
  have "runner_round y x pf cl True ReferenceResolver w (resolver_run [(True, Pair (Inl ErrConflict))] w)"
    by (rule runner_round.resolving) auto
  then show ?thesis by (auto simp: ReferenceResolver on_store_def)
qed

section \<open>The manager\<close>

definition manager_ok :: "manager \<Rightarrow> bool" where
  "manager_ok m \<longleftrightarrow>
     (mg_cancel m = None \<longrightarrow> mg_running m = [] \<and> \<not> mg_done m) \<and>
     (mg_cancel m = Some False \<longrightarrow> mg_running m = manager_workers) \<and>
     (mg_done m \<longrightarrow> mg_running m = [])"

lemma manager_step_ok:
  assumes "manager_step y x pf cl m m'" and "manager_ok m"
  shows "manager_ok m' \<and> runs pf (ws_store (mg_world m)) (ws_store (mg_world m'))"
  using assms(1)
proof (cases rule: manager_step.cases)
  case (works r w)
  with assms(2) round_runs [OF works(3)] show ?thesis by (auto simp: manager_ok_def)
next
  case (leaves r w)
  with assms(2) round_runs [OF leaves(3)] show ?thesis by (auto simp: manager_ok_def)
qed (use assms(2) in \<open>auto simp: manager_ok_def manager_workers_def\<close>)

lemma manager_runs_ok:
  assumes "(manager_step y x pf cl)\<^sup>*\<^sup>* (new_manager w0) m"
  shows "manager_ok m \<and> runs pf (ws_store w0) (ws_store (mg_world m))"
  using assms
proof (induction rule: rtranclp_induct)
  case base
  show ?case by (simp add: manager_ok_def new_manager_def)
next
  case (step m m')
  then show ?case using manager_step_ok [OF step(2)] runs_trans by blast
qed

lemma manager_ends:
  assumes "mg_cancel m = Some True"
  shows "\<exists>m'. (manager_step y x pf cl)\<^sup>*\<^sup>* m m' \<and> mg_cancel m' = Some True \<and> mg_done m'"
  using assms
proof (induction "mg_running m" arbitrary: m)
  case Nil
  then have "manager_step y x pf cl m (m\<lparr>mg_done := True\<rparr>)" by (intro manager_step.closes) simp_all
  with Nil show ?case by (intro exI [of _ "m\<lparr>mg_done := True\<rparr>"]) auto
next
  case (Cons r rs)
  obtain w where w: "runner_round y x pf cl True r (mg_world m) (False, w)" using last_round by blast
  let ?m = "m\<lparr>mg_world := w, mg_running := remove1 r (mg_running m)\<rparr>"
  have s: "manager_step y x pf cl m ?m"
    using Cons.prems w by (intro manager_step.leaves) (simp_all flip: Cons.hyps(2))
  have "\<exists>m'. (manager_step y x pf cl)\<^sup>*\<^sup>* ?m m' \<and> mg_cancel m' = Some True \<and> mg_done m'"
    using Cons.prems by (intro Cons.hyps(1)) (simp_all flip: Cons.hyps(2))
  with s show ?case by (meson converse_rtranclp_into_rtranclp)
qed

lemma stopped_stays:
  assumes "(manager_step y x pf cl)\<^sup>*\<^sup>* m m'" and "mg_cancel m = Some True" and "mg_running m = []"
  shows "mg_world m' = mg_world m"
proof -
  have "mg_world m' = mg_world m \<and> mg_cancel m' = Some True \<and> mg_running m' = []"
    using assms by (induction rule: rtranclp_induct) (auto elim: manager_step.cases)
  then show ?thesis ..
qed

text \<open>
  C15: However the goroutines take turns after \<^verbatim>\<open>NewManager\<close>: no worker leaves its loop
  before the stop and \<^verbatim>\<open>Done\<close> is not closed before; when \<^verbatim>\<open>OnStop\<close> returns nil
  no worker runs, and if there was a start, nothing the workers share changes any more, so the pool
  may be closed; once cancelled, the workers can always come to the end at which
  \<^verbatim>\<open>OnStop\<close> returns nil; and the database stays one the calls of the store can reach.
\<close>

theorem stop_waits_for_workers:
  assumes "(manager_step y x pf cl)\<^sup>*\<^sup>* (new_manager w0) m"
  shows "(mg_cancel m = Some False \<longrightarrow> mg_running m = manager_workers \<and> \<not> mg_done m) \<and>
    (stop_returns expired m None \<longrightarrow> mg_running m = []) \<and>
    (stop_returns expired m None \<and> mg_cancel m \<noteq> None \<longrightarrow>
      (\<forall>m'. (manager_step y x pf cl)\<^sup>*\<^sup>* m m' \<longrightarrow> mg_world m' = mg_world m)) \<and>
    (mg_cancel m = Some True \<longrightarrow>
      (\<exists>m'. (manager_step y x pf cl)\<^sup>*\<^sup>* m m' \<and> stop_returns None m' None)) \<and>
    (reachable pf (ws_store w0) \<longrightarrow> reachable pf (ws_store (mg_world m)))"
proof (intro conjI impI allI)
  have ok: "manager_ok m" and r: "runs pf (ws_store w0) (ws_store (mg_world m))"
    using manager_runs_ok [OF assms] by simp_all
  show "mg_running m = manager_workers" "\<not> mg_done m" if "mg_cancel m = Some False"
    using ok that by (auto simp: manager_ok_def manager_workers_def)
  show empty: "mg_running m = []" if "stop_returns expired m None"
    using ok that by (auto simp: manager_ok_def stop_returns_def split: if_splits)
  show "mg_world m' = mg_world m"
    if "stop_returns expired m None \<and> mg_cancel m \<noteq> None" "(manager_step y x pf cl)\<^sup>*\<^sup>* m m'" for m'
    using that empty by (intro stopped_stays) (auto simp: stop_returns_def split: if_splits)
  show "\<exists>m'. (manager_step y x pf cl)\<^sup>*\<^sup>* m m' \<and> stop_returns None m' None" if "mg_cancel m = Some True"
    using manager_ends [OF that] by (fastforce simp: stop_returns_def)
  show "reachable pf (ws_store (mg_world m))" if "reachable pf (ws_store w0)"
    using that r by (rule runs_reachable)
qed

text \<open>The manager over an empty database, started with queues that answer, then stopped.\<close>

definition stopping_manager :: manager where
  "stopping_manager = \<lparr>mg_world = empty_world\<lparr>ws_calls := [QueueAttributes ''in'', QueueAttributes ''out'',
     QueueAttributes ''dlq'']\<rparr>, mg_cancel = Some True, mg_running = manager_workers, mg_done = False\<rparr>"

lemma stop_waits_for_workers_witness:
  "\<exists>m. (manager_step sample_parsers sample_texts sample_platform sample_client)\<^sup>*\<^sup>* stopping_manager m \<and>
     stop_returns None m None \<and> mg_running m = []"
proof -
  let ?step = "manager_step sample_parsers sample_texts sample_platform sample_client"
  have "?step (new_manager empty_world) (stopping_manager\<lparr>mg_cancel := Some False\<rparr>)"
    using manager_step.starts [of "new_manager empty_world" sample_client "[(False, None)]"]
    by (auto simp: new_manager_def stopping_manager_def empty_world_def sample_client_def queue_ready_def sqs_do_def)
  moreover have "?step (stopping_manager\<lparr>mg_cancel := Some False\<rparr>) stopping_manager"
    using manager_step.cancels [of "stopping_manager\<lparr>mg_cancel := Some False\<rparr>"]
    by (simp add: stopping_manager_def)
  ultimately have s: "?step\<^sup>*\<^sup>* (new_manager empty_world) stopping_manager" by auto
  moreover have "mg_cancel stopping_manager = Some True" by (simp add: stopping_manager_def)
  ultimately obtain m where m: "?step\<^sup>*\<^sup>* stopping_manager m" "stop_returns None m None"
    using stop_waits_for_workers [OF s] by blast
  with s stop_waits_for_workers [of sample_parsers sample_texts sample_platform sample_client empty_world m None]
  show ?thesis by (meson rtranclp_trans)
qed

end
