(* ===== verification/Paging.thy ===== *)
theory Paging
  imports Http Guarantees
begin

text \<open>
  The ledger read page by page through the cursors of the HTTP layer: a client that follows
  \<^verbatim>\<open>nextCursor\<close> reads every entry exactly once, in order, and comes to an end.
\<close>

named_theorems keeps \<open>statements keep a property of the ledger\<close>

section \<open>What every entry carries\<close>

text \<open>
  The time of an entry is one the column can hold, so the cursor made of it compares with the
  column as it is; and an entry has an identifier.
\<close>

definition stamped :: "platform \<Rightarrow> db \<Rightarrow> bool" where
  "stamped pf d \<longleftrightarrow>
     (\<forall>l\<in>set (db_ledger d). pf_stamp pf (l_created l) = l_created l \<and> l_id l \<noteq> 0)"

definition keeps_stamps :: "platform \<Rightarrow> 'a txop \<Rightarrow> bool" where
  "keeps_stamps pf f \<longleftrightarrow> (\<forall>t x t'. f t = Inr (x, t') \<longrightarrow> stamped pf (tx_db t) \<longrightarrow> stamped pf (tx_db t'))"

lemma keeps_stamps_bind [keeps]:
  "keeps_stamps pf m \<Longrightarrow> (\<And>x. keeps_stamps pf (f x)) \<Longrightarrow> keeps_stamps pf (tx_bind m f)"
  by (fastforce simp: keeps_stamps_def tx_bind_Inr)

lemma keeps_stamps_basic [keeps]:
  "keeps_stamps pf (tx_return x)" "keeps_stamps pf (tx_fail e)" "keeps_stamps pf (tx_lift r)"
  "keeps_stamps pf tx_get"
  by (auto simp: keeps_stamps_def tx_return_Inr tx_lift_Inr tx_get_def)

lemma keeps_stamps_if [keeps]:
  "keeps_stamps pf a \<Longrightarrow> keeps_stamps pf b \<Longrightarrow> keeps_stamps pf (if c then a else b)"
  by simp

lemma keeps_stamps_run:
  "(\<And>d d' evs. stmt d = Inr (d', evs) \<Longrightarrow> db_ledger d' = db_ledger d) \<Longrightarrow> keeps_stamps pf (tx_run stmt)"
  by (auto simp: keeps_stamps_def tx_run_def rbind_Inr_iff stamped_def)

lemma keeps_stamps_classify [keeps]: "keeps_stamps pf m \<Longrightarrow> keeps_stamps pf (tx_classify m)"
  by (auto simp: keeps_stamps_def tx_classify_def split: sum.splits)

lemma keeps_stamps_statements [keeps]:
  "keeps_stamps pf (tx_run (insert_wallet_row r))" "keeps_stamps pf (tx_run (update_wallet_row u b v t))"
  "keeps_stamps pf (tx_run (insert_wager_row w))" "keeps_stamps pf (tx_run (update_wager_row u f))"
  "keeps_stamps pf (tx_run (insert_outbox_row ob))" "keeps_stamps pf (tx_run (insert_inbox_row i))"
  "keeps_stamps pf (tx_run (\<lambda>d. Inr (d\<lparr>db_inbox := g d\<rparr>, [])))"
  by (rule keeps_stamps_run; auto simp: insert_wallet_row_def update_wallet_row_def
      insert_wager_row_def update_wager_row_def insert_outbox_row_def insert_inbox_row_def Let_def
      rbind_Inr_iff split: if_splits option.splits)+

lemma keeps_stamps_ledger [keeps]:
  assumes "platform_ok pf"
  shows "keeps_stamps pf (insert_ledger pf en wid tid dir m before after version created)"
  using assms
  by (auto simp: keeps_stamps_def insert_ledger_def tx_bind_Inr tx_lift_Inr tx_run_def rbind_Inr_iff
      insert_ledger_row_def new_ledger_entry_Inr stamped_def platform_ok_def split: if_splits)

lemma keeps_stamps_events [keeps]:
  "keeps_stamps pf (add_event pf en e)"
  "keeps_stamps pf (add_balance_event pf en c wid tid dir m before after version)"
  "keeps_stamps pf (add_wager_event pf en c wid tid provider k st failure)"
  unfolding add_event_def add_balance_event_def add_wager_event_def Let_def
  by (auto intro!: keeps split: status.split)

lemma keeps_stamps_movement [keeps]:
  "platform_ok pf \<Longrightarrow> keeps_stamps pf (post_movement pf en c p tid dn w now)"
  by (auto simp: post_movement_def intro!: keeps)

lemma keeps_stamps_execute [keeps]:
  "platform_ok pf \<Longrightarrow> keeps_stamps pf (execute_tx pf en c p h dec)"
  unfolding execute_tx_def execute_new_def Let_def
  by (auto intro!: keeps split: option.split prod.split)

lemma with_tx_stamped:
  "keeps_stamps pf f \<Longrightarrow> stamped pf d \<Longrightarrow> stamped pf (snd (with_tx f d))"
  by (fastforce simp: keeps_stamps_def with_tx_def split: sum.splits)

lemma step_stamped:
  assumes p: "platform_ok pf" and s: "store_step pf d d'" and i: "stamped pf d"
  shows "stamped pf d'"
  using s
proof cases
  case (open_wallet wid player initial now w en)
  show ?thesis
    unfolding open_wallet create_wallet_def post_opening_def Let_def
    by (intro with_tx_stamped i keeps p)
next
  case process
  then show ?thesis unfolding execute_def by (simp add: with_tx_stamped keeps p i)
next
  case (process_inbox en msg op hash)
  show ?thesis
    unfolding process_inbox execute_inbox_def
    by (intro with_tx_stamped i keeps) (auto intro!: keeps p split: option.split)
next
  case fail
  then show ?thesis unfolding execute_def by (simp add: with_tx_stamped keeps p i)
next
  case (resolve en)
  show ?thesis
    unfolding resolve resolve_pending_reference_def resolve_row_def settle_def Let_def
    by (intro with_tx_stamped i keeps) (auto intro!: keeps p split: option.split prod.split)
next
  case claim
  then show ?thesis using i by (simp add: claim_outbox_def Let_def stamped_def)
next
  case mark
  then show ?thesis using i by (simp add: mark_outbox_published_def stamped_def)
next
  case retry
  then show ?thesis using i by (simp add: retry_outbox_def stamped_def)
qed

lemma reachable_stamped:
  assumes "platform_ok pf" and "reachable pf d"
  shows "stamped pf d"
  using assms(2)
proof (induction rule: reachable.induct)
  case start
  then show ?case by (simp add: stamped_def empty_db_def)
next
  case (step d d')
  show ?case by (rule step_stamped [OF assms(1) step(2) step(3)])
qed

section \<open>Following the cursors\<close>

text \<open>
  The client: it asks for pages of \<open>limit\<close> entries, starting without a cursor and sending back
  the one it got, as text. \<open>fuel\<close> bounds the requests it makes.
\<close>

fun follow_cursors ::
    "texts \<Rightarrow> parsers \<Rightarrow> platform \<Rightarrow> uuid \<Rightarrow> nat \<Rightarrow> db \<Rightarrow> nat \<Rightarrow> string \<Rightarrow> err + ledger_view list" where
  "follow_cursors x y pf wid limit d 0 t = Inl (ErrText ''out of fuel'')"
| "follow_cursors x y pf wid limit d (Suc fuel) t =
     rbind (decode_cursor y t) (\<lambda>cursor.
     rbind (list_ledger pf wid cursor limit d) (\<lambda>page.
       case lp_next page of
         None \<Rightarrow> Inr (lp_entries page)
       | Some c \<Rightarrow>
           rbind (encode_cursor x c) (\<lambda>t'.
           rbind (follow_cursors x y pf wid limit d fuel t') (\<lambda>vs.
             Inr (lp_entries page @ vs)))))"

text \<open>What the text forms of instants and UUIDs promise.\<close>

definition parses_times :: "parsers \<Rightarrow> texts \<Rightarrow> bool" where
  "parses_times y x \<longleftrightarrow> (\<forall>t. 0 < t \<longrightarrow> t < 315537897600 * 1000000000 \<longrightarrow>
     time_parse y (time_text x t) = Some t \<and> utf8_valid (time_text x t))"

lemma time_json_ok:
  "0 < t \<Longrightarrow> t < 315537897600 * 1000000000 \<Longrightarrow> time_json x t = Inr (JStr (time_text x t))"
  by (simp add: time_json_def)

lemma cursor_roundtrip:
  assumes "parses_uuids y x" and "parses_times y x" and "lc_id c \<noteq> 0"
    and "0 < lc_created c" and "lc_created c < 315537897600 * 1000000000"
  shows "\<exists>t. encode_cursor x c = Inr t \<and> decode_cursor y t = Inr (Some c)"
proof -
  let ?j = "JObj [(''createdAt'', JStr (time_text x (lc_created c))), (''id'', JStr (uuid_text x (lc_id c)))]"
  have t: "time_parse y (time_text x (lc_created c)) = Some (lc_created c)"
    "utf8_valid (time_text x (lc_created c))"
    using assms(2,4,5) by (auto simp: parses_times_def)
  have u: "uuid_parse y (uuid_text x (lc_id c)) = Some (lc_id c)" "utf8_valid (uuid_text x (lc_id c))"
    using assms(1) by (auto simp: parses_uuids_def)
  have "utf8_valid ''createdAt''" "utf8_valid ''id''" by (rule ascii_valid, simp add: code_def)+
  then have "json_ok max_nesting ?j" using t(2) u(2) by (simp add: max_nesting_def)
  then have "unmarshal (cursor_fields y) \<lparr>lc_created = 0, lc_id = 0\<rparr> (json_text ?j) = Some c"
    using t(1) u(1)
    by (simp add: unmarshal_def parse_document_text decode_struct_def cursor_fields_def find_field_def
        set_text_def del: json_text.simps)
  moreover have "json_text ?j \<noteq> []" by simp
  ultimately show ?thesis
    using assms(3,4,5)
    by (simp add: encode_cursor_def time_json_ok decode_cursor_def b64_roundtrip del: json_text.simps)
qed

lemma filter_after:
  assumes "sorted_wrt (\<lambda>a b. k a < k b) xs" and "i < length xs"
  shows "filter (\<lambda>l. k (xs ! i) < (k l :: 'k :: linorder)) xs = drop (Suc i) xs"
proof -
  have xs: "xs = take i xs @ xs ! i # drop (Suc i) xs"
    using assms(2) by (simp add: id_take_nth_drop [symmetric])
  have "sorted_wrt (\<lambda>a b. k a < k b) (take i xs @ xs ! i # drop (Suc i) xs)"
    using assms(1) xs by simp
  then have "\<forall>l\<in>set (take i xs). k l < k (xs ! i)" "\<forall>l\<in>set (drop (Suc i) xs). k (xs ! i) < k l"
    by (auto simp: sorted_wrt_append)
  then have "filter (\<lambda>l. k (xs ! i) < k l) (take i xs) = []"
    "filter (\<lambda>l. k (xs ! i) < k l) (drop (Suc i) xs) = drop (Suc i) xs"
    by (auto simp: filter_empty_conv filter_id_conv dest: order.asym)
  then show ?thesis by (subst xs) simp
qed

text \<open>The entries of a wallet in the order of the listing.\<close>

definition listed :: "db \<Rightarrow> uuid \<Rightarrow> ledger_row list" where
  "listed d wid = sort_key ledger_key (entries d wid)"

lemma map_insort_key: "map f (insort_key f x xs) = insort (f x) (map f xs)"
  by (induction xs) simp_all

lemma map_sort_key: "map f (sort_key f xs) = sort (map f xs)"
  by (induction xs) (simp_all add: map_insort_key)

lemma ledger_ids_distinct:
  assumes "integrity pf d"
  shows "distinct (map l_id (db_ledger d))"
  using assms
  by (intro clash_free_key [of ledger_clash]) (simp_all add: integrity_def keys_ok_def ledger_clash_def)

lemma listed_sorted:
  assumes "integrity pf d"
  shows "sorted_wrt (\<lambda>a b. ledger_key a < ledger_key b) (listed d wid)"
proof -
  have "distinct (map ledger_key (db_ledger d))"
    using ledger_ids_distinct [OF assms]
    by (auto simp: distinct_map ledger_key_def inj_on_def)
  then have "distinct (map ledger_key (entries d wid))"
    by (simp add: entries_def distinct_map_filter)
  then have "distinct (map ledger_key (listed d wid))"
    by (simp add: listed_def distinct_map)
  moreover have "sorted (map ledger_key (listed d wid))" by (simp add: listed_def)
  ultimately have "sorted_wrt (<) (map ledger_key (listed d wid))"
    by (simp add: strict_sorted_iff)
  then show ?thesis by (simp add: sorted_wrt_map)
qed

lemma take_then_drop: "take k (drop n xs) @ drop (n + k) xs = drop n xs"
  by (metis add.commute append_take_drop_id drop_drop)

lemma scan_all_append:
  "scan_all f (as @ bs) = rbind (scan_all f as) (\<lambda>vs. rbind (scan_all f bs) (\<lambda>ws. Inr (vs @ ws)))"
  by (induction as) (auto simp: rbind_def split: sum.splits)

lemma scan_ledger_ok:
  "valid_currency (pf_known pf) cur \<Longrightarrow> \<exists>v. scan_ledger_row pf cur l = Inr v \<and>
     lv_created v = l_created l \<and> lv_id v = l_id l"
  by (simp add: scan_ledger_row_def money_from_minor_def)

lemma scan_all_ok:
  assumes "valid_currency (pf_known pf) cur"
  shows "\<exists>vs. scan_all (scan_ledger_row pf cur) ls = Inr vs \<and> map (\<lambda>v. (lv_created v, lv_id v)) vs = map ledger_key ls"
proof (induction ls)
  case (Cons l ls)
  then show ?case
    using scan_ledger_ok [OF assms, of l] by (auto simp: ledger_key_def)
qed simp

lemma scan_all_take:
  assumes "valid_currency (pf_known pf) cur" and "scan_all (scan_ledger_row pf cur) ls = Inr vs"
  shows "scan_all (scan_ledger_row pf cur) (take n ls) = Inr (take n vs)"
  using assms(2)
proof (induction ls arbitrary: n vs)
  case (Cons l ls)
  then show ?case by (cases n) (auto simp: rbind_Inr_iff)
qed simp

text \<open>One page, when \<open>rest\<close> is still to come.\<close>

lemma list_ledger_page:
  assumes "find_wallet d wid = Some w" and "valid_currency (pf_known pf) (wr_currency w)"
    and "ledger_after pf wid cursor d = rest" and "0 < limit"
    and vs: "scan_all (scan_ledger_row pf (wr_currency w)) rest = Inr vs"
  shows "list_ledger pf wid cursor limit d = Inr
    (if limit < length rest
     then \<lparr>lp_entries = take limit vs,
           lp_next = Some \<lparr>lc_created = fst (ledger_key (rest ! (limit - 1))),
                           lc_id = snd (ledger_key (rest ! (limit - 1)))\<rparr>\<rparr>
     else \<lparr>lp_entries = vs, lp_next = None\<rparr>)"
proof -
  obtain vs' where "scan_all (scan_ledger_row pf (wr_currency w)) rest = Inr vs'"
    and k: "map (\<lambda>v. (lv_created v, lv_id v)) vs' = map ledger_key rest"
    using scan_all_ok [OF assms(2), of rest] by blast
  with vs have keys: "map (\<lambda>v. (lv_created v, lv_id v)) vs = map ledger_key rest" by simp
  then have len: "length vs = length rest" by (metis length_map)
  have pos: "(lv_created (vs ! i), lv_id (vs ! i)) = ledger_key (rest ! i)" if "i < length rest" for i
    using arg_cong [OF keys, of "\<lambda>xs. xs ! i"] that len by simp
  show ?thesis
  proof (cases "limit < length rest")
    case True
    then have "(lv_created (vs ! (limit - 1)), lv_id (vs ! (limit - 1))) = ledger_key (rest ! (limit - 1))"
      by (intro pos) simp
    then have "lv_created (vs ! (limit - 1)) = fst (ledger_key (rest ! (limit - 1)))"
      "lv_id (vs ! (limit - 1)) = snd (ledger_key (rest ! (limit - 1)))" by (metis fst_conv, metis snd_conv)
    with True assms(1,3,4) scan_all_take [OF assms(2) vs, of "limit + 1"] len show ?thesis
      by (simp add: list_ledger_def Let_def min_def)
  next
    case False
    with assms(1,3,4) vs len show ?thesis by (simp add: list_ledger_def)
  qed
qed

lemma follow_rest:
  assumes i: "integrity pf d" and st: "stamped pf d"
    and x: "parses_uuids y x" "parses_times y x"
    and w: "find_wallet d wid = Some w" and cur: "valid_currency (pf_known pf) (wr_currency w)"
    and times: "\<forall>l\<in>set (entries d wid). 0 < l_created l \<and> l_created l < 315537897600 * 1000000000"
    and limit: "0 < limit"
  shows "length (listed d wid) < fuel + n \<Longrightarrow> 0 < fuel \<Longrightarrow> decode_cursor y t = Inr cursor \<Longrightarrow>
    ledger_after pf wid cursor d = drop n (listed d wid) \<Longrightarrow>
    follow_cursors x y pf wid limit d fuel t =
      scan_all (scan_ledger_row pf (wr_currency w)) (drop n (listed d wid))"
proof (induction fuel arbitrary: n t cursor)
  case (Suc fuel)
  let ?S = "listed d wid" and ?scan = "scan_all (scan_ledger_row pf (wr_currency w))"
  obtain vs where vs: "?scan (drop n ?S) = Inr vs" using scan_all_ok [OF cur] by blast
  note page = list_ledger_page [OF w cur Suc.prems(4) limit vs]
  show ?case
  proof (cases "limit < length (drop n ?S)")
    case False
    with page Suc.prems(3) vs show ?thesis by simp
  next
    case True
    let ?k = "n + limit - 1"
    let ?l = "?S ! ?k"
    have k: "?k < length ?S" "drop n ?S ! (limit - 1) = ?l" using True limit by auto
    then have l: "?l \<in> set (entries d wid)" using nth_mem [OF k(1)] by (simp add: listed_def)
    let ?c = "\<lparr>lc_created = l_created ?l, lc_id = l_id ?l\<rparr>"
    have lt: "0 < l_created ?l" "l_created ?l < 315537897600 * 1000000000" using times l by blast+
    have ls: "pf_stamp pf (l_created ?l) = l_created ?l" "l_id ?l \<noteq> 0"
      using st l by (auto simp: stamped_def entries_def)
    obtain t' where t': "encode_cursor x ?c = Inr t'" "decode_cursor y t' = Inr (Some ?c)"
      using cursor_roundtrip [OF x, of ?c] lt ls by auto
    have "ledger_after pf wid (Some ?c) d = filter (\<lambda>m. ledger_key ?l < ledger_key m) ?S"
      using ls by (simp add: ledger_after_def listed_def entries_def ledger_key_def)
    also have "\<dots> = drop (n + limit) ?S"
      using filter_after [OF listed_sorted [OF i] k(1)] limit by simp
    finally have next_page: "ledger_after pf wid (Some ?c) d = drop (n + limit) ?S" .
    have "follow_cursors x y pf wid limit d fuel t' = ?scan (drop (n + limit) ?S)"
      by (rule Suc.IH [OF _ _ t'(2) next_page]) (use Suc.prems(1) True limit in auto)
    moreover have "?scan (drop n ?S) = rbind (?scan (take limit (drop n ?S)))
        (\<lambda>vs. rbind (?scan (drop (n + limit) ?S)) (\<lambda>ws. Inr (vs @ ws)))"
      using scan_all_append [of "scan_ledger_row pf (wr_currency w)" "take limit (drop n ?S)"
          "drop (n + limit) ?S"] take_then_drop [of limit n ?S]
      by simp
    moreover have "?scan (take limit (drop n ?S)) = Inr (take limit vs)"
      by (rule scan_all_take [OF cur vs])
    ultimately show ?thesis
      using page True Suc.prems(3) t'(1) k(2) by (simp add: ledger_key_def)
  qed
qed simp

text \<open>
  C20: Whatever the page size, a client that follows \<^verbatim>\<open>nextCursor\<close> from the first page reads
  the whole ledger of the wallet, every entry exactly once, in the order of time and identifier,
  and stops: a request for every entry and one more are always enough.
\<close>

theorem ledger_pages_complete:
  assumes "platform_ok pf" and "reachable pf d" and "find_wallet d wid = Some w"
    and "parses_uuids y x" and "parses_times y x" and "0 < limit"
    and "\<forall>l\<in>set (entries d wid). 0 < l_created l \<and> l_created l < 315537897600 * 1000000000"
    and "length (entries d wid) < fuel"
  shows "\<exists>vs. follow_cursors x y pf wid limit d fuel [] = Inr vs \<and>
    map (\<lambda>v. (lv_created v, lv_id v)) vs = sort (map (\<lambda>l. (l_created l, l_id l)) (entries d wid)) \<and>
    distinct (map lv_id vs) \<and> set (map lv_id vs) = l_id ` set (entries d wid)"
proof -
  note i = reachable_ok [OF assms(1,2)] and st = reachable_stamped [OF assms(1,2)]
  have "wallet_ok pf w"
    using i assms(3) by (auto simp: integrity_def list_all_iff find_wallet_def dest!: find_SomeD)
  then have cur: "valid_currency (pf_known pf) (wr_currency w)"
    by (auto simp: wallet_ok_iff load_wallet_Inr wallet_valid_def money_valid_def)
  obtain vs where vs: "scan_all (scan_ledger_row pf (wr_currency w)) (listed d wid) = Inr vs"
    "map (\<lambda>v. (lv_created v, lv_id v)) vs = map ledger_key (listed d wid)"
    using scan_all_ok [OF cur] by blast
  have "follow_cursors x y pf wid limit d fuel [] = Inr vs"
    using follow_rest [OF i st assms(4,5,3) cur assms(7,6), of fuel 0 "[]" None] assms(8) vs(1)
    by (simp add: listed_def entries_def decode_cursor_def ledger_after_def)
  moreover have "map ledger_key (listed d wid) = sort (map ledger_key (entries d wid))"
    by (simp add: listed_def map_sort_key)
  moreover have ids: "map lv_id vs = map l_id (listed d wid)"
    using arg_cong [OF vs(2), of "map snd"] by (simp add: ledger_key_def comp_def)
  moreover have "lv_id ` set vs = l_id ` set (entries d wid)"
    using arg_cong [OF ids, of set] by (simp add: listed_def)
  moreover have "ledger_key = (\<lambda>l. (l_created l, l_id l))" by (simp add: fun_eq_iff ledger_key_def)
  moreover have "distinct (map l_id (entries d wid))"
    using ledger_ids_distinct [OF i] by (simp add: entries_def distinct_map_filter)
  then have "distinct (map l_id (listed d wid))" by (simp add: listed_def distinct_map)
  ultimately show ?thesis using vs(2) by simp
qed

lemma sample_parses_times: "parses_times sample_parsers sample_texts"
proof -
  have "utf8_valid (digits_of (nat t))" for t :: time
    using digits_of_all by (intro ascii_valid digit_text_valid)
  then show ?thesis
    by (simp add: parses_times_def sample_parsers_def sample_texts_def digits_of_all)
qed

lemma ledger_pages_complete_witness:
  "\<exists>vs. follow_cursors sample_texts sample_parsers sample_platform 10 1 bet_db 3 [] = Inr vs \<and>
    map (\<lambda>v. (lv_created v, lv_id v)) vs =
      sort (map (\<lambda>l. (l_created l, l_id l)) (entries bet_db 10)) \<and>
    distinct (map lv_id vs) \<and> set (map lv_id vs) = l_id ` set (entries bet_db 10) \<and>
    length (entries bet_db 10) = 2"
proof -
  have w: "find_wallet bet_db 10 = Some (hd (db_wallets bet_db))"
    by (simp add: find_wallet_def bet_db_tables)
  have e: "length (entries bet_db 10) = 2"
    by (simp add: entries_def bet_db_tables opened_db_tables)
  show ?thesis
    using ledger_pages_complete [OF sample_platform_ok bet_reachable w sample_parses_uuids
        sample_parses_times, of 1 3] e
    by (simp add: entries_def bet_db_tables opened_db_tables)
qed

end
