(* ===== verification/Migrate.thy ===== *)
theory Migrate
  imports GoStd "HOL-Library.List_Lexorder" "HOL-Library.Char_ord" "HOL-Library.Sublist"
begin

text \<open>
  \<^verbatim>\<open>cmd/migrate/main.go\<close>: the migration tool. The database it works on is the set of
  versions in \<^verbatim>\<open>schema_migrations\<close> and a state of which only what the SQL files make of
  it matters: \<open>exec\<close> runs a file's text, \<open>has_wallets\<close> and \<open>has_versions\<close> are the two
  questions \<^verbatim>\<open>registerLegacy\<close> asks the catalogue. The advisory lock makes a run one
  step. A lost connection is outside the model.
\<close>

record 'd migration_db =
  md_versions :: "int list"
  md_data :: 'd

record 'd engine =
  eg_exec :: "string \<Rightarrow> 'd \<Rightarrow> err + 'd"
  eg_has_wallets :: "'d \<Rightarrow> bool"
  eg_has_versions :: "'d \<Rightarrow> bool"

text \<open>A directory: names and contents, \<open>None\<close> for a file that cannot be read.\<close>

type_synonym directory = "(string \<times> string option) list"

definition register_legacy :: "'d engine \<Rightarrow> 'd migration_db \<Rightarrow> 'd migration_db" where
  "register_legacy eg s =
     (if md_versions s \<noteq> [] \<or> \<not> eg_has_wallets eg (md_data s) then s
      else if eg_has_versions eg (md_data s) then s\<lparr>md_versions := [1, 2]\<rparr>
      else s\<lparr>md_versions := [1]\<rparr>)"

definition has_suffix :: "string \<Rightarrow> string \<Rightarrow> bool" where
  "has_suffix suf s \<longleftrightarrow> length suf \<le> length s \<and> drop (length s - length suf) s = suf"

text \<open>The files of a direction, sorted by name, backwards for \<^verbatim>\<open>down\<close>.\<close>

definition migration_files :: "bool \<Rightarrow> directory \<Rightarrow> directory" where
  "migration_files up dir =
     (let fs = sort_key fst (filter (\<lambda>f. has_suffix (if up then ''.up.sql'' else ''.down.sql'') (fst f)) dir)
      in if up then fs else rev fs)"

definition file_version :: "string \<Rightarrow> err + int" where
  "file_version name =
     (case parse_int64 (takeWhile (\<lambda>c. c \<noteq> CHR ''_'') name) of
        (n, None) \<Rightarrow> Inr (sint n)
      | (n, Some e) \<Rightarrow> Inl (ErrText ''invalid migration''))"

text \<open>
  One file in a transaction of its own: its SQL, then its row in \<^verbatim>\<open>schema_migrations\<close>,
  whose \<^verbatim>\<open>version\<close> is a 32-bit column.
\<close>

definition apply_file :: "'d engine \<Rightarrow> bool \<Rightarrow> int \<Rightarrow> string \<Rightarrow> 'd migration_db \<Rightarrow> err + 'd migration_db" where
  "apply_file eg up v sql s =
     rbind (eg_exec eg sql (md_data s)) (\<lambda>d.
       if up
       then (if v < - 2147483648 \<or> 2147483647 < v then Inl (ErrPg NumericOutOfRange)
             else Inr (s\<lparr>md_versions := md_versions s @ [v], md_data := d\<rparr>))
       else Inr (s\<lparr>md_versions := filter (\<lambda>w. w \<noteq> v) (md_versions s), md_data := d\<rparr>))"

fun migrate_files :: "'d engine \<Rightarrow> bool \<Rightarrow> directory \<Rightarrow> 'd migration_db \<Rightarrow> err option \<times> 'd migration_db" where
  "migrate_files eg up [] s = (None, s)"
| "migrate_files eg up ((name, content) # fs) s =
     (case file_version name of
        Inl e \<Rightarrow> (Some e, s)
      | Inr v \<Rightarrow>
          if (up \<and> v \<in> set (md_versions s)) \<or> (\<not> up \<and> v \<notin> set (md_versions s))
          then migrate_files eg up fs s
          else (case content of
             None \<Rightarrow> (Some (ErrText ''cannot read file''), s)
           | Some sql \<Rightarrow>
               (case apply_file eg up v sql s of
                  Inl e \<Rightarrow> (Some e, s)
                | Inr s' \<Rightarrow> if up then migrate_files eg up fs s' else (None, s'))))"

definition migrate ::
    "'d engine \<Rightarrow> string list \<Rightarrow> directory \<Rightarrow> 'd migration_db \<Rightarrow> err option \<times> 'd migration_db" where
  "migrate eg args dir s =
     (let direction = (case args of [] \<Rightarrow> ''up'' | a # _ \<Rightarrow> a)
      in if direction \<noteq> ''up'' \<and> direction \<noteq> ''down''
         then (Some (ErrText ''usage: migrate [up|down]''), s)
         else migrate_files eg (direction = ''up'') (migration_files (direction = ''up'') dir)
                (register_legacy eg s))"

section \<open>Facts\<close>

text \<open>
  A run of migrations: \<open>applied_by eg fs s s'\<close> when \<open>s'\<close> comes from \<open>s\<close> by applying each file
  of \<open>fs\<close>, in that order, each with its row.
\<close>

fun applied_by :: "'d engine \<Rightarrow> bool \<Rightarrow> (int \<times> string) list \<Rightarrow> 'd migration_db \<Rightarrow> 'd migration_db \<Rightarrow> bool" where
  "applied_by eg up [] s s' \<longleftrightarrow> s' = s"
| "applied_by eg up ((v, sql) # fs) s s' \<longleftrightarrow>
     (\<exists>s1. apply_file eg up v sql s = Inr s1 \<and> applied_by eg up fs s1 s')"

lemma apply_up:
  "apply_file eg True v sql s = Inr s' \<Longrightarrow> md_versions s' = md_versions s @ [v]"
  by (auto simp: apply_file_def rbind_def split: sum.splits if_splits)

lemma applied_up_versions:
  "applied_by eg True fs s s' \<Longrightarrow> md_versions s' = md_versions s @ map fst fs"
  by (induction fs arbitrary: s) (auto simp: apply_up)

text \<open>The versions of the files that can be named, in order.\<close>

definition named_versions :: "directory \<Rightarrow> (int \<times> string) list" where
  "named_versions fs =
     List.map_filter (\<lambda>(n, c). case (file_version n, c) of
       (Inr v, Some sql) \<Rightarrow> Some (v, sql) | _ \<Rightarrow> None) fs"

lemma named_versions_Cons [simp]:
  "named_versions ((n, c) # fs) =
     (case (file_version n, c) of (Inr v, Some sql) \<Rightarrow> (v, sql) # named_versions fs
      | _ \<Rightarrow> named_versions fs)"
  by (auto simp: named_versions_def List.map_filter_simps split: sum.splits option.splits)

text \<open>What a run of the files \<open>fs\<close> did: \<open>rs\<close> are the files it applied.\<close>

definition upgraded ::
    "'d engine \<Rightarrow> directory \<Rightarrow> 'd migration_db \<Rightarrow> err option \<Rightarrow> 'd migration_db \<Rightarrow> (int \<times> string) list \<Rightarrow> bool" where
  "upgraded eg fs s res s' rs \<longleftrightarrow>
     applied_by eg True rs s s' \<and> subseq rs (named_versions fs) \<and>
     distinct (map fst rs) \<and> fst ` set rs \<inter> set (md_versions s) = {} \<and>
     (res = None \<longrightarrow> (\<forall>f\<in>set fs. \<exists>v. file_version (fst f) = Inr v \<and> v \<in> set (md_versions s')))"

lemma upgraded_stop: "res \<noteq> None \<or> fs = [] \<Longrightarrow> upgraded eg fs s res s []"
  by (auto simp: upgraded_def)

lemma upgraded_skip:
  assumes "upgraded eg fs s res s' rs" and "file_version n = Inr v" and "v \<in> set (md_versions s)"
  shows "upgraded eg ((n, c) # fs) s res s' rs"
proof -
  have "subseq rs (named_versions ((n, c) # fs))"
    using assms(1,2) by (auto simp: upgraded_def split: option.split intro: subseq_Cons')
  moreover have "v \<in> set (md_versions s')"
    using applied_up_versions [of eg rs s s'] assms(1,3) by (auto simp: upgraded_def)
  ultimately show ?thesis using assms(1,2) by (auto simp: upgraded_def)
qed

lemma upgraded_apply:
  assumes "upgraded eg fs s1 res s' rs" and "file_version n = Inr v" and "v \<notin> set (md_versions s)"
    and "apply_file eg True v sql s = Inr s1"
  shows "upgraded eg ((n, Some sql) # fs) s res s' ((v, sql) # rs)"
proof -
  note v = apply_up [OF assms(4)]
  moreover have "v \<in> set (md_versions s')"
    using applied_up_versions [of eg rs s1 s'] assms(1) v by (auto simp: upgraded_def)
  ultimately show ?thesis using assms by (auto simp: upgraded_def)
qed

lemma migrate_up_files:
  assumes "migrate_files eg True fs s = (res, s')"
  shows "\<exists>rs. upgraded eg fs s res s' rs"
  using assms
proof (induction fs arbitrary: s)
  case Nil
  then show ?case using upgraded_stop [of res "[]"] by auto
next
  case (Cons f fs)
  obtain n c where f: "f = (n, c)" by (cases f)
  have stop: ?case if "s' = s" and "res \<noteq> None"
    using upgraded_stop [of res] that by blast
  show ?case
  proof (cases "file_version n")
    case (Inl e)
    with Cons.prems show ?thesis by (intro stop) (auto simp: f)
  next
    case v: (Inr v)
    show ?thesis
    proof (cases "v \<in> set (md_versions s)")
      case True
      with Cons.prems v Cons.IH [of s] show ?thesis
        unfolding f by (auto intro: upgraded_skip)
    next
      case new: False
      with Cons.prems v stop show ?thesis
        unfolding f by (cases c) (auto split: sum.splits dest!: Cons.IH intro: upgraded_apply)
    qed
  qed
qed

lemma migrate_files_done:
  assumes "\<forall>f\<in>set fs. \<exists>v. file_version (fst f) = Inr v \<and> v \<in> set (md_versions s)"
  shows "migrate_files eg True fs s = (None, s)"
  using assms by (induction fs) auto

lemma register_legacy_id: "md_versions s \<noteq> [] \<Longrightarrow> register_legacy eg s = s"
  by (simp add: register_legacy_def)

lemma migrate_up_eq:
  "migrate eg [] dir s = migrate_files eg True (migration_files True dir) (register_legacy eg s)"
  by (simp add: migrate_def)


text \<open>An engine that counts what it runs, and the repository's file names.\<close>

definition sample_engine :: "string list engine" where
  "sample_engine = \<lparr>eg_exec = \<lambda>sql d. if sql = ''bad'' then Inl (ErrText ''syntax error'') else Inr (d @ [sql]),
     eg_has_wallets = \<lambda>d. d \<noteq> [], eg_has_versions = \<lambda>d. False\<rparr>"

definition sample_dir :: directory where
  "sample_dir = [(''000002_b.up.sql'', Some ''two''), (''000001_a.down.sql'', Some ''undo''),
     (''000001_a.up.sql'', Some ''one'')]"

lemma sample_migrated:
  "migrate sample_engine [] sample_dir \<lparr>md_versions = [], md_data = []\<rparr> =
     (None, \<lparr>md_versions = [1, 2], md_data = [''one'', ''two'']\<rparr>)"
  by (simp add: migrate_def migration_files_def sample_dir_def has_suffix_def register_legacy_def
      sample_engine_def file_version_def parse_int64_def is_digit_def digit_val_def apply_file_def
      less_char_def less_eq_char_def Let_def)


end
