(* ===== verification/Reading.thy ===== *)
theory Reading
  imports History
begin

text \<open>
  Transactions read back: what \<^verbatim>\<open>GetTransaction\<close>,
  \<^verbatim>\<open>GetTransactionForProvider\<close> and \<^verbatim>\<open>GetTransactionByExternal\<close> of
  \<^verbatim>\<open>internal/infra/postgres/store.go\<close> answer of a row the store has recorded.
\<close>

section \<open>A recorded row\<close>

text \<open>The time stamps a \<^verbatim>\<open>WagerTransaction\<close> can have.\<close>

definition times_ordered :: "wager_row \<Rightarrow> bool" where
  "times_ordered t \<longleftrightarrow> t_created t \<noteq> 0 \<and> t_updated t \<noteq> 0 \<and> t_created t \<le> t_updated t"

definition row_view :: "wager_row \<Rightarrow> transaction_view" where
  "row_view t =
     \<lparr>v_id = t_id t, v_external = string_value (t_external t),
      v_provider = string_value (t_provider t), v_wallet = t_wallet t, v_player = t_player t,
      v_round = string_value (t_round t), v_game = string_value (t_game t), v_kind = t_kind t,
      v_money = \<lparr>minor = t_amount t, currency = t_currency t\<rparr>,
      v_ref_external = string_value (t_ref_external t), v_ref = t_ref t, v_status = t_status t,
      v_failure = string_value (t_failure t),
      v_result = map_option (\<lambda>b. \<lparr>minor = b, currency = t_currency t\<rparr>) (t_result t),
      v_created = t_created t, v_updated = t_updated t\<rparr>"

definition read_row :: "wager_row \<Rightarrow> err + transaction_view" where
  "read_row t = (if times_ordered t then Inr (row_view t) else Inl ErrInvalidTransaction)"

text \<open>Validation looks at the time stamps in its first check only.\<close>

lemma validate_wager_times:
  assumes "validate_wager known (d\<lparr>wd_created := 1, wd_updated := 1\<rparr>) = Inr ()"
  shows "validate_wager known d =
    (if wd_created d = 0 \<or> wd_updated d = 0 \<or> wd_updated d < wd_created d
     then Inl ErrInvalidTransaction else Inr ())"
proof (cases "wd_created d = 0 \<or> wd_updated d = 0 \<or> wd_updated d < wd_created d")
  case True
  then show ?thesis by (simp add: validate_wager_def)
next
  case False
  then have "validate_wager known d = validate_wager known (d\<lparr>wd_created := 1, wd_updated := 1\<rparr>)"
    by (simp add: validate_wager_def cong: if_cong)
  with False assms show ?thesis by simp
qed

lemma scan_recorded:
  assumes "wager_ok pf d t"
  shows "scan_transaction pf (Some t) = read_row t"
proof -
  have v: "validate_wager (pf_known pf) ((row_data t)\<lparr>wd_created := 1, wd_updated := 1\<rparr>) = Inr ()"
    using assms by (simp add: wager_ok_def)
  then have known: "valid_currency (pf_known pf) (t_currency t)"
    using validate_wager_money [OF v] by (simp add: row_data_def money_valid_def)
  have "validate_wager (pf_known pf) (row_data t) =
      (if times_ordered t then Inr () else Inl ErrInvalidTransaction)"
    using validate_wager_times [OF v] by (auto simp: row_data_def times_ordered_def)
  with known show ?thesis
    by (simp add: scan_transaction_def read_row_def row_view_def money_from_minor_def rbind_def
        rehydrate_wager_def split: option.split)
qed

section \<open>The three ways to read it\<close>

lemma find_the_only:
  assumes "x \<in> set xs" and "P x" and "\<And>y. y \<in> set xs \<Longrightarrow> P y \<Longrightarrow> y = x"
  shows "find P xs = Some x"
proof (cases "find P xs")
  case None
  with assms(1,2) show ?thesis by (metis find_None_iff)
next
  case (Some y)
  with assms(3) [of y] find_SomeD [OF Some] show ?thesis by simp
qed

lemma find_external:
  assumes "keys_ok d" and "t \<in> set (db_wagers d)" and "t_provider t = Some p" and "t_external t = Some e"
  shows "find (\<lambda>r. t_provider r = Some p \<and> t_external r = Some e) (db_wagers d) = Some t"
proof (rule find_the_only [OF assms(2)])
  fix r
  assume r: "r \<in> set (db_wagers d)" "t_provider r = Some p \<and> t_external r = Some e"
  show "r = t"
  proof (rule clash_free_pair)
    show "clash_free wager_clash (db_wagers d)" using assms(1) by (simp add: keys_ok_def)
    show "wager_clash r t" using assms(3,4) r(2) by (simp add: wager_clash_def same_value_def)
  qed (use assms(2) r(1) wager_clash_sym in auto)
qed (simp add: assms)

lemma find_of_provider:
  assumes "keys_ok d" and "t \<in> set (db_wagers d)"
  shows "find (\<lambda>r. t_id r = t_id t \<and> t_provider r = Some p) (db_wagers d) =
    (if t_provider t = Some p then Some t else None)"
proof -
  note only = distinct_map_eqD [OF distinct_wagers [OF assms(1)] _ assms(2)]
  show ?thesis
  proof (cases "t_provider t = Some p")
    case True
    with only have "find (\<lambda>r. t_id r = t_id t \<and> t_provider r = Some p) (db_wagers d) = Some t"
      by (intro find_the_only [OF assms(2)]) simp_all
    with True show ?thesis by simp
  next
    case False
    have "\<not> (t_id r = t_id t \<and> t_provider r = Some p)" if "r \<in> set (db_wagers d)" for r
      using only [OF that] False by auto
    then have "find (\<lambda>r. t_id r = t_id t \<and> t_provider r = Some p) (db_wagers d) = None"
      by (subst find_None_iff) blast
    with False show ?thesis by simp
  qed
qed

text \<open>
  C22: In every reachable state a recorded transaction is read back whole, by its identifier, by its
  identifier for its provider and for no other, and by the provider's own identifier: every column
  as it was stored, unless its last change is stamped before its creation. The creation is stamped
  by the database and a change of a waiting transaction by the process, so the three answer
  \<^verbatim>\<open>ErrInvalidTransaction\<close> for a transaction resolved under a process clock that is
  behind. An identifier that no transaction has is answered with \<^verbatim>\<open>ErrNotFound\<close>.
\<close>

theorem transaction_read_back:
  assumes "platform_ok pf" and "reachable pf d" and "t \<in> set (db_wagers d)"
  shows "get_transaction pf (t_id t) d = read_row t \<and>
    get_transaction_for_provider pf (t_id t) p d =
      (if t_provider t = Some p then read_row t else Inl ErrNotFound) \<and>
    (t_provider t = Some p \<and> t_external t = Some e \<longrightarrow> get_transaction_by_external pf p e d = read_row t) \<and>
    (u \<notin> t_id ` set (db_wagers d) \<longrightarrow> get_transaction pf u d = Inl ErrNotFound)"
proof -
  have i: "integrity pf d" by (rule reachable_ok [OF assms(1,2)])
  then have k: "keys_ok d" and w: "wager_ok pf d t"
    using assms(3) by (simp_all add: integrity_def list_all_iff)
  have "find (\<lambda>r. t_id r = t_id t) (db_wagers d) = Some t"
    using find_wager_Some [OF k, of "t_id t" t] assms(3) by (simp add: find_wager_def)
  moreover have "find (\<lambda>r. t_id r = u) (db_wagers d) = None" if "u \<notin> t_id ` set (db_wagers d)"
    using that by (auto simp: find_None_iff)
  moreover have "scan_transaction pf None = Inl ErrNotFound" by (simp add: scan_transaction_def)
  ultimately show ?thesis
    using find_of_provider [OF k assms(3), of p] find_external [OF k assms(3), of p e]
    by (simp add: get_transaction_def get_transaction_for_provider_def get_transaction_by_external_def
        scan_recorded [OF w])
qed

text \<open>The waiting refund, postponed by a process whose clock is half a microsecond behind.\<close>

definition postponed_row :: wager_row where
  "postponed_row = \<lparr>t_id = 300, t_external = Some ''e2'', t_provider = Some ''p'', t_key = Some ''k2'',
     t_hash = Some (replicate 64 CHR ''0''), t_wallet = 10, t_player = 20, t_round = Some ''r'',
     t_game = Some ''g'', t_kind = Refund, t_amount = 80, t_currency = ''BRL'',
     t_ref_external = Some ''e1'', t_ref = None, t_status = PendingReference, t_failure = None,
     t_result = Some 100, t_attempts = 1, t_next = Some 1000001000, t_created = 2000,
     t_updated = 1000\<rparr>"

definition postponed_db :: db where
  "postponed_db = snd (resolve_pending_reference sample_platform
     ((sample_env 400 2000000000)\<lparr>en_now := 1500\<rparr>) pending_db)"

lemma postponed_reachable: "reachable sample_platform postponed_db"
  unfolding postponed_db_def by (rule reachable.step [OF pending_reachable]) (rule store_step.resolve)

lemma postponed_recorded: "postponed_row \<in> set (db_wagers postponed_db)"
  unfolding postponed_db_def postponed_row_def
  by (simp add: resolve_eval execute_eval decide_eval tx_eval statement_eval trigger_eval domain_eval
      pending_db_tables opened_db_tables sample_platform_def sample_env_def)

lemma transaction_read_back_witness:
  "get_transaction sample_platform 300 postponed_db = Inl ErrInvalidTransaction"
proof -
  from transaction_read_back [OF sample_platform_ok postponed_reachable postponed_recorded]
  show ?thesis by (simp add: read_row_def times_ordered_def postponed_row_def)
qed

end
