(* ===== verification/Spec2Isabelle.thy ===== *)
theory Spec2Isabelle
  imports Lifecycle Paging Migrate Reading
begin

text \<open>
  A model of the betting wallet service and the theorems that make it correct.

  \<^bold>\<open>The program.\<close> Providers submit wager transactions (bets, wins, refunds, rollbacks)
  over HTTP or through an SQS queue. \<^verbatim>\<open>internal/usecases\<close> decides each one against the
  wallet and, for a reversal, its reference; \<^verbatim>\<open>internal/infra/postgres/store.go\<close> runs the
  decision in one database transaction that locks the wallet, finds a replay, writes the transaction
  row, the wallet, the ledger entry and the outbox events. \<^verbatim>\<open>internal/worker/workers.go\<close>
  consumes the queue, publishes the outbox and resolves transactions that wait for their reference;
  a manager starts and stops the three. \<^verbatim>\<open>internal/controller/http.go\<close> behind
  \<^verbatim>\<open>internal/infra/oidc/auth.go\<close> serves the routes. The domain values are in
  \<^verbatim>\<open>internal/model\<close>, the external events in \<^verbatim>\<open>internal/events\<close>, the
  tables with their constraints and triggers in \<^verbatim>\<open>migrations/*.up.sql\<close>, applied by
  \<^verbatim>\<open>cmd/migrate\<close>.

  \<^bold>\<open>Conventions.\<close> An \<^verbatim>\<open>int64\<close> is a 64-bit word read by \<^verbatim>\<open>sint\<close>,
  with Go's wrapping operations; a UUID and an instant are numbers, 0 the zero value; a
  \<^verbatim>\<open>string\<close> is its list of bytes. A fallible function returns a sum, \<open>Inl\<close> with
  the sentinel error of the code. A struct is a record; an enumerated string type is a datatype with
  a constructor for every constant and one for all other texts. What a context, a clock, a random
  identifier, the network or a library answers is an argument.
\<close>

section \<open>Theories\<close>

text \<open>
  \<^item> \<open>Prelude\<close>: integers at their width, sums, lookup in lists, the collections
    \<open>go_res\<close> and \<open>go_int\<close> of rules for results and for Go's arithmetic.
    \<open>GoStd\<close>, \<open>Json\<close>, \<open>JsonDecode\<close>, \<open>GoText\<close>, \<open>Sha256\<close>: the parts of Go's standard
    library the program computes with, translated in full for its inputs: regular expressions,
    \<^verbatim>\<open>strconv\<close>, the JSON encoder and decoder with UTF-8 and the escapes, base64,
    \<^verbatim>\<open>strings.Fields\<close>, SHA-256.
  \<^item> \<open>Money\<close>, \<open>Wallet\<close>, \<open>Transaction\<close>, \<open>WagerTransaction\<close>, \<open>Ledger\<close>, \<open>Codec\<close>:
    \<^verbatim>\<open>internal/model\<close>, file by file: parsing and printing of amounts, exact arithmetic or
    \<open>ErrOverflow\<close>, the movements of a wallet, the status machine, the balance equation of a
    ledger entry, the JSON forms.
  \<^item> \<open>Events\<close>: \<^verbatim>\<open>internal/events/events.go\<close>.
  \<^item> \<open>Decision\<close>, \<open>Usecases\<close>, \<open>Requests\<close>: \<^verbatim>\<open>internal/usecases\<close>: \<open>decide\<close>
    with its outcomes and the safety of reversals, the services over the interfaces of their store,
    the canonical payload and its hash, the decoding of a request from a body or a message.
  \<^item> \<open>Schema\<close>, \<open>Store\<close>, \<open>StoreRead\<close>, \<open>Outbox\<close>: the tables as lists of rows with every check,
    unique index, foreign key and trigger, and the operations of the store on them as
    transactions: a function of the database that returns an error and no database, or a result
    and the new database. Deferred triggers are checked at the commit.
  \<^item> \<open>Integrity\<close>, \<open>Posting\<close>, \<open>Effects\<close>, \<open>StoreInvariant\<close>, \<open>Resolving\<close>, \<open>Opening\<close>,
    \<open>StoreSystem\<close>: the invariant \<open>integrity\<close> of the stored data and its proof, statement by
    statement and then operation by operation; \<open>store_step\<close> and \<open>reachable\<close> are the store as a
    transition system over all its calls.
  \<^item> \<open>Guarantees\<close>, \<open>History\<close>: what holds in every reachable state: a wallet is the sum of its
    gap-free ledger, ledger and processed transactions correspond, a reversal undoes its reference
    once, history only grows, reconciliation agrees, a waiting transaction is settled or postponed.
    \<open>Reading\<close>: what the reads of a transaction answer of a recorded row.
  \<^item> \<open>StoreContract\<close>, \<open>StoreService\<close>, \<open>Progress\<close>: the contract the services expect of their
    store, proved of the PostgreSQL store: idempotency of requests and of messages, all or nothing,
    and the exact errors of a call: every statement, constraint and trigger is shown to succeed for
    an input that is not at fault.
  \<^item> \<open>Queue\<close>, \<open>Metrics\<close>, \<open>Worker\<close>, \<open>Delivery\<close>, \<open>Publisher\<close>, \<open>Lifecycle\<close>: the SQS client,
    the counters, the three workers, what becomes of a message and of an event however the queues
    answer, and the manager that starts, joins and stops the goroutines.
  \<^item> \<open>Config\<close>, \<open>Http\<close>, \<open>Oidc\<close>, \<open>Serving\<close>, \<open>Paging\<close>: configuration, routes and handlers,
    the middleware, what one provider can see and change of another, and reading a ledger through
    cursors.
  \<^item> \<open>Process\<close>: requests, messages and rounds of the workers over one database in any order.
    \<open>Migrate\<close>: the migration tool.
\<close>

section \<open>Interfaces\<close>

text \<open>
  Where a component relies on another, the reliance is a locale, interpreted on the model of the
  component that provides it.
  \<^item> \<open>wallet_movement\<close> (\<open>Wallet\<close>): what a movement promises, by \<open>wallet_credit\<close> and
    \<open>wallet_debit\<close>; any sequence of movements is accounted for.
  \<^item> \<open>decider\<close> (\<open>Decision\<close>): what a decision function promises the store, by \<open>decide\<close> and the
    decision of \<^verbatim>\<open>Wager.Fail\<close>. \<open>store_call\<close> (\<open>StoreInvariant\<close>) extends it with a
    platform to the calls of the store that execute a decision, \<open>settling_call\<close> (\<open>Resolving\<close>) to
    those that settle a waiting row.
  \<^item> \<open>wager_store\<close>, \<open>wallet_store\<close> (\<open>StoreContract\<close>): the interfaces
    \<^verbatim>\<open>WagerStore\<close> and \<^verbatim>\<open>WalletStore\<close>; their laws are the histories the services
    rely on. \<open>StoreService\<close> proves them of the PostgreSQL store.
  \<^item> \<open>wager_processor\<close> (\<open>Delivery\<close>) and \<open>outbox_source\<close> (\<open>Publisher\<close>): the interfaces
    \<^verbatim>\<open>wagerProcessor\<close> and \<^verbatim>\<open>outboxStore\<close> of the workers, by the services over the
    store and by the outbox operations.
  \<^item> \<open>provider_services\<close> (\<open>Serving\<close>): what the handlers need of the services to keep providers
    apart.
  \<^item> \<open>store_relation\<close> with \<open>consumer_store\<close>, \<open>publisher_store\<close>, \<open>server_store\<close> (\<open>Process\<close>): any
    relation the calls of the store keep is kept by the parts of the process; used for the runs of
    the store.
\<close>

section \<open>Bounds\<close>

text \<open>
  The JSON decoder recurses on what is left of the text and stops at the nesting depth of Go's
  scanner, 10000 (\<open>max_nesting\<close>). \<open>follow_cursors\<close>, a client that reads page after page, has as
  fuel the most pages it reads; \<open>ledger_pages_complete\<close> shows that any fuel above the number of
  entries is enough. The loops of the workers and of their start have no bound in the code; a run is
  over a list of what surrounds its rounds, so what is proved of a run holds of every finite prefix.
  The resolver's attempts are bounded by the code, at ten.
\<close>

section \<open>Not modelled\<close>

text \<open>
  \<^item> Libraries are parameters: the ISO 4217 table, \<^verbatim>\<open>golang-jwt\<close>, the AWS SDK,
    \<^verbatim>\<open>time.ParseDuration\<close>, the text forms of UUIDs and instants with what is documented of
    them, the random source. \<^verbatim>\<open>net/http\<close> gives the handlers a method, a path, headers and
    a body; its cleaning of paths and its connections are left out.
  \<^item> A database transaction is atomic and isolated: the code takes the wallet row's lock first, and
    a call that loses its connection is outside the model, as are the migrations' own data
    changes and the down scripts.
  \<^item> \<^verbatim>\<open>cmd/api/main.go\<close>: the wiring by \<^verbatim>\<open>fx\<close>, the pool and the order in which
    \<^verbatim>\<open>fx\<close> runs the hooks call libraries only; the handler of the server, its start, the
    services behind it and the hooks of the workers are modelled.
    \<^verbatim>\<open>NewClient\<close> of the queue hands the configuration to the SDK. Logging is left out.
  \<^item> A duplicated member \<^verbatim>\<open>keys\<close> in a key set, and escapes inside the instant of a cursor,
    which this program never writes, are read in the simplest way.
\<close>

section \<open>What the model shows beside the properties\<close>

text \<open>
  \<^item> An operation in a currency the wallet does not have is decided \<^verbatim>\<open>WALLET_MISMATCH\<close>, but
    the transition with the wallet's balance then fails, and nothing is recorded
    (\<open>Progress\<close>).
  \<^item> A clock behind the wallet's last update makes a covered bet fail as
    \<^verbatim>\<open>AMOUNT_OVERFLOW\<close> (\<open>Decision\<close>).
  \<^item> The delays of the resolver sum up to 383 seconds and those of the queue end at 256, below the
    documented ones (\<open>History\<close>, \<open>Queue\<close>).
  \<^item> A waiting transaction has the database's \<^verbatim>\<open>now()\<close> as its creation and the
    process's clock as its update; when that clock is behind, the row a resolution leaves is refused
    on reading, and \<^verbatim>\<open>GET\<close> answers 503 (\<open>Reading\<close>).
  \<^item> One publisher alone can reorder the events of a wallet (\<open>Publisher\<close>).
  \<^item> The consumer does persist \<^verbatim>\<open>FAILED\<close>, on the fifth receive (\<open>Delivery\<close>).
\<close>

end
